theory Spec2Isabelle
  imports Complex_Main "HOL-Library.Sublist" "HOL-Library.AList"
begin

section \<open>Strings and paths\<close>

text \<open>
  Python strings are modelled as \<open>string\<close>, \<open>pathlib.Path\<close> values as the list of
  their components below the root.  The modelled file system has no symbolic links and
  every path is rooted at \<open>/\<close> (a path written with exactly two leading slashes, which
  pathlib keeps apart, is read as rooted at \<open>/\<close> too).  \<open>Path(s)\<close> drops empty and
  \<open>.\<close> components as pathlib does, and a \<open>..\<close> component is resolved when the path
  is built, against the components before it (without symbolic links it names the same
  file), so that \<open>resolve\<close> has nothing left to do.
\<close>

type_synonym path = "string list"

fun split_on :: "char \<Rightarrow> string \<Rightarrow> string list" where
  "split_on c [] = [[]]"
| "split_on c (x # xs) =
     (if x = c then [] # split_on c xs
      else (case split_on c xs of [] \<Rightarrow> [[x]] | y # ys \<Rightarrow> (x # y) # ys))"

definition parts :: "string \<Rightarrow> string list" where
  \<comment> \<open>the components a path string is written with\<close>
  "parts s = filter (\<lambda>c. c \<noteq> [] \<and> c \<noteq> ''.'') (split_on CHR ''/'' s)"

definition descend :: "path \<Rightarrow> string list \<Rightarrow> path" where
  \<comment> \<open>where the components lead from a directory; the parent of the root is the root\<close>
  "descend p cs = foldl (\<lambda>acc c. if c = ''..'' then butlast acc else acc @ [c]) p cs"

definition normalize :: "string list \<Rightarrow> path" where
  "normalize cs = descend [] cs"

definition Path :: "string \<Rightarrow> path" where
  "Path s = normalize (parts s)"

definition pstr :: "path \<Rightarrow> string" where
  \<comment> \<open>\<open>str(path)\<close>\<close>
  "pstr p = (if p = [] then ''/'' else concat (map (\<lambda>c. ''/'' @ c) p))"

definition pjoin :: "path \<Rightarrow> string \<Rightarrow> path" where
  \<comment> \<open>\<open>path / s\<close>: an absolute right operand replaces the left one, a relative one
      is followed from it\<close>
  "pjoin p s = (if s \<noteq> [] \<and> hd s = CHR ''/'' then Path s else descend p (parts s))"

definition proper :: "path \<Rightarrow> bool" where
  \<comment> \<open>the components of a path that \<open>Path\<close> builds: not empty, without a slash, neither
      \<open>.\<close> nor \<open>..\<close>\<close>
  "proper p = (\<forall>c \<in> set p. c \<noteq> [] \<and> c \<noteq> ''.'' \<and> c \<noteq> ''..'' \<and> CHR ''/'' \<notin> set c)"

definition pname :: "path \<Rightarrow> string" where
  \<comment> \<open>\<open>path.name\<close>\<close>
  "pname p = (if p = [] then [] else last p)"

definition endswith :: "string \<Rightarrow> string \<Rightarrow> bool" where
  \<comment> \<open>\<open>s.endswith(suf)\<close>\<close>
  "endswith s suf = suffix suf s"

definition stem :: "path \<Rightarrow> string" where
  \<comment> \<open>\<open>path.stem\<close>: the name up to its last dot, when that dot is neither first nor last\<close>
  "stem p =
     (let name = pname p; j = length (takeWhile (\<lambda>c. c \<noteq> CHR ''.'') (rev name))
      in if j < length name \<and> 0 < j \<and> Suc j < length name
         then take (length name - Suc j) name else name)"

definition with_unused :: "path \<Rightarrow> path" where
  \<comment> \<open>\<open>Path(str(p) + ".unused")\<close>\<close>
  "with_unused p = (if p = [] then [''.unused''] else butlast p @ [last p @ ''.unused''])"

definition digit :: "nat \<Rightarrow> char" where
  "digit d = ''0123456789'' ! (d mod 10)"

function show_nat :: "nat \<Rightarrow> string" where
  "show_nat n = (if n < 10 then [digit n] else show_nat (n div 10) @ [digit (n mod 10)])"
  by pat_completeness auto
termination
  by (relation "measure id") auto

definition show_int :: "int \<Rightarrow> string" where
  \<comment> \<open>\<open>str(i)\<close> for a Python int\<close>
  "show_int i = (if i < 0 then ''-'' @ show_nat (nat (- i)) else show_nat (nat i))"

section \<open>Floats\<close>

text \<open>
  A finite Python float is the rational it denotes.  The rounding that an arithmetic
  operation applies to its exact result is the parameter \<open>fround\<close> of the host; the
  conversions \<open>int(x)\<close> and \<open>f"{x:.2f}"\<close> are exact functions of that rational.
\<close>

definition py_int :: "rat \<Rightarrow> int" where
  \<comment> \<open>\<open>int(x)\<close>: truncation towards zero\<close>
  "py_int x = (if 0 \<le> x then \<lfloor>x\<rfloor> else \<lceil>x\<rceil>)"

definition py_round :: "rat \<Rightarrow> int" where
  \<comment> \<open>\<open>round(x)\<close>: to the nearest integer, ties to even\<close>
  "py_round x =
     (let f = \<lfloor>x\<rfloor>; d = x - of_int f
      in if d < 1 / 2 then f else if 1 / 2 < d then f + 1 else if even f then f else f + 1)"

definition fmt2f :: "rat \<Rightarrow> string" where
  \<comment> \<open>\<open>f"{x:.2f}"\<close>\<close>
  "fmt2f x =
     (let n = nat (py_round (\<bar>x\<bar> * 100))
      in (if x < 0 then ''-'' else []) @ show_nat (n div 100) @ ''.''
         @ [digit (n mod 100 div 10), digit (n mod 10)])"

definition float_0_001 :: rat where
  \<comment> \<open>the double nearest to 0.001\<close>
  "float_0_001 = 1152921504606847 / 1152921504606846976"

section \<open>File system\<close>

datatype filedata = Picture int int | Archive "(string \<times> filedata) list" | Bytes

datatype node = File filedata | Dir

type_synonym filesystem = "(path \<times> node) list"

datatype error =
    FileNotFoundError | FileExistsError | IsADirectoryError | NotADirectoryError
  | OSError | RuntimeError | KeyError | URLError | BadZipFile

definition fs_exists :: "filesystem \<Rightarrow> path \<Rightarrow> bool" where
  \<comment> \<open>\<open>path.exists()\<close>\<close>
  "fs_exists fs p = (p = [] \<or> map_of fs p \<noteq> None)"

definition is_dir :: "filesystem \<Rightarrow> path \<Rightarrow> bool" where
  "is_dir fs p = (p = [] \<or> map_of fs p = Some Dir)"

definition has_children :: "filesystem \<Rightarrow> path \<Rightarrow> bool" where
  "has_children fs p = list_ex (\<lambda>k. strict_prefix p k) (map fst fs)"

definition move_tree :: "path \<Rightarrow> path \<Rightarrow> filesystem \<Rightarrow> filesystem" where
  "move_tree src dst fs =
     map (\<lambda>(k, n). (if prefix src k then dst @ drop (length src) k else k, n))
       (filter (\<lambda>(k, n). \<not> prefix dst k) fs)"

definition fs_rename :: "path \<Rightarrow> path \<Rightarrow> filesystem \<Rightarrow> error + filesystem" where
  \<comment> \<open>\<open>src.rename(dst)\<close> with the POSIX rules of \<open>os.rename\<close>\<close>
  "fs_rename src dst fs =
     (if src = [] \<or> dst = [] then Inl OSError
      else case map_of fs src of
        None \<Rightarrow> Inl FileNotFoundError
      | Some (File d) \<Rightarrow>
          (if map_of fs dst = Some Dir then Inl IsADirectoryError
           else Inr (AList.update dst (File d) (AList.delete src fs)))
      | Some Dir \<Rightarrow>
          (if src = dst then Inr fs
           else case map_of fs dst of
             Some (File d) \<Rightarrow> Inl NotADirectoryError
           | _ \<Rightarrow>
             (if has_children fs dst \<or> prefix src dst \<or> prefix dst src then Inl OSError
              else Inr (move_tree src dst fs))))"

definition write_file :: "path \<Rightarrow> filedata \<Rightarrow> filesystem \<Rightarrow> error + filesystem" where
  \<comment> \<open>create or overwrite a regular file\<close>
  "write_file p d fs =
     (if p = [] \<or> map_of fs p = Some Dir then Inl IsADirectoryError
      else if \<not> is_dir fs (butlast p) then Inl FileNotFoundError
      else Inr (AList.update p (File d) fs))"

definition unlink :: "path \<Rightarrow> filesystem \<Rightarrow> error + filesystem" where
  \<comment> \<open>\<open>path.unlink()\<close>\<close>
  "unlink p fs =
     (case map_of fs p of
        Some (File d) \<Rightarrow> Inr (AList.delete p fs)
      | Some Dir \<Rightarrow> Inl IsADirectoryError
      | None \<Rightarrow> (if p = [] then Inl IsADirectoryError else Inl FileNotFoundError))"

definition mkdir :: "path \<Rightarrow> filesystem \<Rightarrow> error + filesystem" where
  \<comment> \<open>\<open>path.mkdir(exist_ok=True)\<close>\<close>
  "mkdir p fs =
     (if is_dir fs p then Inr fs
      else if map_of fs p \<noteq> None then Inl FileExistsError
      else if \<not> is_dir fs (butlast p) then Inl FileNotFoundError
      else Inr (AList.update p Dir fs))"

fun mkdir_chain :: "path list \<Rightarrow> filesystem \<Rightarrow> error \<times> filesystem + filesystem" where
  "mkdir_chain [] fs = Inr fs"
| "mkdir_chain (p # ps) fs =
     (case mkdir p fs of Inl e \<Rightarrow> Inl (e, fs) | Inr fs' \<Rightarrow> mkdir_chain ps fs')"

definition mkdir_parents :: "path \<Rightarrow> filesystem \<Rightarrow> error \<times> filesystem + filesystem" where
  \<comment> \<open>\<open>path.mkdir(parents=True, exist_ok=True)\<close>: every ancestor first, then the path;
      on failure the directories made so far stay\<close>
  "mkdir_parents p fs = mkdir_chain (prefixes p) fs"

definition fs_paths :: "filesystem \<Rightarrow> path list" where
  "fs_paths fs = remdups (map fst fs)"

definition listdir :: "path \<Rightarrow> filesystem \<Rightarrow> error + string list" where
  \<comment> \<open>\<open>os.listdir(path)\<close>, in the order the file system holds the entries\<close>
  "listdir d fs =
     (if is_dir fs d
      then Inr (map last (filter (\<lambda>k. k \<noteq> [] \<and> butlast k = d) (fs_paths fs)))
      else if fs_exists fs d then Inl NotADirectoryError else Inl FileNotFoundError)"

definition rglob_png :: "path \<Rightarrow> filesystem \<Rightarrow> path list" where
  \<comment> \<open>\<open>path.rglob("*.png")\<close>, listed when the loop starts.  pathlib walks the folder while
      the loop runs; the two differ only when the loop renames a directory that is itself
      named \<open>*.png\<close> before the walk has entered it\<close>
  "rglob_png d fs =
     (if is_dir fs d
      then filter (\<lambda>k. strict_prefix d k \<and> endswith (last k) ''.png'') (fs_paths fs)
      else [])"

definition resolve :: "path \<Rightarrow> path" where
  \<comment> \<open>\<open>path.resolve()\<close>: paths are rooted and there are no symbolic links\<close>
  "resolve p = p"

section \<open>Host state\<close>

text \<open>
  The part of Blender's state the add-on reads and writes: the scene properties registered
  by \<open>register\<close>, the image and material data blocks, the operator reports, the add-on
  preferences, and the module's global \<open>_updating_page\<close>.  Three traces record what
  the add-on asks of its environment, in order: \<open>requests\<close> the URLs opened with
  \<open>urlopen\<close>, \<open>retrieved\<close> those handed to \<open>urlretrieve\<close>, and \<open>image_io\<close> the image
  files read by \<open>images.load\<close>, the calls of \<open>image.scale\<close> and the files written by
  \<open>image.save\<close>.
\<close>

datatype event = Loaded path int int | Scaled int int | Saved path int int

record image =
  filepath :: string
  size_x :: int
  size_y :: int
  colorspace :: string

record shader_node =
  node_type :: string
  location :: "int \<times> int"
  node_image :: "image option"
  interpolation :: string

record link =
  from_node :: nat
  from_socket :: string
  to_node :: nat
  to_socket :: string

record material =
  mat_name :: string
  use_nodes :: bool
  nodes :: "shader_node list"
  links :: "link list"
  input_defaults :: "(string \<times> rat) list"
  use_backface_culling :: bool

record MaterialItem =
  asset_id :: string
  display_name :: string
  preview_url :: string

record scene =
  ambientcg_material_name :: string
  ambientcg_resolution :: string
  ambientcg_use_color :: bool
  ambientcg_use_metalness :: bool
  ambientcg_default_metallic :: rat
  ambientcg_use_roughness :: bool
  ambientcg_default_roughness :: rat
  ambientcg_use_normal :: bool
  ambientcg_use_displacement :: bool
  ambientcg_use_custom_folder :: bool
  ambientcg_custom_folder :: string
  ambientcg_use_relative_paths :: bool
  ambientcg_resize_multiplier :: rat
  ambientcg_interpolation :: string
  ambientcg_use_backface_culling :: bool
  ambientcg_search_query :: string
  ambientcg_browser_materials :: "MaterialItem list"
  ambientcg_browser_offset :: int
  ambientcg_browser_total :: int
  ambientcg_current_page :: int
  ambientcg_total_pages :: int
  ambientcg_goto_page :: int

record world =
  scene :: scene
  fs :: filesystem
  images :: "image list"
  materials :: "material list"
  reports :: "(string \<times> string) list"
  printed :: "string list"
  requests :: "string list"
  retrieved :: "string list"
  image_io :: "event list"
  cache_dir :: string
  blend_filepath :: string
  updating_page :: bool

text \<open>The JSON object of the search endpoint, with the keys the add-on reads.\<close>

record asset =
  assetId :: "string option"
  displayName :: "string option"
  previewImage :: "string option"

record search_result =
  numberOfResults :: "int option"
  foundAssets :: "asset list option"

text \<open>
  What lies outside the program: the rounding of float arithmetic and the answers of the
  remote catalogue (\<open>None\<close> when the request raises).
\<close>

record host =
  fround :: "rat \<Rightarrow> rat"
  http_get :: "string \<Rightarrow> filedata option"
  http_json :: "string \<Rightarrow> search_result option"

datatype status = FINISHED | CANCELLED

definition resolutions :: "string list" where
  \<comment> \<open>the items of the \<open>EnumProperty\<close> \<open>ambientcg_resolution\<close>\<close>
  "resolutions = [''1K'', ''2K'', ''4K'', ''8K'']"

definition MATERIALS_PER_PAGE :: int where
  "MATERIALS_PER_PAGE = 40"

definition report :: "string \<Rightarrow> string \<Rightarrow> world \<Rightarrow> world" where
  \<comment> \<open>\<open>self.report({level}, text)\<close>\<close>
  "report level text w = w\<lparr>reports := reports w @ [(level, text)]\<rparr>"

text \<open>
  An operation that raises keeps the effects it had before: its result is either the
  exception with the state reached, or a value with the new state.
\<close>

type_synonym 'a result = "error \<times> world + 'a \<times> world"

definition get_cache_dir :: "world \<Rightarrow> path result" where
  "get_cache_dir w =
     (let dir_path = Path (cache_dir w)
      in case mkdir_parents dir_path (fs w) of
           Inl (e, fs') \<Rightarrow> Inl (e, w\<lparr>fs := fs'\<rparr>)
         | Inr fs' \<Rightarrow> Inr (dir_path, w\<lparr>fs := fs'\<rparr>))"

definition urlretrieve :: "host \<Rightarrow> string \<Rightarrow> path \<Rightarrow> world \<Rightarrow> unit result" where
  \<comment> \<open>\<open>urllib.request.urlretrieve(url, path)\<close>\<close>
  "urlretrieve h url p w =
     (let w1 = w\<lparr>retrieved := retrieved w @ [url]\<rparr>
      in case http_get h url of
           None \<Rightarrow> Inl (URLError, w1)
         | Some d \<Rightarrow>
             (case write_file p d (fs w1) of
                Inl e \<Rightarrow> Inl (e, w1)
              | Inr fs' \<Rightarrow> Inr ((), w1\<lparr>fs := fs'\<rparr>)))"

section \<open>Material browser and pagination\<close>

definition hexdigit :: "nat \<Rightarrow> char" where
  "hexdigit n = ''0123456789ABCDEF'' ! (n mod 16)"

definition unreserved :: "char \<Rightarrow> bool" where
  "unreserved c =
     (let n = (of_char c :: nat)
      in (48 \<le> n \<and> n \<le> 57) \<or> (65 \<le> n \<and> n \<le> 90) \<or> (97 \<le> n \<and> n \<le> 122)
         \<or> c \<in> set ''_.-~/'')"

definition quote :: "string \<Rightarrow> string" where
  \<comment> \<open>\<open>urllib.parse.quote(s)\<close> on the bytes of \<open>s\<close>\<close>
  "quote s =
     concat (map (\<lambda>c. if unreserved c then [c]
                       else [CHR ''%'', hexdigit (of_char c div 16), hexdigit (of_char c mod 16)]) s)"

definition download_preview :: "host \<Rightarrow> string \<Rightarrow> string \<Rightarrow> world \<Rightarrow> bool \<times> world" where
  "download_preview h url aid w =
     (case get_cache_dir w of
        Inl (e, w1) \<Rightarrow> (False, w1)
      | Inr (d, w1) \<Rightarrow>
          (let previews = pjoin d ''previews''
           in case mkdir previews (fs w1) of
                Inl e \<Rightarrow> (False, w1)
              | Inr fs2 \<Rightarrow>
                  (let w2 = w1\<lparr>fs := fs2\<rparr>;
                       preview_path = pjoin previews (aid @ ''.jpg'')
                   in if \<not> fs_exists (fs w2) preview_path
                      then (case urlretrieve h url preview_path w2 of
                              Inl (e, w3) \<Rightarrow> (False, w3)
                            | Inr (u, w3) \<Rightarrow> (True, w3))
                      else (True, w2))))"

text \<open>
  The thumbnail downloads run on a pool of twenty workers; each writes its own file, and
  the model runs them one after the other in the order of the list.
\<close>

fun download_previews :: "host \<Rightarrow> (string \<times> string) list \<Rightarrow> world \<Rightarrow> world" where
  "download_previews h [] w = w"
| "download_previews h ((url, aid) # ps) w =
     download_previews h ps (snd (download_preview h url aid w))"

text \<open>
  The loop over \<open>foundAssets\<close>: \<open>Inl\<close> is the collection at the moment
  \<open>asset["assetId"]\<close> raises \<open>KeyError\<close> (the item was added already).
\<close>

fun add_assets ::
  "asset list \<Rightarrow> MaterialItem list \<Rightarrow> (string \<times> string) list
     \<Rightarrow> MaterialItem list + MaterialItem list \<times> (string \<times> string) list" where
  "add_assets [] items downloads = Inr (items, downloads)"
| "add_assets (a # as) items downloads =
     (case assetId a of
        None \<Rightarrow> Inl (items @ [\<lparr>asset_id = [], display_name = [], preview_url = []\<rparr>])
      | Some i \<Rightarrow>
          (let url = (case previewImage a of None \<Rightarrow> [] | Some u \<Rightarrow> u);
               item = \<lparr>asset_id = i,
                       display_name = (case displayName a of None \<Rightarrow> i | Some n \<Rightarrow> n),
                       preview_url = url\<rparr>
           in add_assets as (items @ [item])
                (if url \<noteq> [] then downloads @ [(url, i)] else downloads)))"

definition search_url :: "string \<Rightarrow> int \<Rightarrow> string" where
  "search_url search_query offset =
     ''https://ambientcg.com/api/v2/full_json?type=Material&limit=''
       @ show_int MATERIALS_PER_PAGE @ ''&offset='' @ show_int offset
       @ (if search_query \<noteq> [] then ''&q='' @ quote search_query else [])"

definition fetch_try :: "host \<Rightarrow> world \<Rightarrow> int result" where
  \<comment> \<open>the body of the \<open>try\<close> of \<open>MATERIAL_OT_fetch_browser_materials.execute\<close> up to
      the write of \<open>ambientcg_total_pages\<close>; the value is \<open>current_page\<close>\<close>
  "fetch_try h w =
     (let search_query = ambientcg_search_query (scene w);
          offset = ambientcg_browser_offset (scene w);
          url = search_url search_query offset;
          w1 = w\<lparr>requests := requests w @ [url]\<rparr>
      in case http_json h url of
           None \<Rightarrow> Inl (URLError, w1)
         | Some data \<Rightarrow>
             (let w2 = w1\<lparr>scene := (scene w1)
                         \<lparr>ambientcg_browser_total :=
                            (case numberOfResults data of None \<Rightarrow> 0 | Some n \<Rightarrow> n),
                          ambientcg_browser_materials := []\<rparr>\<rparr>
              in case add_assets (case foundAssets data of None \<Rightarrow> [] | Some as \<Rightarrow> as) [] [] of
                   Inl items \<Rightarrow>
                     Inl (KeyError, w2\<lparr>scene := (scene w2)\<lparr>ambientcg_browser_materials := items\<rparr>\<rparr>)
                 | Inr (items, preview_downloads) \<Rightarrow>
                     (let w3 = w2\<lparr>scene := (scene w2)\<lparr>ambientcg_browser_materials := items\<rparr>\<rparr>;
                          w4 = download_previews h preview_downloads w3;
                          total = ambientcg_browser_total (scene w4);
                          current_page = (offset div MATERIALS_PER_PAGE) + 1;
                          total_pages =
                            max 1 ((total + MATERIALS_PER_PAGE - 1) div MATERIALS_PER_PAGE)
                      in Inr (current_page,
                              w4\<lparr>scene := (scene w4)
                                   \<lparr>ambientcg_current_page := current_page,
                                    ambientcg_total_pages := total_pages\<rparr>\<rparr>))))"

text \<open>
  \<open>ambientcg_goto_page\<close> is registered with \<open>min=1\<close> and \<open>update=on_page_change\<close>: an
  assignment stores the value clamped from below and then calls the handler.  The handler
  and the fetch operator call each other, so they are defined together; the assignments
  are written out where the operator makes them.
\<close>

function on_page_change :: "host \<Rightarrow> world \<Rightarrow> world"
  and fetch_browser_materials :: "host \<Rightarrow> bool \<Rightarrow> world \<Rightarrow> status \<times> world" where
  "on_page_change h w =
     (if updating_page w then w
      else
        (let w1 = w\<lparr>updating_page := True\<rparr>;
             page = ambientcg_goto_page (scene w1);
             total_pages = ambientcg_total_pages (scene w1);
             page = (if page < 1 then 1
                     else if total_pages > 0 \<and> page > total_pages then total_pages
                     else page);
             w2 = w1\<lparr>scene := (scene w1)
                      \<lparr>ambientcg_browser_offset := (page - 1) * MATERIALS_PER_PAGE\<rparr>\<rparr>;
             w3 = snd (fetch_browser_materials h False w2)
         in w3\<lparr>updating_page := False\<rparr>))"
| "fetch_browser_materials h reset_to_first_page w =
     (let w1 =
            (if reset_to_first_page
             then (on_page_change h
                     (w\<lparr>scene := (scene w)\<lparr>ambientcg_browser_offset := 0,
                                           ambientcg_goto_page := max 1 1\<rparr>,
                        updating_page := True\<rparr>))\<lparr>updating_page := False\<rparr>
             else w)
      in case fetch_try h w1 of
           Inl (e, w2) \<Rightarrow> (CANCELLED, report ''ERROR'' ''Failed to fetch materials'' w2)
         | Inr (current_page, w2) \<Rightarrow>
             (let w3 = (on_page_change h
                          (w2\<lparr>scene := (scene w2)\<lparr>ambientcg_goto_page := max 1 current_page\<rparr>,
                              updating_page := True\<rparr>))\<lparr>updating_page := False\<rparr>
              in (FINISHED,
                  report ''INFO''
                    (''Found '' @ show_int (ambientcg_browser_total (scene w3)) @ '' materials'')
                    w3)))"
  by pat_completeness auto
termination
  by (relation "measure (\<lambda>x. case x of
          Inl (h, w) \<Rightarrow> (if updating_page w then 0 else 2)
        | Inr (h, r, w) \<Rightarrow> 1)") auto

definition clamp_page :: "int \<Rightarrow> int \<Rightarrow> int" where
  \<comment> \<open>the page \<open>on_page_change\<close> computes its offset from\<close>
  "clamp_page page total_pages =
     (if page < 1 then 1 else if total_pages > 0 \<and> page > total_pages then total_pages else page)"

section \<open>Texture processing\<close>

fun join_slash :: "string list \<Rightarrow> string" where
  "join_slash [] = []"
| "join_slash [c] = c"
| "join_slash (c # cs) = c @ ''/'' @ join_slash cs"

definition dirname :: "string \<Rightarrow> string" where
  \<comment> \<open>\<open>os.path.dirname\<close>\<close>
  "dirname s =
     (let head = rev (dropWhile (\<lambda>c. c \<noteq> CHR ''/'') (rev s))
      in if head \<noteq> [] \<and> \<not> list_all (\<lambda>c. c = CHR ''/'') head
         then rev (dropWhile (\<lambda>c. c = CHR ''/'') (rev head)) else head)"

definition os_relpath :: "string \<Rightarrow> string \<Rightarrow> string" where
  \<comment> \<open>\<open>os.path.relpath(path, start)\<close>\<close>
  "os_relpath p start =
     (let start_list = Path start; path_list = Path p;
          i = length (longest_common_prefix start_list path_list);
          rel_list = replicate (length start_list - i) ''..'' @ drop i path_list
      in if rel_list = [] then ''.'' else join_slash rel_list)"

definition relpath :: "world \<Rightarrow> string \<Rightarrow> string" where
  \<comment> \<open>\<open>bpy.path.relpath\<close>\<close>
  "relpath w p =
     (if prefix ''//'' p then p else ''//'' @ os_relpath p (dirname (blend_filepath w)))"

definition abspath :: "world \<Rightarrow> string \<Rightarrow> string" where
  \<comment> \<open>\<open>bpy.path.abspath\<close>\<close>
  "abspath w p =
     (if prefix ''//'' p
      then (let d = dirname (blend_filepath w); rest = drop 2 p
            in if rest \<noteq> [] \<and> hd rest = CHR ''/'' then rest
               else if d = [] \<or> last d = CHR ''/'' then d @ rest
               else d @ ''/'' @ rest)
      else p)"

definition get_texture_path :: "world \<Rightarrow> path \<Rightarrow> bool \<Rightarrow> string" where
  "get_texture_path w p use_relative =
     (let path_str = pstr p
      in if use_relative \<and> blend_filepath w \<noteq> [] then relpath w path_str else path_str)"

definition restore_unused_texture :: "path \<Rightarrow> world \<Rightarrow> bool result" where
  "restore_unused_texture file_path w =
     (let unused_path = with_unused file_path
      in if fs_exists (fs w) unused_path
         then (case fs_rename unused_path file_path (fs w) of
                 Inl e \<Rightarrow> Inl (e, w)
               | Inr fs' \<Rightarrow> Inr (True, w\<lparr>fs := fs'\<rparr>))
         else Inr (False, w))"

definition load_at :: "path \<Rightarrow> string \<Rightarrow> world \<Rightarrow> image result" where
  \<comment> \<open>a new image data block read from the file at the path; \<open>s\<close> is its \<open>filepath\<close>\<close>
  "load_at p s w =
     (case map_of (fs w) p of
        Some (File (Picture x y)) \<Rightarrow>
          (let img = \<lparr>filepath = s, size_x = x, size_y = y, colorspace = ''sRGB''\<rparr>
           in Inr (img, w\<lparr>images := images w @ [img],
                          image_io := image_io w @ [Loaded p x y]\<rparr>))
      | _ \<Rightarrow> Inl (RuntimeError, w))"

definition images_load :: "string \<Rightarrow> world \<Rightarrow> image result" where
  \<comment> \<open>\<open>bpy.data.images.load(filepath)\<close>\<close>
  "images_load s w = load_at (Path (abspath w s)) s w"

definition image_scale :: "int \<Rightarrow> int \<Rightarrow> image \<Rightarrow> world \<Rightarrow> image \<times> world" where
  \<comment> \<open>\<open>image.scale(width, height)\<close>\<close>
  "image_scale x y img w =
     (img\<lparr>size_x := x, size_y := y\<rparr>, w\<lparr>image_io := image_io w @ [Scaled x y]\<rparr>)"

definition image_save :: "path \<Rightarrow> image \<Rightarrow> world \<Rightarrow> unit result" where
  \<comment> \<open>\<open>image.save()\<close> of an image whose \<open>filepath_raw\<close> is \<open>str(p)\<close>\<close>
  "image_save p img w =
     (case write_file p (Picture (size_x img) (size_y img)) (fs w) of
        Inl e \<Rightarrow> Inl (e, w)
      | Inr fs' \<Rightarrow>
          Inr ((), w\<lparr>fs := fs',
                     image_io := image_io w @ [Saved p (size_x img) (size_y img)]\<rparr>))"

definition images_remove :: "nat \<Rightarrow> world \<Rightarrow> world" where
  \<comment> \<open>\<open>bpy.data.images.remove\<close> of the data block at the index\<close>
  "images_remove i w = w\<lparr>images := take i (images w) @ drop (Suc i) (images w)\<rparr>"

definition texture_type_of :: "path \<Rightarrow> string" where
  \<comment> \<open>\<open>source_path.stem.split('_')[-1]\<close>\<close>
  "texture_type_of source_path = last (split_on CHR ''_'' (stem source_path))"

definition output_path_of :: "path \<Rightarrow> path \<Rightarrow> rat \<Rightarrow> string \<Rightarrow> path" where
  "output_path_of source_path output_folder resize_multiplier material_name =
     (let texture_type = texture_type_of source_path;
          output_name =
            material_name @ ''_'' @ texture_type @ ''_'' @ fmt2f resize_multiplier @ ''.png''
      in pjoin output_folder output_name)"

definition convert_texture ::
  "host \<Rightarrow> path \<Rightarrow> path \<Rightarrow> rat \<Rightarrow> bool \<Rightarrow> world \<Rightarrow> string result" where
  \<comment> \<open>\<open>process_texture\<close> from \<open>bpy.data.images.load\<close> on: load, scale, save, remove\<close>
  "convert_texture h source_path output_path resize_multiplier use_relative_paths w2 =
     (case load_at source_path (pstr source_path) w2 of
        Inl x \<Rightarrow> Inl x
      | Inr (temp_image, w3) \<Rightarrow>
          (let new_width = py_int (fround h (of_int (size_x temp_image) * resize_multiplier));
               new_height = py_int (fround h (of_int (size_y temp_image) * resize_multiplier));
               (temp_image, w3) =
                 (if \<bar>fround h (resize_multiplier - 1)\<bar> > float_0_001
                  then image_scale new_width new_height temp_image w3
                  else (temp_image, w3));
               temp_image = temp_image\<lparr>filepath := pstr output_path\<rparr>
           in case image_save output_path temp_image w3 of
                Inl x \<Rightarrow> Inl x
              | Inr (u, w4) \<Rightarrow>
                  (let w5 = images_remove (length (images w2)) w4
                   in Inr (get_texture_path w5 output_path use_relative_paths, w5))))"

definition process_texture ::
  "host \<Rightarrow> path \<Rightarrow> path \<Rightarrow> rat \<Rightarrow> bool \<Rightarrow> string \<Rightarrow> world \<Rightarrow> string result" where
  "process_texture h source_path output_folder resize_multiplier use_relative_paths
     material_name w =
     (case restore_unused_texture source_path w of
        Inl x \<Rightarrow> Inl x
      | Inr (r1, w1) \<Rightarrow>
          (let output_path =
                 output_path_of source_path output_folder resize_multiplier material_name
           in case restore_unused_texture output_path w1 of
                Inl x \<Rightarrow> Inl x
              | Inr (r2, w2) \<Rightarrow>
                  (if fs_exists (fs w2) output_path
                   then Inr (get_texture_path w2 output_path use_relative_paths, w2)
                   else convert_texture h source_path output_path resize_multiplier
                          use_relative_paths w2)))"

definition output_ready :: "path \<Rightarrow> path \<Rightarrow> world \<Rightarrow> bool" where
  \<comment> \<open>the output file is there when \<open>process_texture\<close> looks for it, after its two
      calls of \<open>restore_unused_texture\<close>\<close>
  "output_ready source_path output_path w =
     (case restore_unused_texture source_path w of
        Inl x \<Rightarrow> False
      | Inr (r1, w1) \<Rightarrow>
          (case restore_unused_texture output_path w1 of
             Inl x \<Rightarrow> False
           | Inr (r2, w2) \<Rightarrow> fs_exists (fs w2) output_path))"

section \<open>Fetching an archive and building the material\<close>

definition member_path :: "path \<Rightarrow> string \<Rightarrow> path" where
  \<comment> \<open>where \<open>extractall\<close> puts a member: below the target, without \<open>..\<close> components\<close>
  "member_path target name =
     target @ filter (\<lambda>c. c \<noteq> [] \<and> c \<noteq> ''.'' \<and> c \<noteq> ''..'') (split_on CHR ''/'' name)"

definition extract_member ::
  "path \<Rightarrow> string \<times> filedata \<Rightarrow> filesystem \<Rightarrow> error \<times> filesystem + filesystem" where
  "extract_member target m fs0 =
     (let p = member_path target (fst m)
      in if endswith (fst m) ''/'' then mkdir_parents p fs0
         else (case mkdir_parents (butlast p) fs0 of
                 Inl x \<Rightarrow> Inl x
               | Inr fs1 \<Rightarrow>
                   (case write_file p (snd m) fs1 of
                      Inl e \<Rightarrow> Inl (e, fs1)
                    | Inr fs2 \<Rightarrow> Inr fs2)))"

fun extractall ::
  "path \<Rightarrow> (string \<times> filedata) list \<Rightarrow> filesystem \<Rightarrow> error \<times> filesystem + filesystem" where
  "extractall target [] fs0 = Inr fs0"
| "extractall target (m # ms) fs0 =
     (case extract_member target m fs0 of
        Inl x \<Rightarrow> Inl x
      | Inr fs1 \<Rightarrow> extractall target ms fs1)"

definition archive_url :: "string \<Rightarrow> string \<Rightarrow> string" where
  "archive_url material_name resolution =
     ''https://ambientcg.com/get?file='' @ material_name @ ''_'' @ resolution @ ''-PNG.zip''"

definition extract_path_of :: "path \<Rightarrow> string \<Rightarrow> string \<Rightarrow> path" where
  "extract_path_of cache material_name resolution =
     pjoin cache (material_name @ ''_'' @ resolution)"

definition zip_path_of :: "path \<Rightarrow> string \<Rightarrow> string \<Rightarrow> path" where
  "zip_path_of cache material_name resolution =
     pjoin cache (material_name @ ''_'' @ resolution @ ''.zip'')"

definition ensure_extracted ::
  "host \<Rightarrow> string \<Rightarrow> string \<Rightarrow> path \<Rightarrow> world \<Rightarrow> world + world" where
  \<comment> \<open>the \<open>if not extract_path.exists()\<close> statement of \<open>execute\<close>; \<open>Inl\<close> is the state
      in which the operator returns \<open>CANCELLED\<close>\<close>
  "ensure_extracted h material_name resolution cache w =
     (let extract_path = extract_path_of cache material_name resolution
      in if \<not> fs_exists (fs w) extract_path
         then
           (let zip_path = zip_path_of cache material_name resolution
            in case urlretrieve h (archive_url material_name resolution) zip_path w of
                 Inl (e, w1) \<Rightarrow> Inl (report ''ERROR'' ''Failed to download file'' w1)
               | Inr (u, w1) \<Rightarrow>
                   (case map_of (fs w1) zip_path of
                      Some (File (Archive members)) \<Rightarrow>
                        (case extractall extract_path members (fs w1) of
                           Inl (e, fs2) \<Rightarrow>
                             Inl (report ''ERROR'' ''Failed to extract zip file'' (w1\<lparr>fs := fs2\<rparr>))
                         | Inr fs2 \<Rightarrow>
                             (case unlink zip_path fs2 of
                                Inl e \<Rightarrow>
                                  Inl (report ''ERROR'' ''Failed to extract zip file''
                                         (w1\<lparr>fs := fs2\<rparr>))
                              | Inr fs3 \<Rightarrow> Inr (w1\<lparr>fs := fs3\<rparr>)))
                    | _ \<Rightarrow> Inl (report ''ERROR'' ''Failed to extract zip file'' w1)))
         else Inr (report ''INFO''
                     (''Using cached material: '' @ material_name @ ''_'' @ resolution) w))"

datatype channel = Color | Metalness | Roughness | NormalGL | Displacement

definition branch_of :: "scene \<Rightarrow> string \<Rightarrow> channel option" where
  \<comment> \<open>the \<open>if\<close>/\<open>elif\<close> chain of the loop over the extracted files\<close>
  "branch_of sc file =
     (if endswith file ''_Color.png'' \<and> ambientcg_use_color sc then Some Color
      else if endswith file ''_Metalness.png'' \<and> ambientcg_use_metalness sc then Some Metalness
      else if endswith file ''_Roughness.png'' \<and> ambientcg_use_roughness sc then Some Roughness
      else if endswith file ''_NormalGL.png'' \<and> ambientcg_use_normal sc then Some NormalGL
      else if endswith file ''_Displacement.png'' \<and> ambientcg_use_displacement sc
           then Some Displacement
      else None)"

fun channel_location :: "channel \<Rightarrow> int \<times> int" where
  "channel_location Color = (- 600, 600)"
| "channel_location Metalness = (- 600, 300)"
| "channel_location Roughness = (- 600, 0)"
| "channel_location NormalGL = (- 600, - 300)"
| "channel_location Displacement = (- 600, - 600)"

fun channel_colorspace :: "channel \<Rightarrow> string" where
  "channel_colorspace Color = ''sRGB''"
| "channel_colorspace c = ''Non-Color''"

definition plain_node :: "string \<Rightarrow> int \<times> int \<Rightarrow> shader_node" where
  "plain_node t loc = \<lparr>node_type = t, location = loc, node_image = None, interpolation = []\<rparr>"

definition nodes_new :: "shader_node \<Rightarrow> material \<Rightarrow> material" where
  \<comment> \<open>\<open>nodes.new(...)\<close>\<close>
  "nodes_new n m = m\<lparr>nodes := nodes m @ [n]\<rparr>"

definition links_new :: "nat \<Rightarrow> string \<Rightarrow> nat \<Rightarrow> string \<Rightarrow> material \<Rightarrow> material" where
  \<comment> \<open>\<open>links.new(output, input)\<close>: an input socket holds one link, a new one replaces it\<close>
  "links_new a out b inp m =
     m\<lparr>links := filter (\<lambda>l. \<not> (to_node l = b \<and> to_socket l = inp)) (links m)
                  @ [\<lparr>from_node = a, from_socket = out, to_node = b, to_socket = inp\<rparr>]\<rparr>"

text \<open>
  The nodes every material starts with, in the order of their creation: the output at
  index 0, the principled shader at 1, the texture coordinates at 2, the mapping at 3.
\<close>

definition new_material :: "string \<Rightarrow> material" where
  "new_material name =
     (let m = \<lparr>mat_name = name, use_nodes = True, nodes = [], links = [],
               input_defaults = [], use_backface_culling = False\<rparr>;
          m = nodes_new (plain_node ''ShaderNodeOutputMaterial'' (300, 0)) m;
          m = nodes_new (plain_node ''ShaderNodeBsdfPrincipled'' (0, 0)) m;
          m = links_new 1 ''BSDF'' 0 ''Surface'' m;
          m = nodes_new (plain_node ''ShaderNodeTexCoord'' (- 1000, 0)) m;
          m = nodes_new (plain_node ''ShaderNodeMapping'' (- 800, 0)) m
      in links_new 2 ''UV'' 3 ''Vector'' m)"

definition cur_material :: "world \<Rightarrow> material" where
  "cur_material w = last (materials w)"

definition set_cur_material :: "material \<Rightarrow> world \<Rightarrow> world" where
  "set_cur_material m w = w\<lparr>materials := butlast (materials w) @ [m]\<rparr>"

definition wire_channel :: "channel \<Rightarrow> nat \<Rightarrow> material \<Rightarrow> material" where
  \<comment> \<open>what each branch does after the image texture node at index \<open>t\<close> has its image\<close>
  "wire_channel c t m =
     (case c of
        Color \<Rightarrow> links_new 3 ''Vector'' t ''Vector'' (links_new t ''Color'' 1 ''Base Color'' m)
      | Metalness \<Rightarrow> links_new 3 ''Vector'' t ''Vector'' (links_new t ''Color'' 1 ''Metallic'' m)
      | Roughness \<Rightarrow> links_new 3 ''Vector'' t ''Vector'' (links_new t ''Color'' 1 ''Roughness'' m)
      | NormalGL \<Rightarrow>
          (let m = nodes_new (plain_node ''ShaderNodeNormalMap'' (- 300, - 300)) m;
               m = links_new t ''Color'' (Suc t) ''Color'' m;
               m = links_new (Suc t) ''Normal'' 1 ''Normal'' m
           in links_new 3 ''Vector'' t ''Vector'' m)
      | Displacement \<Rightarrow>
          (let m = nodes_new (plain_node ''ShaderNodeDisplacement'' (- 300, - 600)) m;
               m = links_new t ''Color'' (Suc t) ''Height'' m;
               m = links_new (Suc t) ''Displacement'' 0 ''Displacement'' m
           in links_new 3 ''Vector'' t ''Vector'' m))"

definition texture_step :: "host \<Rightarrow> path \<Rightarrow> path \<Rightarrow> string \<Rightarrow> world \<Rightarrow> unit result" where
  \<comment> \<open>one iteration of \<open>for file in os.listdir(extract_path)\<close>; \<open>file\<close> is the name of
      a directory entry, so \<open>extract_path / file\<close> adds one component\<close>
  "texture_step h extract_path output_folder file w =
     (let source_path = extract_path @ [file]
      in case branch_of (scene w) file of
           None \<Rightarrow> Inr ((), w)
         | Some c \<Rightarrow>
             (case process_texture h source_path output_folder
                     (ambientcg_resize_multiplier (scene w))
                     (ambientcg_use_relative_paths (scene w))
                     (ambientcg_material_name (scene w)) w of
                Inl x \<Rightarrow> Inl x
              | Inr (texture_path, w1) \<Rightarrow>
                  (let t = length (nodes (cur_material w1));
                       tex = plain_node ''ShaderNodeTexImage'' (channel_location c);
                       w2 = set_cur_material (nodes_new tex (cur_material w1)) w1
                   in case images_load texture_path w2 of
                        Inl x \<Rightarrow> Inl x
                      | Inr (img, w3) \<Rightarrow>
                          (let img = img\<lparr>colorspace := channel_colorspace c\<rparr>;
                               w4 = w3\<lparr>images := images w2 @ [img]\<rparr>;
                               m = cur_material w4;
                               m = m\<lparr>nodes := (nodes m)
                                      [t := tex\<lparr>node_image := Some img,
                                                interpolation :=
                                                  ambientcg_interpolation (scene w)\<rparr>]\<rparr>
                           in Inr ((), set_cur_material (wire_channel c t m) w4)))))"

fun texture_loop :: "host \<Rightarrow> path \<Rightarrow> path \<Rightarrow> string list \<Rightarrow> world \<Rightarrow> unit result" where
  "texture_loop h extract_path output_folder [] w = Inr ((), w)"
| "texture_loop h extract_path output_folder (file # files) w =
     (case texture_step h extract_path output_folder file w of
        Inl x \<Rightarrow> Inl x
      | Inr (u, w1) \<Rightarrow> texture_loop h extract_path output_folder files w1)"

definition set_default :: "string \<Rightarrow> rat \<Rightarrow> material \<Rightarrow> material" where
  \<comment> \<open>\<open>principled.inputs[name].default_value = v\<close>\<close>
  "set_default name v m = m\<lparr>input_defaults := AList.update name v (input_defaults m)\<rparr>"

definition choose_folders :: "world \<Rightarrow> (path \<times> path \<times> path) result" where
  \<comment> \<open>\<open>execute\<close> up to the download: the cache directory, the extraction path and the
      output folder (created when it is the custom folder)\<close>
  "choose_folders w =
     (let material_name = ambientcg_material_name (scene w);
          resolution = ambientcg_resolution (scene w);
          use_custom_folder = ambientcg_use_custom_folder (scene w);
          custom_folder = ambientcg_custom_folder (scene w)
      in case get_cache_dir w of
           Inl x \<Rightarrow> Inl x
         | Inr (cache, w1) \<Rightarrow>
             (let extract_path = extract_path_of cache material_name resolution
              in if use_custom_folder \<and> custom_folder \<noteq> []
                 then (case mkdir_parents (Path custom_folder) (fs w1) of
                         Inl (e, fs') \<Rightarrow> Inl (e, w1\<lparr>fs := fs'\<rparr>)
                       | Inr fs' \<Rightarrow>
                           Inr ((cache, extract_path, Path custom_folder), w1\<lparr>fs := fs'\<rparr>))
                 else Inr ((cache, extract_path, extract_path), w1)))"

definition build_material :: "host \<Rightarrow> path \<Rightarrow> path \<Rightarrow> world \<Rightarrow> status result" where
  \<comment> \<open>\<open>execute\<close> from \<open>bpy.data.materials.new\<close> on\<close>
  "build_material h extract_path output_folder w3 =
     (let material_name = ambientcg_material_name (scene w3);
          w4 = w3\<lparr>materials := materials w3 @ [new_material material_name]\<rparr>
      in case listdir extract_path (fs w4) of
           Inl e \<Rightarrow> Inl (e, w4)
         | Inr files \<Rightarrow>
             (case texture_loop h extract_path output_folder files w4 of
                Inl x \<Rightarrow> Inl x
              | Inr (u, w5) \<Rightarrow>
                  (let m = cur_material w5;
                       m = (if \<not> ambientcg_use_metalness (scene w5)
                            then set_default ''Metallic'' (ambientcg_default_metallic (scene w5)) m
                            else m);
                       m = (if \<not> ambientcg_use_roughness (scene w5)
                            then set_default ''Roughness'' (ambientcg_default_roughness (scene w5)) m
                            else m);
                       m = (if ambientcg_use_backface_culling (scene w5)
                            then m\<lparr>use_backface_culling := True\<rparr> else m);
                       w6 = set_cur_material m w5
                   in Inr (FINISHED,
                           report ''INFO''
                             (''Material '' @ [CHR 0x27] @ material_name @ [CHR 0x27]
                                @ '' has been created successfully.'')
                             w6))))"

definition fetch_and_create :: "host \<Rightarrow> world \<Rightarrow> status result" where
  \<comment> \<open>\<open>MATERIAL_OT_fetch_and_create.execute\<close>\<close>
  "fetch_and_create h w =
     (case choose_folders w of
        Inl x \<Rightarrow> Inl x
      | Inr ((cache, extract_path, output_folder), w2) \<Rightarrow>
          (case ensure_extracted h (ambientcg_material_name (scene w))
                  (ambientcg_resolution (scene w)) cache w2 of
             Inl w3 \<Rightarrow> Inr (CANCELLED, w3)
           | Inr w3 \<Rightarrow> build_material h extract_path output_folder w3))"

text \<open>What a finished run created: type and location of the nodes of the new material.\<close>

definition node_sig :: "shader_node \<Rightarrow> string \<times> int \<times> int" where
  "node_sig n = (node_type n, location n)"

definition created_nodes :: "status result \<Rightarrow> (string \<times> int \<times> int) list option" where
  "created_nodes r =
     (case r of
        Inr (FINISHED, w') \<Rightarrow> Some (map node_sig (nodes (cur_material w')))
      | _ \<Rightarrow> None)"

definition base_nodes :: "(string \<times> int \<times> int) list" where
  "base_nodes =
     [(''ShaderNodeOutputMaterial'', 300, 0), (''ShaderNodeBsdfPrincipled'', 0, 0),
      (''ShaderNodeTexCoord'', - 1000, 0), (''ShaderNodeMapping'', - 800, 0)]"

definition channel_nodes :: "scene \<Rightarrow> string \<Rightarrow> (string \<times> int \<times> int) list" where
  \<comment> \<open>the nodes one directory entry gives rise to\<close>
  "channel_nodes sc file =
     (case branch_of sc file of
        None \<Rightarrow> []
      | Some NormalGL \<Rightarrow>
          [(''ShaderNodeTexImage'', channel_location NormalGL),
           (''ShaderNodeNormalMap'', - 300, - 300)]
      | Some Displacement \<Rightarrow>
          [(''ShaderNodeTexImage'', channel_location Displacement),
           (''ShaderNodeDisplacement'', - 300, - 600)]
      | Some c \<Rightarrow> [(''ShaderNodeTexImage'', channel_location c)])"

definition cache_clean :: "path \<Rightarrow> path \<Rightarrow> world \<Rightarrow> bool" where
  \<comment> \<open>no file at the archive's path, a directory at the extraction path\<close>
  "cache_clean zp ep w = (map_of (fs w) zp = None \<and> is_dir (fs w) ep)"

section \<open>Marking unused textures\<close>

fun mark_loop :: "path list \<Rightarrow> path list \<Rightarrow> int \<Rightarrow> world \<Rightarrow> int \<times> world" where
  \<comment> \<open>\<open>for png_file in custom_folder.rglob("*.png")\<close>, with \<open>marked_count\<close>\<close>
  "mark_loop [] loaded_images marked_count w = (marked_count, w)"
| "mark_loop (png_file # rest) loaded_images marked_count w =
     (if endswith (pname png_file) ''.unused'' then mark_loop rest loaded_images marked_count w
      else if resolve png_file \<notin> set loaded_images
      then (case fs_rename png_file (with_unused png_file) (fs w) of
              Inr fs' \<Rightarrow> mark_loop rest loaded_images (marked_count + 1) (w\<lparr>fs := fs'\<rparr>)
            | Inl e \<Rightarrow>
                mark_loop rest loaded_images marked_count
                  (w\<lparr>printed := printed w @ [''Failed to mark '' @ pstr png_file]\<rparr>))
      else mark_loop rest loaded_images marked_count w)"

definition loaded_images_of :: "world \<Rightarrow> path list" where
  "loaded_images_of w =
     map (\<lambda>img. resolve (Path (abspath w (filepath img))))
       (filter (\<lambda>img. filepath img \<noteq> []) (images w))"

definition mark_unused_textures :: "world \<Rightarrow> status \<times> world" where
  \<comment> \<open>\<open>MATERIAL_OT_mark_unused_textures.execute\<close>\<close>
  "mark_unused_textures w =
     (if \<not> ambientcg_use_custom_folder (scene w) \<or> ambientcg_custom_folder (scene w) = []
      then (CANCELLED, report ''WARNING'' ''Custom folder not configured'' w)
      else
        (let custom_folder = Path (ambientcg_custom_folder (scene w))
         in if \<not> fs_exists (fs w) custom_folder
            then (CANCELLED, report ''WARNING'' ''Custom folder does not exist'' w)
            else
              (let loaded_images = loaded_images_of w;
                   (marked_count, w1) =
                     mark_loop (rglob_png custom_folder (fs w)) loaded_images 0 w
               in (FINISHED,
                   report ''INFO'' (''Marked '' @ show_int marked_count @ '' unused textures'')
                     w1))))"

definition is_png :: "path \<Rightarrow> bool" where
  "is_png p = (p \<noteq> [] \<and> endswith (last p) ''.png'')"

definition marked_of :: "path list \<Rightarrow> path list \<Rightarrow> filesystem \<Rightarrow> path list" where
  \<comment> \<open>the files among \<open>ps\<close> that are not loaded and whose suffixed name is free to take\<close>
  "marked_of ps loaded ft =
     filter (\<lambda>p. resolve p \<notin> set loaded \<and> map_of ft (with_unused p) \<noteq> Some Dir) ps"

section \<open>Example states\<close>

text \<open>
  The scene as \<open>register\<close> leaves it, a catalogue that answers every search with 105
  results and serves one archive, and a world with an empty file system.
\<close>

definition example_scene :: scene where
  "example_scene =
     \<lparr>ambientcg_material_name = ''Rock035'',
      ambientcg_resolution = ''1K'',
      ambientcg_use_color = True,
      ambientcg_use_metalness = True,
      ambientcg_default_metallic = 1 / 2,
      ambientcg_use_roughness = True,
      ambientcg_default_roughness = 1 / 2,
      ambientcg_use_normal = True,
      ambientcg_use_displacement = True,
      ambientcg_use_custom_folder = False,
      ambientcg_custom_folder = [],
      ambientcg_use_relative_paths = False,
      ambientcg_resize_multiplier = 1,
      ambientcg_interpolation = ''Linear'',
      ambientcg_use_backface_culling = False,
      ambientcg_search_query = ''rock'',
      ambientcg_browser_materials = [],
      ambientcg_browser_offset = 0,
      ambientcg_browser_total = 0,
      ambientcg_current_page = 1,
      ambientcg_total_pages = 1,
      ambientcg_goto_page = 1\<rparr>"

definition example_archive :: filedata where
  "example_archive =
     Archive [(''Rock035_1K-PNG_Roughness.png'', Picture 1024 1024),
              (''Rock035_1K-PNG_Color.png'', Picture 1024 1024),
              (''Rock035.usdc'', Bytes)]"

definition example_host :: host where
  "example_host =
     \<lparr>fround = (\<lambda>x. x),
      http_get = (\<lambda>url. if url = archive_url ''Rock035'' ''1K'' then Some example_archive
                          else None),
      http_json = (\<lambda>url. Some \<lparr>numberOfResults = Some 105, foundAssets = Some []\<rparr>)\<rparr>"

definition example_world :: world where
  "example_world =
     \<lparr>scene = example_scene,
      fs = [],
      images = [],
      materials = [],
      reports = [],
      printed = [],
      requests = [],
      retrieved = [],
      image_io = [],
      cache_dir = ''/cache'',
      blend_filepath = [],
      updating_page = False\<rparr>"

definition requesting :: "int \<Rightarrow> int \<Rightarrow> world" where
  \<comment> \<open>the example world with the page field and the page count set\<close>
  "requesting page total_pages =
     example_world\<lparr>scene := example_scene\<lparr>ambientcg_total_pages := total_pages,
                                            ambientcg_goto_page := page\<rparr>\<rparr>"

definition color_png :: path where
  "color_png = [''cache'', ''Rock035_1K'', ''Rock035_1K-PNG_Color.png'']"

definition texture_world :: "int \<Rightarrow> int \<Rightarrow> world" where
  \<comment> \<open>the example world with an extracted colour map of the given size\<close>
  "texture_world x y =
     example_world\<lparr>fs := [([''cache''], Dir), ([''cache'', ''Rock035_1K''], Dir),
                           ([''cache'', ''Rock035_1K'', ''Rock035_1K-PNG_Color.png''],
                            File (Picture x y))]\<rparr>"

definition processed_world :: world where
  \<comment> \<open>\<open>texture_world 1024 1024\<close> after its colour map was processed at scale 1.0\<close>
  "processed_world =
     (texture_world 1024 1024)
       \<lparr>fs := [([''cache''], Dir), ([''cache'', ''Rock035_1K''], Dir),
                (color_png, File (Picture 1024 1024)),
                ([''cache'', ''Rock035_1K'', ''Rock035_Color_1.00.png''],
                 File (Picture 1024 1024))],
        image_io := [Loaded color_png 1024 1024,
                     Saved [''cache'', ''Rock035_1K'', ''Rock035_Color_1.00.png''] 1024 1024]\<rparr>"

definition rescaled_world :: world where
  \<comment> \<open>\<open>texture_world 1024 1024\<close> after its colour map was processed at scale 255/256,
      which \<open>:.2f\<close> prints as 1.00\<close>
  "rescaled_world =
     (texture_world 1024 1024)
       \<lparr>fs := [([''cache''], Dir), ([''cache'', ''Rock035_1K''], Dir),
                (color_png, File (Picture 1024 1024)),
                ([''cache'', ''Rock035_1K'', ''Rock035_Color_1.00.png''],
                 File (Picture 1020 1020))],
        image_io := [Loaded color_png 1024 1024, Scaled 1020 1020,
                     Saved [''cache'', ''Rock035_1K'', ''Rock035_Color_1.00.png''] 1020 1020]\<rparr>"

definition mark_world :: world where
  \<comment> \<open>a custom folder with three textures: the suffixed name of \<open>a.png\<close> is taken by a
      directory, \<open>b.png\<close> is not in use, \<open>c.png\<close> is loaded\<close>
  "mark_world =
     example_world
       \<lparr>scene := example_scene\<lparr>ambientcg_use_custom_folder := True,
                               ambientcg_custom_folder := ''/tex''\<rparr>,
        fs := [([''tex''], Dir),
               ([''tex'', ''a.png''], File (Picture 4 4)),
               ([''tex'', ''a.png.unused''], Dir),
               ([''tex'', ''b.png''], File (Picture 4 4)),
               ([''tex'', ''c.png''], File (Picture 4 4))],
        images := [\<lparr>filepath = ''/tex/c.png'', size_x = 4, size_y = 4, colorspace = ''sRGB''\<rparr>]\<rparr>"

definition custom_world :: world where
  \<comment> \<open>a custom folder that holds the processed colour map of the example material,
      with no image loaded\<close>
  "custom_world =
     example_world
       \<lparr>scene := example_scene\<lparr>ambientcg_use_custom_folder := True,
                               ambientcg_custom_folder := ''/tex''\<rparr>,
        fs := [([''cache''], Dir), ([''cache'', ''Rock035_1K''], Dir),
               (color_png, File (Picture 1024 1024)),
               ([''tex''], Dir),
               ([''tex'', ''Rock035_Color_1.00.png''], File (Picture 1024 1024))]\<rparr>"

definition extracted_world :: world where
  \<comment> \<open>the example world after the archive was downloaded, extracted and deleted\<close>
  "extracted_world =
     example_world
       \<lparr>fs := [([''cache''], Dir), ([''cache'', ''Rock035_1K''], Dir),
                ([''cache'', ''Rock035_1K'', ''Rock035_1K-PNG_Roughness.png''], File (Picture 1024 1024)),
                ([''cache'', ''Rock035_1K'', ''Rock035_1K-PNG_Color.png''], File (Picture 1024 1024)),
                ([''cache'', ''Rock035_1K'', ''Rock035.usdc''], File Bytes)],
        retrieved := [archive_url ''Rock035'' ''1K'']\<rparr>"

section \<open>Pagination: proofs\<close>

declare on_page_change.simps [simp del] fetch_browser_materials.simps [simp del]

lemma on_page_change_guarded: "updating_page w \<Longrightarrow> on_page_change h w = w"
  by (simp add: on_page_change.simps)

lemma download_preview_scene: "scene (snd (download_preview h url aid w)) = scene w"
  by (auto simp: download_preview_def get_cache_dir_def urlretrieve_def Let_def
      split: sum.splits prod.splits option.splits)

lemma download_preview_flag: "updating_page (snd (download_preview h url aid w)) = updating_page w"
  by (auto simp: download_preview_def get_cache_dir_def urlretrieve_def Let_def
      split: sum.splits prod.splits option.splits)

lemma download_previews_scene: "scene (download_previews h ps w) = scene w"
  by (induction h ps w rule: download_previews.induct) (simp_all add: download_preview_scene)

lemma download_previews_flag: "updating_page (download_previews h ps w) = updating_page w"
  by (induction h ps w rule: download_previews.induct) (simp_all add: download_preview_flag)

lemma fetch_unfold:
  "fetch_browser_materials h r w =
     (let w1 = (if r then w\<lparr>scene := (scene w)\<lparr>ambientcg_browser_offset := 0,
                                           ambientcg_goto_page := 1\<rparr>,
                        updating_page := False\<rparr> else w)
      in case fetch_try h w1 of
           Inl (e, w2) \<Rightarrow> (CANCELLED, report ''ERROR'' ''Failed to fetch materials'' w2)
         | Inr (current_page, w2) \<Rightarrow>
              (FINISHED,
                  report ''INFO''
                    (''Found '' @ show_int (ambientcg_browser_total (scene w2)) @ '' materials'')
                    (w2\<lparr>scene := (scene w2)\<lparr>ambientcg_goto_page := max 1 current_page\<rparr>,
                              updating_page := False\<rparr>)))"
  by (simp add: fetch_browser_materials.simps on_page_change_guarded Let_def split: sum.splits prod.splits)


lemma download_preview_requests: "requests (snd (download_preview h url aid w)) = requests w"
  by (auto simp: download_preview_def get_cache_dir_def urlretrieve_def Let_def
      split: sum.splits prod.splits option.splits)

lemma download_previews_requests: "requests (download_previews h ps w) = requests w"
  by (induction h ps w rule: download_previews.induct) (simp_all add: download_preview_requests)

lemma fetch_try_Inr:
  "fetch_try h w = Inr (cp, w') \<Longrightarrow>
     cp = ambientcg_browser_offset (scene w) div 40 + 1 \<and>
     ambientcg_current_page (scene w') = cp \<and>
     ambientcg_browser_offset (scene w') = ambientcg_browser_offset (scene w) \<and>
     ambientcg_goto_page (scene w') = ambientcg_goto_page (scene w) \<and>
     ambientcg_total_pages (scene w') = max 1 ((ambientcg_browser_total (scene w') + 39) div 40) \<and>
     updating_page w' = updating_page w"
  unfolding fetch_try_def Let_def MATERIALS_PER_PAGE_def
  by (clarsimp split: option.splits sum.splits prod.splits
        simp: download_previews_scene download_previews_flag add.commute)

lemma fetch_try_Inl:
  "fetch_try h w = Inl (e, w') \<Longrightarrow>
     ambientcg_browser_offset (scene w') = ambientcg_browser_offset (scene w) \<and>
     ambientcg_goto_page (scene w') = ambientcg_goto_page (scene w)"
  unfolding fetch_try_def Let_def MATERIALS_PER_PAGE_def
  by (clarsimp split: option.splits sum.splits prod.splits
        simp: download_previews_scene download_previews_flag)

lemma fetch_try_requests:
  "requests (case fetch_try h w of Inl (e, w') \<Rightarrow> w' | Inr (cp, w') \<Rightarrow> w') =
     requests w @ [search_url (ambientcg_search_query (scene w)) (ambientcg_browser_offset (scene w))]"
  unfolding fetch_try_def Let_def MATERIALS_PER_PAGE_def
  by (clarsimp split: option.splits sum.splits prod.splits
        simp: download_previews_requests)

lemma neg_div_40: "- ((- t) div 40) = (t + 39) div (40::int)"
proof -
  define q where "q = (t + 39) div 40"
  define r where "r = (t + 39) mod 40"
  have r: "0 \<le> r" "r < 40" by (simp_all add: r_def)
  have "t + 39 = q * 40 + r" by (simp add: q_def r_def)
  then have "- t = (39 - r) + (- q) * 40" by simp
  then have "(- t) div 40 = ((39 - r) + (- q) * 40) div 40" by simp
  also have "\<dots> = - q + (39 - r) div 40" by (rule div_mult_self1) simp
  also have "(39 - r) div 40 = 0" using r by (intro div_pos_pos_trivial) simp_all
  finally show ?thesis by (simp add: q_def)
qed

lemma ceil40: "\<lceil>of_int t / (40::rat)\<rceil> = (t + 39) div 40"
proof -
  have "\<lceil>of_int t / (40::rat)\<rceil> = - \<lfloor>- (of_int t / (40 :: rat))\<rfloor>"
    by (simp add: ceiling_def)
  also have "- (of_int t / (40 :: rat)) = of_int (- t) / of_int 40" by simp
  also have "\<lfloor>of_int (- t) / (of_int 40::rat)\<rfloor> = (- t) div 40"
    by (rule floor_divide_of_int_eq)
  also have "- ((- t) div 40) = (t + 39) div 40" by (rule neg_div_40)
  finally show ?thesis .
qed


lemma add_assets_total:
  "\<forall>a \<in> set as. assetId a \<noteq> None \<Longrightarrow> \<exists>r. add_assets as items dl = Inr r"
  by (induction as arbitrary: items dl) (auto simp: Let_def)

lemma fetch_try_total:
  assumes "http_json h (search_url (ambientcg_search_query (scene w))
                          (ambientcg_browser_offset (scene w))) = Some data"
    and "\<forall>a \<in> set (case foundAssets data of None \<Rightarrow> [] | Some as \<Rightarrow> as). assetId a \<noteq> None"
  shows "\<exists>cp w'. fetch_try h w = Inr (cp, w')"
proof -
  from add_assets_total [OF assms(2)] obtain items dl where
    "add_assets (case foundAssets data of None \<Rightarrow> [] | Some as \<Rightarrow> as) [] [] = Inr (items, dl)"
    by fastforce
  with assms(1) show ?thesis
    unfolding fetch_try_def Let_def by simp
qed

lemma on_page_change_unfold:
  "\<not> updating_page w \<Longrightarrow>
   on_page_change h w =
     (snd (fetch_browser_materials h False
        (w\<lparr>updating_page := True,
           scene := (scene w)\<lparr>ambientcg_browser_offset :=
              (clamp_page (ambientcg_goto_page (scene w)) (ambientcg_total_pages (scene w)) - 1) * 40\<rparr>\<rparr>)))
     \<lparr>updating_page := False\<rparr>"
  by (simp add: on_page_change.simps Let_def clamp_page_def MATERIALS_PER_PAGE_def)

lemma fetch_offset:
  "ambientcg_browser_offset (scene (snd (fetch_browser_materials h False w))) =
     ambientcg_browser_offset (scene w)"
proof (cases "fetch_try h w")
  case (Inl a)
  then show ?thesis
    using fetch_try_Inl [of h w "fst a" "snd a"]
    by (auto simp: fetch_unfold report_def split: prod.splits)
next
  case (Inr b)
  then show ?thesis
    using fetch_try_Inr [of h w "fst b" "snd b"]
    by (auto simp: fetch_unfold report_def split: prod.splits)
qed

lemma fetch_requests:
  "requests (snd (fetch_browser_materials h r w)) =
     requests w @ [search_url (ambientcg_search_query (scene w))
                     (if r then 0 else ambientcg_browser_offset (scene w))]"
proof -
  have *: "\<And>w. requests (snd (case fetch_try h w of
              Inl (e, w2) \<Rightarrow> (CANCELLED, report ''ERROR'' ''Failed to fetch materials'' w2)
            | Inr (current_page, w2) \<Rightarrow>
              (FINISHED,
                  report ''INFO''
                    (''Found '' @ show_int (ambientcg_browser_total (scene w2)) @ '' materials'')
                    (w2\<lparr>scene := (scene w2)\<lparr>ambientcg_goto_page := max 1 current_page\<rparr>,
                              updating_page := False\<rparr>)))) =
       requests (case fetch_try h w of Inl (e, w') \<Rightarrow> w' | Inr (cp, w') \<Rightarrow> w')"
    by (simp split: sum.splits prod.splits add: report_def)
  show ?thesis
    unfolding fetch_unfold Let_def * fetch_try_requests by simp
qed

lemma fetch_success_page:
  assumes "fetch_try h w = Inr (cp, w2)"
  shows "ambientcg_goto_page (scene (snd (fetch_browser_materials h False w))) =
            max 1 (ambientcg_browser_offset (scene w) div 40 + 1)
       \<and> ambientcg_current_page (scene (snd (fetch_browser_materials h False w))) =
            ambientcg_browser_offset (scene w) div 40 + 1"
  using fetch_try_Inr [OF assms] assms
  unfolding fetch_unfold Let_def by (simp add: report_def)

lemma div40: "((c::int) - 1) * 40 div 40 + 1 = c"
  by simp

lemma example_json [simp]:
  "http_json example_host url = Some \<lparr>numberOfResults = Some 105, foundAssets = Some []\<rparr>"
  by (simp add: example_host_def)

lemma example_fetch_try:
  "fetch_try example_host w =
     Inr (ambientcg_browser_offset (scene w) div 40 + 1,
          w\<lparr>requests := requests w @ [search_url (ambientcg_search_query (scene w))
                                         (ambientcg_browser_offset (scene w))],
            scene := (scene w)\<lparr>ambientcg_browser_total := 105,
                                ambientcg_browser_materials := [],
                                ambientcg_current_page := ambientcg_browser_offset (scene w) div 40 + 1,
                                ambientcg_total_pages := 3\<rparr>\<rparr>)"
  by (simp add: fetch_try_def Let_def MATERIALS_PER_PAGE_def)

lemma fetch_try_total_pages:
  "1 \<le> ambientcg_total_pages (scene w) \<Longrightarrow>
     1 \<le> ambientcg_total_pages (scene (case fetch_try h w of Inl (e, w') \<Rightarrow> w' | Inr (cp, w') \<Rightarrow> w'))"
  unfolding fetch_try_def Let_def MATERIALS_PER_PAGE_def
  by (clarsimp split: option.splits sum.splits prod.splits
        simp: download_previews_scene)

lemma fetch_total_pages:
  assumes "1 \<le> ambientcg_total_pages (scene w)"
  shows "1 \<le> ambientcg_total_pages (scene (snd (fetch_browser_materials h r w)))"
proof -
  define w1 where
    "w1 = (if r then w\<lparr>scene := (scene w)\<lparr>ambientcg_browser_offset := 0,
                                           ambientcg_goto_page := 1\<rparr>,
                        updating_page := False\<rparr> else w)"
  have a: "1 \<le> ambientcg_total_pages (scene w1)" using assms by (simp add: w1_def)
  show ?thesis
  proof (cases "fetch_try h w1")
    case (Inl a)
    then show ?thesis
      using fetch_try_total_pages [OF a, of h]
      by (auto simp: fetch_unfold w1_def [symmetric] report_def split: prod.splits)
  next
    case (Inr b)
    then show ?thesis
      using fetch_try_total_pages [OF a, of h]
      by (auto simp: fetch_unfold w1_def [symmetric] report_def split: prod.splits)
  qed
qed

text \<open>
  Claim C1.  After every successful browser fetch the pagination state satisfies
  \<open>current_page = offset div 40 + 1\<close>; the page count is the ceiling of \<open>total / 40\<close>,
  computed by integer arithmetic and never less than 1, also for \<open>total = 0\<close>.
\<close>

theorem fetch_pagination_invariant:
  "fetch_browser_materials h r w = (FINISHED, w') \<Longrightarrow>
     ambientcg_current_page (scene w') = ambientcg_browser_offset (scene w') div 40 + 1 \<and>
     ambientcg_total_pages (scene w') =
         max 1 \<lceil>of_int (ambientcg_browser_total (scene w')) / (40::rat)\<rceil> \<and>
     1 \<le> ambientcg_total_pages (scene w')"
  unfolding fetch_unfold Let_def ceil40
  by (clarsimp split: sum.splits prod.splits if_splits dest!: fetch_try_Inr simp: report_def)

theorem fetch_pagination_invariant_witness:
  "fst (fetch_browser_materials example_host False example_world) = FINISHED
   \<and> ambientcg_browser_total (scene (snd (fetch_browser_materials example_host False example_world))) = 105
   \<and> ambientcg_current_page (scene (snd (fetch_browser_materials example_host False example_world))) = 1
   \<and> ambientcg_total_pages (scene (snd (fetch_browser_materials example_host False example_world))) = 3"
proof -
  let ?r = "fetch_browser_materials example_host False example_world"
  have fin: "fst ?r = FINISHED"
    by (simp add: fetch_unfold example_fetch_try)
  have tot: "ambientcg_browser_total (scene (snd ?r)) = 105"
    and off: "ambientcg_browser_offset (scene (snd ?r)) = 0"
    by (simp_all add: fetch_unfold example_fetch_try report_def example_world_def example_scene_def)
  have c: "\<lceil>21 / 8 :: rat\<rceil> = 3" by (rule ceiling_unique) simp_all
  have "?r = (FINISHED, snd ?r)" using fin by (simp add: prod_eq_iff)
  from fetch_pagination_invariant [OF this] fin tot off show ?thesis by (simp add: c)
qed

text \<open>
  Claim C2.  The page count is at least 1 wherever the add-on stores it (the property
  starts at 1 and the fetch operator writes \<open>max(1, ...)\<close>), and the handler and the
  fetch operator keep it so.  When no update is in flight, the handler clamps the request into
  \<open>[1, total_pages]\<close> (a request below 1 gives page 1, one above \<open>total_pages\<close> gives
  \<open>total_pages\<close>, one in range is kept), computes the offset \<open>(page - 1) * 40\<close> from the
  clamped page and fetches that offset; a fetch the catalogue answers leaves the page
  field and the current page at the clamped page.  With 105 results there are 3 pages,
  page 2 has offset 40 and a request for page 4 gives page 3 with offset 80.
\<close>

theorem on_page_change_clamps:
  assumes "\<not> updating_page w" and "1 \<le> ambientcg_total_pages (scene w)"
  shows "let page = ambientcg_goto_page (scene w);
             total_pages = ambientcg_total_pages (scene w);
             clamped = max 1 (min total_pages page);
             offset = (clamped - 1) * 40;
             url = search_url (ambientcg_search_query (scene w)) offset;
             w' = on_page_change h w
         in 1 \<le> clamped \<and> clamped \<le> total_pages
          \<and> (page < 1 \<longrightarrow> clamped = 1)
          \<and> (total_pages < page \<longrightarrow> clamped = total_pages)
          \<and> (1 \<le> page \<and> page \<le> total_pages \<longrightarrow> clamped = page)
          \<and> ambientcg_browser_offset (scene w') = offset
          \<and> requests w' = requests w @ [url]
          \<and> 1 \<le> ambientcg_total_pages (scene w')
          \<and> (\<forall>r. 1 \<le> ambientcg_total_pages (scene (snd (fetch_browser_materials h r w))))
          \<and> (\<forall>data. http_json h url = Some data
                 \<and> (\<forall>a \<in> set (case foundAssets data of None \<Rightarrow> [] | Some as \<Rightarrow> as).
                        assetId a \<noteq> None)
               \<longrightarrow> ambientcg_goto_page (scene w') = clamped
                 \<and> ambientcg_current_page (scene w') = clamped)"
proof -
  define page where "page = ambientcg_goto_page (scene w)"
  define total_pages where "total_pages = ambientcg_total_pages (scene w)"
  define clamped where "clamped = max 1 (min total_pages page)"
  define w2 where
    "w2 = w\<lparr>updating_page := True,
            scene := (scene w)\<lparr>ambientcg_browser_offset := (clamped - 1) * 40\<rparr>\<rparr>"
  have tp: "1 \<le> total_pages" using assms(2) by (simp add: total_pages_def)
  have cl: "clamp_page page total_pages = clamped"
    using tp by (auto simp: clamp_page_def clamped_def)
  have w': "on_page_change h w = (snd (fetch_browser_materials h False w2))\<lparr>updating_page := False\<rparr>"
    using on_page_change_unfold [OF assms(1), of h] cl
    by (simp add: w2_def page_def total_pages_def)
  have one: "1 \<le> clamped" by (simp add: clamped_def)
  have off: "ambientcg_browser_offset (scene (on_page_change h w)) = (clamped - 1) * 40"
    by (simp add: w' fetch_offset) (simp add: w2_def)
  have req: "requests (on_page_change h w) =
      requests w @ [search_url (ambientcg_search_query (scene w)) ((clamped - 1) * 40)]"
    by (simp add: w' fetch_requests) (simp add: w2_def)
  have "1 \<le> ambientcg_total_pages (scene w2)" using assms(2) by (simp add: w2_def)
  from fetch_total_pages [OF this, of h False]
  have inv: "1 \<le> ambientcg_total_pages (scene (on_page_change h w))" by (simp add: w')
  have inv': "\<forall>r. 1 \<le> ambientcg_total_pages (scene (snd (fetch_browser_materials h r w)))"
    using fetch_total_pages [OF assms(2)] by blast
  have succ: "ambientcg_goto_page (scene (on_page_change h w)) = clamped
       \<and> ambientcg_current_page (scene (on_page_change h w)) = clamped"
    if "http_json h (search_url (ambientcg_search_query (scene w)) ((clamped - 1) * 40)) = Some data"
      and "\<forall>a \<in> set (case foundAssets data of None \<Rightarrow> [] | Some as \<Rightarrow> as). assetId a \<noteq> None"
    for data
  proof -
    have "\<exists>cp w3. fetch_try h w2 = Inr (cp, w3)"
      by (rule fetch_try_total [where data = data]) (use that in \<open>simp_all add: w2_def\<close>)
    then obtain cp w3 where "fetch_try h w2 = Inr (cp, w3)" by blast
    from fetch_success_page [OF this] one show ?thesis
      by (simp add: w') (simp add: w2_def div40)
  qed
  have b1: "clamped \<le> total_pages" using tp by (simp add: clamped_def)
  have b2: "page < 1 \<longrightarrow> clamped = 1" by (simp add: clamped_def)
  have b3: "total_pages < page \<longrightarrow> clamped = total_pages" using tp by (simp add: clamped_def)
  have b4: "1 \<le> page \<and> page \<le> total_pages \<longrightarrow> clamped = page" by (simp add: clamped_def)
  show ?thesis
    unfolding Let_def
    using off req one b1 b2 b3 b4 succ inv inv'
    unfolding clamped_def page_def total_pages_def
    by blast
qed

theorem on_page_change_clamps_witness:
  "\<not> updating_page (requesting 4 3) \<and> 1 \<le> ambientcg_total_pages (scene (requesting 4 3))
   \<and> ambientcg_browser_offset (scene (on_page_change example_host (requesting 4 3))) = 80
   \<and> ambientcg_goto_page (scene (on_page_change example_host (requesting 4 3))) = 3
   \<and> ambientcg_browser_offset (scene (on_page_change example_host (requesting 2 3))) = 40
   \<and> ambientcg_goto_page (scene (on_page_change example_host (requesting 2 3))) = 2
   \<and> ambientcg_browser_offset (scene (on_page_change example_host (requesting 0 3))) = 0
   \<and> ambientcg_goto_page (scene (on_page_change example_host (requesting 0 3))) = 1"
proof -
  have u: "\<not> updating_page (requesting p t)" for p t
    by (simp add: requesting_def example_world_def)
  have s: "ambientcg_goto_page (scene (requesting p t)) = p"
    "ambientcg_total_pages (scene (requesting p t)) = t" for p t
    by (simp_all add: requesting_def example_world_def)
  have t: "1 \<le> ambientcg_total_pages (scene (requesting p 3))" for p
    by (simp add: s)
  show ?thesis
    using on_page_change_clamps [OF u [of 4 3] t, of example_host]
      on_page_change_clamps [OF u [of 2 3] t, of example_host]
      on_page_change_clamps [OF u [of 0 3] t, of example_host] u [of 4 3] t [of 4]
    by (simp add: Let_def s)
qed

text \<open>
  Claim C8.  While \<open>_updating_page\<close> is set the page-change handler returns the state as
  it is: offset, current page and page count keep their values and nothing is requested.
  The fetch operator assigns the page field only with the flag set, so one run of it
  opens exactly one search request.
\<close>

theorem page_change_guard:
  "(updating_page w \<longrightarrow> on_page_change h w = w)
   \<and> requests (snd (fetch_browser_materials h r w)) =
       requests w @ [search_url (ambientcg_search_query (scene w))
                       (if r then 0 else ambientcg_browser_offset (scene w))]"
  by (simp add: on_page_change_guarded fetch_requests)

theorem page_change_guard_witness:
  "updating_page (example_world\<lparr>updating_page := True\<rparr>)
   \<and> on_page_change example_host (example_world\<lparr>updating_page := True\<rparr>) =
       example_world\<lparr>updating_page := True\<rparr>"
  using page_change_guard [of "example_world\<lparr>updating_page := True\<rparr>" example_host False]
  by simp

section \<open>File system: proofs\<close>

lemma move_tree_Cons:
  "move_tree a b ((k', n) # ft) =
      (if prefix b k' then move_tree a b ft
       else (if prefix a k' then b @ drop (length a) k' else k', n) # move_tree a b ft)"
  by (simp add: move_tree_def)

lemma move_tree_lookup:
  assumes "\<not> prefix a b" and "\<forall>k' \<in> fst ` set ft. \<not> strict_prefix b k'"
  shows "map_of (move_tree a b ft) k =
           (if prefix b k then map_of ft (a @ drop (length b) k)
            else if prefix a k then None else map_of ft k)"
  using assms(2)
proof (induction ft)
  case Nil
  then show ?case by (simp add: move_tree_def)
next
  case (Cons e ft)
  obtain k' n where e: "e = (k', n)" by (cases e)
  from Cons.prems have nb: "\<not> strict_prefix b k'" and rest: "\<forall>k' \<in> fst ` set ft. \<not> strict_prefix b k'"
    by (simp_all add: e)
  note mt = move_tree_Cons
  note IH = Cons.IH [OF rest]
  show ?case
  proof (cases "prefix b k'")
    case True
    with nb have kb: "k' = b" by (auto simp: strict_prefix_def)
    have "a @ drop (length b) k \<noteq> b" using assms(1) by (metis prefixI)
    then show ?thesis using True kb IH by (auto simp: mt e)
  next
    case False
    show ?thesis
    proof (cases "prefix a k'")
      case True
      then obtain s' where s': "k' = a @ s'" by (auto simp: prefix_def)
      have eq: "k = b @ s' \<longleftrightarrow> k' = a @ drop (length b) k" if "prefix b k"
        using that s' by (auto simp: prefix_def)
      have ne: "k \<noteq> b @ s'" if "\<not> prefix b k" using that by auto
      have ne2: "k \<noteq> k'" if "\<not> prefix a k" using that True by auto
      show ?thesis using False True IH eq ne ne2
        by (auto simp: mt e s')
    next
      case na: False
      have "a @ drop (length b) k \<noteq> k'" using na by (metis prefixI)
      moreover have "k \<noteq> k'" if "prefix b k" using that False by auto
      moreover have "k \<noteq> k'" if "prefix a k" using that na by auto
      ultimately show ?thesis using False na IH by (auto simp: mt e)
    qed
  qed
qed

lemma has_children_iff:
  "has_children ft p \<longleftrightarrow> (\<exists>k \<in> fst ` set ft. strict_prefix p k)"
  by (auto simp: has_children_def list_ex_iff)

lemma fs_rename_lookup:
  assumes "fs_rename a b ft = Inr ft'"
  shows "map_of ft' k =
     (case map_of ft a of
        Some (File d) \<Rightarrow> (if k = b then Some (File d) else if k = a then None else map_of ft k)
      | _ \<Rightarrow> (if a = b then map_of ft k
              else if prefix b k then map_of ft (a @ drop (length b) k)
              else if prefix a k then None else map_of ft k))"
proof (cases "map_of ft a")
  case None
  with assms show ?thesis by (simp add: fs_rename_def split: if_splits)
next
  case (Some n)
  show ?thesis
  proof (cases n)
    case (File d)
    with Some assms have "ft' = AList.update b (File d) (AList.delete a ft)"
      by (simp add: fs_rename_def split: if_splits)
    then show ?thesis using Some File
      by (simp add: update_conv' delete_conv')
  next
    case Dir
    show ?thesis
    proof (cases "a = b")
      case True
      with Some Dir assms show ?thesis by (simp add: fs_rename_def split: if_splits)
    next
      case False
      with Some Dir assms have mv: "ft' = move_tree a b ft"
        and c: "\<not> has_children ft b" "\<not> prefix a b"
        by (auto simp: fs_rename_def split: if_splits option.splits node.splits)
      from c(1) have "\<forall>k' \<in> fst ` set ft. \<not> strict_prefix b k'"
        by (simp add: has_children_iff)
      from move_tree_lookup [OF c(2) this] show ?thesis
        using Some Dir False by (simp add: mv)
    qed
  qed
qed

lemma fs_rename_dst:
  assumes "fs_rename a b ft = Inr ft'"
  shows "map_of ft' b = map_of ft a"
  using fs_rename_lookup [OF assms, of b] assms
  by (auto simp: fs_rename_def split: option.splits node.splits if_splits)

lemma fs_rename_src:
  assumes "fs_rename a b ft = Inr ft'" and "a \<noteq> b"
  shows "map_of ft' a = None"
  using fs_rename_lookup [OF assms(1), of a] assms
  by (auto simp: fs_rename_def split: option.splits node.splits if_splits)

lemma fs_rename_frame:
  assumes "fs_rename a b ft = Inr ft'" and "\<not> prefix a k" and "\<not> prefix b k"
  shows "map_of ft' k = map_of ft k"
  using fs_rename_lookup [OF assms(1), of k] assms(2,3)
  by (auto split: option.splits node.splits)

lemma fs_rename_file_frame:
  assumes "fs_rename a b ft = Inr ft'" and "map_of ft a = Some (File d)" and "k \<noteq> a" and "k \<noteq> b"
  shows "map_of ft' k = map_of ft k"
  using fs_rename_lookup [OF assms(1), of k] assms(2-)
  by simp

lemma fs_rename_vanish:
  assumes "fs_rename a b ft = Inr ft'" and "map_of ft k \<noteq> None" and "map_of ft' k = None"
  shows "k = a \<or> (map_of ft a = Some Dir \<and> prefix a k)"
proof -
  have "map_of ft a \<noteq> None" using assms(1)
    by (auto simp: fs_rename_def split: if_splits option.splits)
  then obtain n where n: "map_of ft a = Some n" by auto
  show ?thesis
  proof (cases n)
    case (File d)
    then show ?thesis using fs_rename_lookup [OF assms(1), of k] n assms(2,3)
      by (auto split: if_splits)
  next
    case Dir
    show ?thesis
    proof (cases "a = b")
      case True
      then show ?thesis using fs_rename_lookup [OF assms(1), of k] n Dir assms(2,3) by simp
    next
      case False
      with n Dir assms(1) have c: "\<not> has_children ft b"
        by (auto simp: fs_rename_def split: if_splits option.splits node.splits)
      have "k = b" if "prefix b k"
      proof (rule ccontr)
        assume "k \<noteq> b"
        with that have "strict_prefix b k" by (auto simp: strict_prefix_def)
        moreover from assms(2) have "k \<in> fst ` set ft" by (simp add: map_of_eq_None_iff)
        ultimately show False using c by (auto simp: has_children_iff)
      qed
      then show ?thesis using fs_rename_lookup [OF assms(1), of k] n Dir assms(2,3) False
        by (auto split: if_splits)
    qed
  qed
qed

section \<open>Texture processing and marking: proofs\<close>

lemma with_unused_length: "p \<noteq> [] \<Longrightarrow> length (with_unused p) = length p"
  by (simp add: with_unused_def)

lemma with_unused_neq: "with_unused p \<noteq> p"
proof (cases "p = []")
  case True
  then show ?thesis by (simp add: with_unused_def)
next
  case False
  then have "p = butlast p @ [last p]" by simp
  then have "with_unused p = p \<Longrightarrow> last p @ ''.unused'' = last p"
    using False by (metis append1_eq_conv with_unused_def)
  then show ?thesis by auto
qed

lemma with_unused_not_Nil [simp]: "with_unused p \<noteq> []"
  by (simp add: with_unused_def)

lemma prefix_same_length: "prefix xs ys \<Longrightarrow> length xs = length ys \<Longrightarrow> xs = ys"
proof -
  assume "prefix xs ys" and l: "length xs = length ys"
  then obtain zs where "ys = xs @ zs" by (auto simp: prefix_def)
  with l show "xs = ys" by simp
qed

lemma with_unused_prefix:
  assumes "p \<noteq> []"
  shows "\<not> prefix (with_unused p) p" "\<not> prefix p (with_unused p)"
  using with_unused_length [OF assms] with_unused_neq [of p]
    prefix_same_length [of p "with_unused p"] prefix_same_length [of "with_unused p" p]
  by auto

lemma restore_unused_texture_fs:
  "restore_unused_texture p w = Inr (b, w') \<Longrightarrow> w' = w\<lparr>fs := fs w'\<rparr>"
  by (auto simp: restore_unused_texture_def Let_def split: if_splits sum.splits)

lemma restore_unused_texture_absent:
  "map_of (fs w) (with_unused p) = None \<Longrightarrow> restore_unused_texture p w = Inr (False, w)"
  by (simp add: restore_unused_texture_def fs_exists_def)

lemma restore_unused_texture_io:
  "restore_unused_texture p w = Inr (b, w') \<Longrightarrow>
     image_io w' = image_io w \<and> images w' = images w \<and> blend_filepath w' = blend_filepath w"
  by (auto simp: restore_unused_texture_def Let_def split: if_splits sum.splits)

lemma color_output:
  "output_path_of color_png [''cache'', ''Rock035_1K''] (3 / 4) ''Rock035''
      = [''cache'', ''Rock035_1K'', ''Rock035_Color_0.75.png'']"
  "output_path_of color_png [''cache'', ''Rock035_1K''] 1 ''Rock035''
      = [''cache'', ''Rock035_1K'', ''Rock035_Color_1.00.png'']"
  by (simp_all add: output_path_of_def texture_type_of_def stem_def pname_def Let_def fmt2f_def
       py_round_def digit_def pjoin_def Path_def parts_def normalize_def descend_def color_png_def)

lemma float_0_001_cmp: "\<bar>3 / 4 - 1 :: rat\<bar> > float_0_001" "\<not> \<bar>1 - 1 :: rat\<bar> > float_0_001"
  by (simp_all add: float_0_001_def)

lemma floor_15_4: "\<lfloor>15 / 4 :: rat\<rfloor> = 3"
  by (rule floor_unique) simp_all

lemma py_int_15_4: "py_int (15 / 4) = 3"
  by (simp add: py_int_def floor_15_4)

lemma py_round_15_4: "py_round (15 / 4) = 4"
  by (simp add: py_round_def floor_15_4 Let_def)

text \<open>
  Claim C3, as stated: a rescale targets \<open>round(dimension * scale)\<close>.  The code converts
  with \<open>int\<close>, which truncates: a 5 by 5 image at scale 0.75 (the product 3.75 is exact
  in binary floating point) is scaled and saved as 3 by 3, where rounding gives 4.
\<close>

theorem process_texture_truncates:
  "process_texture example_host color_png [''cache'', ''Rock035_1K''] (3 / 4) False ''Rock035''
     (texture_world 5 5) =
   Inr (''/cache/Rock035_1K/Rock035_Color_0.75.png'',
        (texture_world 5 5)
          \<lparr>fs := [([''cache''], Dir), ([''cache'', ''Rock035_1K''], Dir),
                   (color_png, File (Picture 5 5)),
                   ([''cache'', ''Rock035_1K'', ''Rock035_Color_0.75.png''], File (Picture 3 3))],
           image_io := [Loaded color_png 5 5, Scaled 3 3,
                        Saved [''cache'', ''Rock035_1K'', ''Rock035_Color_0.75.png''] 3 3]\<rparr>)
   \<and> py_round (of_int 5 * (3 / 4)) = 4"
  by (simp add: process_texture_def convert_texture_def restore_unused_texture_def color_output [unfolded color_png_def] float_0_001_def
      load_at_def image_scale_def image_save_def images_remove_def write_file_def
      get_texture_path_def pstr_def fs_exists_def is_dir_def with_unused_def
      texture_world_def example_world_def example_host_def color_png_def py_int_15_4 py_round_15_4
      Let_def)

lemma texture_world_processed:
  "process_texture example_host color_png [''cache'', ''Rock035_1K''] 1 False ''Rock035''
     (texture_world 1024 1024) =
   Inr (''/cache/Rock035_1K/Rock035_Color_1.00.png'', processed_world)"
  by (simp add: process_texture_def convert_texture_def restore_unused_texture_def
      color_output [unfolded color_png_def] float_0_001_def
      load_at_def image_scale_def image_save_def images_remove_def write_file_def
      get_texture_path_def pstr_def fs_exists_def is_dir_def with_unused_def processed_world_def
      texture_world_def example_world_def example_host_def color_png_def py_int_def
      Let_def)

text \<open>
  Claim C9.  When the custom folder option is off, the folder path is empty, or the folder
  does not exist, marking unused textures returns \<open>CANCELLED\<close> with one warning
  reported and everything else (files, images, scene) as it was.
\<close>

theorem mark_unused_unconfigured:
  assumes "\<not> ambientcg_use_custom_folder (scene w) \<or> ambientcg_custom_folder (scene w) = []
           \<or> \<not> fs_exists (fs w) (Path (ambientcg_custom_folder (scene w)))"
  shows "\<exists>msg. mark_unused_textures w =
           (CANCELLED, w\<lparr>reports := reports w @ [(''WARNING'', msg)]\<rparr>)"
  using assms by (auto simp: mark_unused_textures_def report_def Let_def)

theorem mark_unused_unconfigured_witness:
  "\<not> ambientcg_use_custom_folder (scene example_world)
   \<and> mark_unused_textures example_world =
       (CANCELLED, example_world\<lparr>reports := [(''WARNING'', ''Custom folder not configured'')]\<rparr>)"
proof -
  have h: "\<not> ambientcg_use_custom_folder (scene example_world)"
    by (simp add: example_world_def example_scene_def)
  then have "\<not> ambientcg_use_custom_folder (scene example_world)
       \<or> ambientcg_custom_folder (scene example_world) = []
       \<or> \<not> fs_exists (fs example_world) (Path (ambientcg_custom_folder (scene example_world)))"
    by simp
  from mark_unused_unconfigured [OF this] h show ?thesis
    by (simp add: mark_unused_textures_def report_def example_world_def)
qed

lemma split_on_not_Nil [simp]: "split_on c s \<noteq> []"
  by (induction s) (auto split: list.splits)

lemma split_on_no_sep: "c \<notin> set t \<Longrightarrow> split_on c t = [t]"
  by (induction t) auto

lemma split_on_append:
  "c \<notin> set t \<Longrightarrow> split_on c (s @ t) = butlast (split_on c s) @ [last (split_on c s) @ t]"
proof (induction s)
  case Nil
  then show ?case by (simp add: split_on_no_sep)
next
  case (Cons x s)
  obtain y ys where y: "split_on c s = y # ys" by (cases "split_on c s") auto
  show ?case
  proof (cases "x = c")
    case True
    then show ?thesis using Cons y by simp
  next
    case False
    then show ?thesis using Cons y by (cases ys) auto
  qed
qed

lemma descend_snoc: "c \<noteq> ''..'' \<Longrightarrow> descend p (xs @ [c]) = descend p xs @ [c]"
  by (simp add: descend_def)

lemma parts_append:
  assumes "CHR ''/'' \<notin> set t"
  shows "\<exists>xs l. parts s = xs @ filter (\<lambda>c. c \<noteq> [] \<and> c \<noteq> ''.'') [l]
           \<and> parts (s @ t) = xs @ filter (\<lambda>c. c \<noteq> [] \<and> c \<noteq> ''.'') [l @ t]"
proof -
  define sp where "sp = split_on CHR ''/'' s"
  have e: "split_on CHR ''/'' (s @ t) = butlast sp @ [last sp @ t]"
    unfolding sp_def by (rule split_on_append) (rule assms)
  have f: "split_on CHR ''/'' s = butlast sp @ [last sp]"
    by (simp add: sp_def)
  have "parts (s @ t) = filter (\<lambda>c. c \<noteq> [] \<and> c \<noteq> ''.'') (butlast sp)
          @ filter (\<lambda>c. c \<noteq> [] \<and> c \<noteq> ''.'') [last sp @ t]"
    unfolding parts_def e by (rule filter_append)
  moreover have "parts s = filter (\<lambda>c. c \<noteq> [] \<and> c \<noteq> ''.'') (butlast sp)
          @ filter (\<lambda>c. c \<noteq> [] \<and> c \<noteq> ''.'') [last sp]"
    unfolding parts_def f by (rule filter_append)
  ultimately show ?thesis by blast
qed

lemma parts_png: "\<exists>xs l. parts (s @ ''.png'') = xs @ [l @ ''.png'']"
proof -
  from parts_append [of "''.png''" s] obtain xs l where
    "parts (s @ ''.png'') = xs @ filter (\<lambda>c. c \<noteq> [] \<and> c \<noteq> ''.'') [l @ ''.png'']"
    by auto
  then show ?thesis by auto
qed

lemma pjoin_png: "\<exists>xs l. pjoin p (s @ ''.png'') = xs @ [l @ ''.png'']"
proof -
  obtain xs l where a: "parts (s @ ''.png'') = xs @ [l @ ''.png'']"
    using parts_png by blast
  have "l @ ''.png'' \<noteq> ''..''" by (cases l) auto
  then have "descend q (parts (s @ ''.png'')) = descend q xs @ [l @ ''.png'']" for q
    unfolding a by (rule descend_snoc)
  then show ?thesis by (simp add: pjoin_def Path_def normalize_def)
qed

lemma output_path_last:
  "\<exists>xs l. output_path_of source_path output_folder m name = xs @ [l @ ''.png'']"
proof -
  define s where "s = name @ ''_'' @ texture_type_of source_path @ ''_'' @ fmt2f m"
  have o: "output_path_of source_path output_folder m name = pjoin output_folder (s @ ''.png'')"
    unfolding output_path_of_def Let_def s_def by (simp only: append_assoc)
  show ?thesis unfolding o by (rule pjoin_png)
qed

lemma with_unused_last: "\<exists>xs l. with_unused q = xs @ [l @ ''.unused'']"
  by (cases "q = []") (auto simp: with_unused_def intro: exI [of _ "[]"])

lemma output_path_not_unused:
  "output_path_of source_path output_folder m name \<noteq> with_unused q"
proof
  assume eq: "output_path_of source_path output_folder m name = with_unused q"
  obtain xs l where a: "output_path_of source_path output_folder m name = xs @ [l @ ''.png'']"
    using output_path_last by blast
  obtain ys k where b: "with_unused q = ys @ [k @ ''.unused'']"
    using with_unused_last by blast
  from eq a b have "l @ ''.png'' = k @ ''.unused''" by simp
  then have "last (l @ ''.png'') = last (k @ ''.unused'')" by simp
  then show False by simp
qed

lemma output_path_not_Nil: "output_path_of source_path output_folder m name \<noteq> []"
  using output_path_last [of source_path output_folder m name] by auto

lemma get_texture_path_cong:
  "blend_filepath w' = blend_filepath w \<Longrightarrow> get_texture_path w' p rel = get_texture_path w p rel"
  by (simp add: get_texture_path_def relpath_def Let_def)

lemma restore_unused_texture_cases:
  assumes "restore_unused_texture p w = Inr (b, w')"
  shows "(w' = w \<and> map_of (fs w) (with_unused p) = None)
       \<or> (\<exists>ft. fs_rename (with_unused p) p (fs w) = Inr ft \<and> w' = w\<lparr>fs := ft\<rparr>
              \<and> map_of (fs w) (with_unused p) \<noteq> None)"
  using assms
  by (auto simp: restore_unused_texture_def Let_def fs_exists_def split: if_splits sum.splits)

lemma restore_unused_texture_post:
  assumes "restore_unused_texture p w = Inr (b, w')"
  shows "map_of (fs w') (with_unused p) = None"
  using restore_unused_texture_cases [OF assms] fs_rename_src [of "with_unused p" p "fs w"]
    with_unused_neq [of p]
  by auto

lemma images_remove_last:
  "images w4 = xs @ [img] \<Longrightarrow> images_remove (length xs) w4 = w4\<lparr>images := xs\<rparr>"
  by (simp add: images_remove_def)

lemma convert_texture_Inr:
  assumes "convert_texture h source_path out m rel w2 = Inr (p, w')"
  shows "\<exists>x y ft ev. map_of (fs w2) source_path = Some (File (Picture x y))
           \<and> w' = w2\<lparr>fs := ft, image_io := image_io w2 @ Loaded source_path x y # ev\<rparr>
           \<and> map_of ft out \<noteq> None
           \<and> (\<forall>k. k \<noteq> out \<longrightarrow> map_of ft k = map_of (fs w2) k)
           \<and> p = get_texture_path w2 out rel"
proof -
  from assms obtain x y where src: "map_of (fs w2) source_path = Some (File (Picture x y))"
    by (auto simp: convert_texture_def load_at_def
        split: option.splits node.splits filedata.splits)
  define img where "img = \<lparr>filepath = pstr source_path, size_x = x, size_y = y, colorspace = ''sRGB''\<rparr>"
  define w3 where "w3 = w2\<lparr>images := images w2 @ [img],
                          image_io := image_io w2 @ [Loaded source_path x y]\<rparr>"
  have ld: "load_at source_path (pstr source_path) w2 = Inr (img, w3)"
    by (simp add: load_at_def src img_def w3_def Let_def)
  obtain img' w3' where sc: "(if \<bar>fround h (m - 1)\<bar> > float_0_001
                  then image_scale (py_int (fround h (of_int (size_x img) * m)))
                         (py_int (fround h (of_int (size_y img) * m))) img w3
                  else (img, w3)) = (img', w3')"
    by (cases "(if \<bar>fround h (m - 1)\<bar> > float_0_001
                  then image_scale (py_int (fround h (of_int (size_x img) * m)))
                         (py_int (fround h (of_int (size_y img) * m))) img w3
                  else (img, w3))") blast
  then obtain ev where w3': "w3' = w3\<lparr>image_io := image_io w3 @ ev\<rparr>"
    by (auto simp: image_scale_def split: if_splits intro: that [of "[]"])
  from assms ld sc obtain w4 where
    sv: "image_save out (img'\<lparr>filepath := pstr out\<rparr>) w3' = Inr ((), w4)"
    and res: "w' = images_remove (length (images w2)) w4"
      "p = get_texture_path (images_remove (length (images w2)) w4) out rel"
    by (auto simp: convert_texture_def Let_def split: sum.splits prod.splits)
  from sv obtain ft where ft: "write_file out (Picture (size_x img') (size_y img')) (fs w3') = Inr ft"
    and w4: "w4 = w3'\<lparr>fs := ft, image_io := image_io w3' @ [Saved out (size_x img') (size_y img')]\<rparr>"
    by (auto simp: image_save_def split: sum.splits)
  have im: "images w4 = images w2 @ [img]" by (simp add: w4 w3' w3_def)
  have w': "w' = w4\<lparr>images := images w2\<rparr>"
    using res(1) images_remove_last [OF im] by simp
  have fl: "map_of ft out \<noteq> None" "\<forall>k. k \<noteq> out \<longrightarrow> map_of ft k = map_of (fs w2) k"
    using ft by (auto simp: write_file_def update_conv' w3' w3_def split: if_splits)
  have "w' = w2\<lparr>fs := ft, image_io := image_io w2 @ Loaded source_path x y #
                (ev @ [Saved out (size_x img') (size_y img')])\<rparr>"
    by (simp add: w' w4 w3' w3_def)
  moreover have "p = get_texture_path w2 out rel"
    unfolding res(2) by (rule get_texture_path_cong) (simp add: images_remove_def w4 w3' w3_def)
  ultimately show ?thesis using src fl by blast
qed


lemma process_texture_Inr:
  assumes "process_texture h source_path output_folder m rel name w = Inr (p, w1)"
  defines "out \<equiv> output_path_of source_path output_folder m name"
  shows "\<exists>b1 wa b2 wb.
           restore_unused_texture source_path w = Inr (b1, wa)
         \<and> restore_unused_texture out wa = Inr (b2, wb)
         \<and> ((fs_exists (fs wb) out \<and> w1 = wb \<and> p = get_texture_path wb out rel)
            \<or> (\<not> fs_exists (fs wb) out \<and> convert_texture h source_path out m rel wb = Inr (p, w1)))"
  using assms(1) unfolding process_texture_def out_def [symmetric] Let_def
  by (auto split: sum.splits prod.splits if_splits)

lemma process_texture_post:
  assumes "process_texture h source_path output_folder m rel name w = Inr (p, w1)"
  defines "out \<equiv> output_path_of source_path output_folder m name"
  shows "map_of (fs w1) out \<noteq> None"
    and "map_of (fs w1) (with_unused out) = None"
    and "p = get_texture_path w out rel"
    and "blend_filepath w1 = blend_filepath w"
proof -
  from process_texture_Inr [OF assms(1)] obtain b1 wa b2 wb where
    ra: "restore_unused_texture source_path w = Inr (b1, wa)" and
    rb: "restore_unused_texture out wa = Inr (b2, wb)" and
    alt: "(fs_exists (fs wb) out \<and> w1 = wb \<and> p = get_texture_path wb out rel)
            \<or> (\<not> fs_exists (fs wb) out \<and> convert_texture h source_path out m rel wb = Inr (p, w1))"
    unfolding out_def by blast
  note ia = restore_unused_texture_io [OF ra] and ib = restore_unused_texture_io [OF rb]
  have one: "out \<noteq> []" by (simp add: out_def output_path_not_Nil)
  have ub: "map_of (fs wb) (with_unused out) = None"
    by (rule restore_unused_texture_post [OF rb])
  have bf: "blend_filepath wb = blend_filepath w" using ia ib by simp
  from alt have "map_of (fs w1) out \<noteq> None \<and> map_of (fs w1) (with_unused out) = None
      \<and> p = get_texture_path w out rel \<and> blend_filepath w1 = blend_filepath w"
  proof
    assume "fs_exists (fs wb) out \<and> w1 = wb \<and> p = get_texture_path wb out rel"
    then show ?thesis using one ub bf get_texture_path_cong [OF bf]
      by (simp add: fs_exists_def)
  next
    assume "\<not> fs_exists (fs wb) out \<and> convert_texture h source_path out m rel wb = Inr (p, w1)"
    then have "convert_texture h source_path out m rel wb = Inr (p, w1)" by simp
    from convert_texture_Inr [OF this] obtain x y ft ev where
      c: "w1 = wb\<lparr>fs := ft, image_io := image_io wb @ Loaded source_path x y # ev\<rparr>"
        "map_of ft out \<noteq> None" "\<forall>k. k \<noteq> out \<longrightarrow> map_of ft k = map_of (fs wb) k"
        "p = get_texture_path wb out rel"
      by blast
    show ?thesis using c ub bf with_unused_neq [of out] get_texture_path_cong [OF bf]
      by simp
  qed
  then show "map_of (fs w1) out \<noteq> None" "map_of (fs w1) (with_unused out) = None"
    "p = get_texture_path w out rel" "blend_filepath w1 = blend_filepath w"
    by simp_all
qed

lemma output_ready_fresh:
  assumes "map_of (fs w) out = None" and "map_of (fs w) (with_unused out) = None"
    and "map_of (fs w) (with_unused source_path) = None" and "out \<noteq> []"
  shows "\<not> output_ready source_path out w"
  using assms
  by (simp add: output_ready_def restore_unused_texture_absent fs_exists_def)

lemma floor_6375_64: "\<lfloor>6375 / 64 :: rat\<rfloor> = 99"
  by (rule floor_unique) simp_all

lemma fmt2f_255_256: "fmt2f (255 / 256) = ''1.00''"
  by (simp add: fmt2f_def py_round_def floor_6375_64 Let_def digit_def)

lemma rescaled_output:
  "output_path_of color_png [''cache'', ''Rock035_1K''] (255 / 256) ''Rock035''
      = [''cache'', ''Rock035_1K'', ''Rock035_Color_1.00.png'']"
  by (simp add: output_path_of_def texture_type_of_def stem_def pname_def Let_def fmt2f_255_256
       pjoin_def Path_def parts_def normalize_def descend_def color_png_def)

lemma texture_world_rescaled:
  "process_texture example_host color_png [''cache'', ''Rock035_1K''] (255 / 256) False ''Rock035''
     (texture_world 1024 1024) =
   Inr (''/cache/Rock035_1K/Rock035_Color_1.00.png'', rescaled_world)"
  by (simp add: process_texture_def convert_texture_def restore_unused_texture_def
      rescaled_output [unfolded color_png_def] float_0_001_def
      load_at_def image_scale_def image_save_def images_remove_def write_file_def
      get_texture_path_def pstr_def fs_exists_def is_dir_def with_unused_def rescaled_world_def
      texture_world_def example_world_def example_host_def color_png_def py_int_def
      Let_def)

lemma rescaled_world_reused:
  "process_texture example_host color_png [''cache'', ''Rock035_1K''] 1 False ''Rock035''
     rescaled_world =
   Inr (''/cache/Rock035_1K/Rock035_Color_1.00.png'', rescaled_world)"
  by (simp add: process_texture_def restore_unused_texture_def
      color_output [unfolded color_png_def]
      get_texture_path_def pstr_def fs_exists_def with_unused_def rescaled_world_def
      texture_world_def example_world_def color_png_def Let_def)

text \<open>
  Claim C3, amended.  A call of texture processing that returns gives the path of the
  output file.  When that file is there once the source and the output have been
  restored from their \<open>.unused\<close> names, the call returns it as it is: it loads,
  scales and saves no image, whatever the size of the file (its name carries the scale
  with two decimals only, so the file written at scale 255/256 is the one returned at
  scale 1.0).  Otherwise, as is the case when neither the output nor a \<open>.unused\<close>
  sibling of the output or of the source exists, it loads the source, of some size
  \<open>x\<close> by \<open>y\<close>, and then: when the scale differs from 1.0 by more than 0.001 it scales
  to \<open>int(x * scale)\<close> by \<open>int(y * scale)\<close> (truncated towards zero) and saves the
  output with that size; when it does not, it does not scale and saves the output with
  the size of the source.
\<close>

theorem process_texture_dimensions:
  assumes "process_texture h source_path output_folder m rel name w = Inr (p, w')"
  shows "let out = output_path_of source_path output_folder m name;
             rescale = (\<bar>fround h (m - 1)\<bar> > float_0_001)
         in p = get_texture_path w' out rel
          \<and> (output_ready source_path out w \<longrightarrow>
               (\<exists>r1 w1 r2. restore_unused_texture source_path w = Inr (r1, w1)
                  \<and> restore_unused_texture out w1 = Inr (r2, w'))
               \<and> image_io w' = image_io w \<and> images w' = images w)
          \<and> (\<not> output_ready source_path out w \<longrightarrow>
               (\<exists>x y. map_of (fs w') source_path = Some (File (Picture x y))
                  \<and> image_io w' =
                      image_io w @ Loaded source_path x y #
                        (if rescale
                         then [Scaled (py_int (fround h (of_int x * m)))
                                 (py_int (fround h (of_int y * m))),
                               Saved out (py_int (fround h (of_int x * m)))
                                 (py_int (fround h (of_int y * m)))]
                         else [Saved out x y])
                  \<and> map_of (fs w') out =
                      Some (File (if rescale
                                  then Picture (py_int (fround h (of_int x * m)))
                                         (py_int (fround h (of_int y * m)))
                                  else Picture x y))))
          \<and> (map_of (fs w) out = None \<and> map_of (fs w) (with_unused out) = None
               \<and> map_of (fs w) (with_unused source_path) = None
              \<longrightarrow> \<not> output_ready source_path out w)"
proof -
  define out where "out = output_path_of source_path output_folder m name"
  from process_texture_Inr [OF assms] obtain b1 wa b2 wb where
    ra: "restore_unused_texture source_path w = Inr (b1, wa)" and
    rb: "restore_unused_texture out wa = Inr (b2, wb)" and
    alt: "(fs_exists (fs wb) out \<and> w' = wb \<and> p = get_texture_path wb out rel)
            \<or> (\<not> fs_exists (fs wb) out \<and> convert_texture h source_path out m rel wb = Inr (p, w'))"
    unfolding out_def by blast
  note ia = restore_unused_texture_io [OF ra] and ib = restore_unused_texture_io [OF rb]
  have rdy: "output_ready source_path out w \<longleftrightarrow> fs_exists (fs wb) out"
    by (simp add: output_ready_def ra rb)
  have one: "out \<noteq> []" by (simp add: out_def output_path_not_Nil)
  have g1: "(\<exists>r1 w1 r2. restore_unused_texture source_path w = Inr (r1, w1)
                  \<and> restore_unused_texture out w1 = Inr (r2, w'))
            \<and> image_io w' = image_io w \<and> images w' = images w"
    if "output_ready source_path out w"
    using that alt ia ib rdy ra rb by auto
  have g0: "p = get_texture_path w' out rel"
    using process_texture_post(3,4) [OF assms] get_texture_path_cong [of w' w out rel]
    by (simp add: out_def)
  have g2: "\<exists>x y. map_of (fs w') source_path = Some (File (Picture x y))
       \<and> image_io w' =
           image_io w @ Loaded source_path x y #
             (if \<bar>fround h (m - 1)\<bar> > float_0_001
              then [Scaled (py_int (fround h (of_int x * m))) (py_int (fround h (of_int y * m))),
                    Saved out (py_int (fround h (of_int x * m))) (py_int (fround h (of_int y * m)))]
              else [Saved out x y])
       \<and> map_of (fs w') out =
           Some (File (if \<bar>fround h (m - 1)\<bar> > float_0_001
                       then Picture (py_int (fround h (of_int x * m)))
                              (py_int (fround h (of_int y * m)))
                       else Picture x y))"
    if "\<not> output_ready source_path out w"
  proof -
    from that rdy alt have ne: "\<not> fs_exists (fs wb) out"
      and cv: "convert_texture h source_path out m rel wb = Inr (p, w')" by auto
    from cv obtain x y where src: "map_of (fs wb) source_path = Some (File (Picture x y))"
      by (auto simp: convert_texture_def load_at_def
          split: option.splits node.splits filedata.splits)
    have so: "source_path \<noteq> out" using src ne by (auto simp: fs_exists_def)
    show ?thesis
      using cv src so ia ib
      unfolding convert_texture_def Let_def
      by (auto simp: load_at_def image_scale_def image_save_def images_remove_def Let_def
            write_file_def update_conv'
          split: sum.splits prod.splits if_splits)
  qed
  have g3: "\<not> output_ready source_path out w"
    if "map_of (fs w) out = None \<and> map_of (fs w) (with_unused out) = None
               \<and> map_of (fs w) (with_unused source_path) = None"
    using that one by (simp add: output_ready_fresh)
  show ?thesis
    unfolding Let_def out_def [symmetric] using g0 g1 g2 g3 by blast
qed

theorem process_texture_dimensions_witness:
  "process_texture example_host color_png [''cache'', ''Rock035_1K''] 1 False ''Rock035''
     (texture_world 1024 1024) =
     Inr (''/cache/Rock035_1K/Rock035_Color_1.00.png'', processed_world)
   \<and> \<not> output_ready color_png [''cache'', ''Rock035_1K'', ''Rock035_Color_1.00.png'']
         (texture_world 1024 1024)
   \<and> map_of (fs processed_world) color_png = Some (File (Picture 1024 1024))
   \<and> map_of (fs processed_world) [''cache'', ''Rock035_1K'', ''Rock035_Color_1.00.png'']
       = Some (File (Picture 1024 1024))
   \<and> image_io processed_world =
       [Loaded color_png 1024 1024,
        Saved [''cache'', ''Rock035_1K'', ''Rock035_Color_1.00.png''] 1024 1024]
   \<and> process_texture example_host color_png [''cache'', ''Rock035_1K''] 1 False ''Rock035''
       rescaled_world =
     Inr (''/cache/Rock035_1K/Rock035_Color_1.00.png'', rescaled_world)
   \<and> output_ready color_png [''cache'', ''Rock035_1K'', ''Rock035_Color_1.00.png'']
       rescaled_world
   \<and> map_of (fs rescaled_world) [''cache'', ''Rock035_1K'', ''Rock035_Color_1.00.png'']
       = Some (File (Picture 1020 1020))"
proof -
  let ?out = "[''cache'', ''Rock035_1K'', ''Rock035_Color_1.00.png'']"
  have f: "map_of (fs (texture_world 1024 1024)) ?out = None
         \<and> map_of (fs (texture_world 1024 1024)) (with_unused ?out) = None
         \<and> map_of (fs (texture_world 1024 1024)) (with_unused color_png) = None"
    by (simp add: texture_world_def example_world_def with_unused_def color_png_def)
  have r: "output_ready color_png ?out rescaled_world"
    by (simp add: output_ready_def restore_unused_texture_def with_unused_def fs_exists_def
        rescaled_world_def color_png_def Let_def)
  have v: "map_of (fs rescaled_world) ?out = Some (File (Picture 1020 1020))"
    by (simp add: rescaled_world_def color_png_def)
  have a: "\<bar>fround example_host (1 - 1)\<bar> > float_0_001 \<longleftrightarrow> False"
    by (simp add: example_host_def float_0_001_def)
  from process_texture_dimensions [OF texture_world_processed] f
  have "\<not> output_ready color_png ?out (texture_world 1024 1024)
      \<and> (\<exists>x y. map_of (fs processed_world) color_png = Some (File (Picture x y))
           \<and> image_io processed_world =
                image_io (texture_world 1024 1024) @ [Loaded color_png x y, Saved ?out x y]
           \<and> map_of (fs processed_world) ?out = Some (File (Picture x y)))"
    unfolding Let_def color_output a by auto
  moreover have "map_of (fs processed_world) color_png = Some (File (Picture 1024 1024))"
    "image_io (texture_world 1024 1024) = []"
    by (simp_all add: processed_world_def texture_world_def example_world_def color_png_def)
  ultimately have one: "\<not> output_ready color_png ?out (texture_world 1024 1024)
      \<and> map_of (fs processed_world) color_png = Some (File (Picture 1024 1024))
      \<and> image_io processed_world = [Loaded color_png 1024 1024, Saved ?out 1024 1024]
      \<and> map_of (fs processed_world) ?out = Some (File (Picture 1024 1024))"
    by auto
  from process_texture_dimensions [OF rescaled_world_reused] r
  have "image_io rescaled_world = image_io rescaled_world"
    unfolding Let_def color_output by blast
  with one r v texture_world_processed rescaled_world_reused show ?thesis by blast
qed

text \<open>
  Claim C5.  After a call of texture processing has returned, a second call with the same
  arguments that returns gives the same output path and neither loads an image nor
  scales or saves one: the output file is there and is returned as it is.  When no
  \<open>.unused\<close> sibling of the source is left to restore, the second call does return, and
  it leaves the whole state unchanged.
\<close>

theorem process_texture_idempotent:
  assumes "process_texture h source_path output_folder m rel name w = Inr (p, w1)"
  shows "(\<forall>p' w2. process_texture h source_path output_folder m rel name w1 = Inr (p', w2)
            \<longrightarrow> p' = p \<and> image_io w2 = image_io w1 \<and> images w2 = images w1)
       \<and> (map_of (fs w1) (with_unused source_path) = None
            \<longrightarrow> process_texture h source_path output_folder m rel name w1 = Inr (p, w1))"
proof (intro conjI allI impI)
  define out where "out = output_path_of source_path output_folder m name"
  note post = process_texture_post [OF assms, folded out_def]
  have pw1: "p = get_texture_path w1 out rel"
    using post(3) get_texture_path_cong [OF post(4)] by simp
  {
    assume "map_of (fs w1) (with_unused source_path) = None"
    then have a: "restore_unused_texture source_path w1 = Inr (False, w1)"
      by (rule restore_unused_texture_absent)
    have b: "restore_unused_texture out w1 = Inr (False, w1)"
      using post(2) by (rule restore_unused_texture_absent)
    show "process_texture h source_path output_folder m rel name w1 = Inr (p, w1)"
      using a b post(1) pw1
      by (simp add: process_texture_def out_def [symmetric] fs_exists_def)
  }
  fix p' w2
  assume second: "process_texture h source_path output_folder m rel name w1 = Inr (p', w2)"
  from process_texture_Inr [OF second] obtain b1 wa b2 wb where
    ra: "restore_unused_texture source_path w1 = Inr (b1, wa)" and
    rb: "restore_unused_texture out wa = Inr (b2, wb)" and
    alt: "(fs_exists (fs wb) out \<and> w2 = wb \<and> p' = get_texture_path wb out rel)
            \<or> (\<not> fs_exists (fs wb) out \<and> convert_texture h source_path out m rel wb = Inr (p', w2))"
    unfolding out_def by blast
  note ia = restore_unused_texture_io [OF ra] and ib = restore_unused_texture_io [OF rb]
  have cached: "fs_exists (fs wb) out"
  proof (rule ccontr)
    assume ne: "\<not> fs_exists (fs wb) out"
    then have nb: "map_of (fs wb) out = None" by (simp add: fs_exists_def)
    from ne alt have "convert_texture h source_path out m rel wb = Inr (p', w2)" by simp
    from convert_texture_Inr [OF this] obtain x y where
      src: "map_of (fs wb) source_path = Some (File (Picture x y))" by blast
    have wba: "wb = wa \<and> map_of (fs wa) (with_unused out) = None"
      using restore_unused_texture_cases [OF rb] fs_rename_dst [of "with_unused out" out "fs wa"] nb
      by auto
    then have na: "map_of (fs wa) out = None" using nb by simp
    from restore_unused_texture_cases [OF ra] post(1) na obtain ft where
      rn: "fs_rename (with_unused source_path) source_path (fs w1) = Inr ft" and wa: "wa = w1\<lparr>fs := ft\<rparr>"
      by auto
    from fs_rename_vanish [OF rn post(1)] na wa
    have "out = with_unused source_path
        \<or> (map_of (fs w1) (with_unused source_path) = Some Dir \<and> prefix (with_unused source_path) out)"
      by simp
    then have "map_of (fs w1) (with_unused source_path) = Some Dir"
      using output_path_not_unused [of source_path output_folder m name source_path]
      by (auto simp: out_def)
    then have "map_of (fs wb) source_path = Some Dir"
      using fs_rename_dst [OF rn] wba wa by simp
    with src show False by simp
  qed
  with alt have w2: "w2 = wb" and p': "p' = get_texture_path wb out rel" by auto
  have "blend_filepath wb = blend_filepath w1" using ia ib by simp
  from get_texture_path_cong [OF this] p' pw1 have "p' = p" by simp
  then show "p' = p" "image_io w2 = image_io w1" "images w2 = images w1"
    using w2 ia ib by simp_all
qed

theorem process_texture_idempotent_witness:
  "process_texture example_host color_png [''cache'', ''Rock035_1K''] 1 False ''Rock035''
     (texture_world 1024 1024) =
     Inr (''/cache/Rock035_1K/Rock035_Color_1.00.png'', processed_world)
   \<and> map_of (fs processed_world) (with_unused color_png) = None
   \<and> process_texture example_host color_png [''cache'', ''Rock035_1K''] 1 False ''Rock035''
       processed_world =
     Inr (''/cache/Rock035_1K/Rock035_Color_1.00.png'', processed_world)"
proof -
  have a: "map_of (fs processed_world) (with_unused color_png) = None"
    by (simp add: processed_world_def with_unused_def color_png_def)
  from process_texture_idempotent [OF texture_world_processed] a texture_world_processed
  show ?thesis by blast
qed

section \<open>Marking unused textures: proofs\<close>

lemma with_unused_inj: "p \<noteq> [] \<Longrightarrow> q \<noteq> [] \<Longrightarrow> with_unused p = with_unused q \<Longrightarrow> p = q"
proof -
  assume a: "p \<noteq> []" "q \<noteq> []" and e: "with_unused p = with_unused q"
  then have "butlast p = butlast q \<and> last p = last q" by (simp add: with_unused_def)
  then show "p = q" using a by (metis append_butlast_last_id)
qed

lemma is_png_last: "is_png p \<Longrightarrow> \<exists>xs l. p = xs @ [l @ ''.png'']"
proof -
  assume "is_png p"
  then have p: "p \<noteq> []" and "suffix ''.png'' (last p)" by (simp_all add: is_png_def endswith_def)
  then obtain l where "last p = l @ ''.png''" by (auto simp: suffix_def)
  with p have "p = butlast p @ [l @ ''.png'']" by (metis append_butlast_last_id)
  then show ?thesis by blast
qed

lemma is_png_not_unused: "is_png q \<Longrightarrow> q \<noteq> with_unused p"
proof
  assume "is_png q" and eq: "q = with_unused p"
  then obtain xs l where a: "q = xs @ [l @ ''.png'']" using is_png_last by blast
  obtain ys k where b: "with_unused p = ys @ [k @ ''.unused'']"
    using with_unused_last by blast
  from eq a b have "l @ ''.png'' = k @ ''.unused''" by simp
  then have "last (l @ ''.png'') = last (k @ ''.unused'')" by simp
  then show False by simp
qed

lemma is_png_pname: "is_png p \<Longrightarrow> \<not> endswith (pname p) ''.unused''"
proof
  assume "is_png p" and e: "endswith (pname p) ''.unused''"
  then obtain xs l where a: "p = xs @ [l @ ''.png'']" using is_png_last by blast
  then have "pname p = l @ ''.png''" by (simp add: pname_def)
  with e obtain k where "l @ ''.png'' = k @ ''.unused''"
    by (auto simp: endswith_def suffix_def)
  then have "last (l @ ''.png'') = last (k @ ''.unused'')" by simp
  then show False by simp
qed

lemma rename_file_ok:
  assumes "map_of ft p = Some (File d)" "p \<noteq> []"
  shows "fs_rename p (with_unused p) ft =
          (if map_of ft (with_unused p) = Some Dir then Inl IsADirectoryError
           else Inr (AList.update (with_unused p) (File d) (AList.delete p ft)))"
  using assms by (simp add: fs_rename_def)

lemma mark_loop_spec:
  assumes "distinct ps" and "\<forall>p \<in> set ps. is_png p \<and> (\<exists>d. map_of (fs w) p = Some (File d))"
  shows "\<exists>w'. mark_loop ps loaded c w = (c + int (length (marked_of ps loaded (fs w))), w')
           \<and> (\<forall>p \<in> set (marked_of ps loaded (fs w)).
                 map_of (fs w') p = None \<and> map_of (fs w') (with_unused p) = map_of (fs w) p)
           \<and> (\<forall>k. k \<notin> set (marked_of ps loaded (fs w))
                    \<and> k \<notin> with_unused ` set (marked_of ps loaded (fs w))
                 \<longrightarrow> map_of (fs w') k = map_of (fs w) k)
           \<and> scene w' = scene w \<and> images w' = images w \<and> reports w' = reports w"
  using assms
proof (induction ps arbitrary: c w)
  case Nil
  then show ?case by (simp add: marked_of_def)
next
  case (Cons p ps)
  from Cons.prems have png: "is_png p" and dist: "distinct ps" "p \<notin> set ps"
    and rest: "\<forall>q \<in> set ps. is_png q \<and> (\<exists>d. map_of (fs w) q = Some (File d))"
    by auto
  from Cons.prems obtain d where d: "map_of (fs w) p = Some (File d)" by auto
  have pne: "p \<noteq> []" using png by (simp add: is_png_def)
  note nu = is_png_pname [OF png]
  show ?case
  proof (cases "resolve p \<notin> set loaded \<and> map_of (fs w) (with_unused p) \<noteq> Some Dir")
    case False
    then have m: "marked_of (p # ps) loaded (fs w) = marked_of ps loaded (fs w)"
      by (auto simp: marked_of_def)
    show ?thesis
    proof (cases "resolve p \<in> set loaded")
      case True
      then have "mark_loop (p # ps) loaded c w = mark_loop ps loaded c w"
        using nu by simp
      then show ?thesis using Cons.IH [OF dist(1) rest, of c] m by simp
    next
      case nl: False
      with False have "map_of (fs w) (with_unused p) = Some Dir" by simp
      then have l: "mark_loop (p # ps) loaded c w =
          mark_loop ps loaded c (w\<lparr>printed := printed w @ [''Failed to mark '' @ pstr p]\<rparr>)"
        using nu nl rename_file_ok [OF d pne] by simp
      have r: "\<forall>q \<in> set ps. is_png q \<and>
          (\<exists>d. map_of (fs (w\<lparr>printed := printed w @ [''Failed to mark '' @ pstr p]\<rparr>)) q = Some (File d))"
        using rest by simp
      show ?thesis using Cons.IH [OF dist(1) r, of c] m l by simp
    qed
  next
    case True
    define ft where "ft = AList.update (with_unused p) (File d) (AList.delete p (fs w))"
    have look: "map_of ft k = (if k = with_unused p then Some (File d)
                               else if k = p then None else map_of (fs w) k)" for k
      by (simp add: ft_def update_conv' delete_conv')
    have l: "mark_loop (p # ps) loaded c w = mark_loop ps loaded (c + 1) (w\<lparr>fs := ft\<rparr>)"
      using nu True rename_file_ok [OF d pne] by (simp add: ft_def)
    have r: "\<forall>q \<in> set ps. is_png q \<and> (\<exists>d. map_of (fs (w\<lparr>fs := ft\<rparr>)) q = Some (File d))"
    proof
      fix q assume q: "q \<in> set ps"
      with rest have qp: "is_png q" and "\<exists>d. map_of (fs w) q = Some (File d)" by auto
      moreover have "q \<noteq> p" using q dist by auto
      moreover have "q \<noteq> with_unused p" using qp by (rule is_png_not_unused)
      ultimately show "is_png q \<and> (\<exists>d. map_of (fs (w\<lparr>fs := ft\<rparr>)) q = Some (File d))"
        by (simp add: look)
    qed
    have same: "map_of ft (with_unused q) = map_of (fs w) (with_unused q)" if "q \<in> set ps" for q
    proof -
      from that rest have qp: "is_png q" by auto
      then have qne: "q \<noteq> []" by (simp add: is_png_def)
      have "with_unused q \<noteq> with_unused p"
        using with_unused_inj [OF qne pne] that dist by auto
      moreover have "with_unused q \<noteq> p" using is_png_not_unused [OF png, of q] by auto
      ultimately show ?thesis by (simp add: look)
    qed
    have mr: "marked_of ps loaded ft = marked_of ps loaded (fs w)"
      unfolding marked_of_def by (rule filter_cong) (simp_all add: same)
    have m: "marked_of (p # ps) loaded (fs w) = p # marked_of ps loaded (fs w)"
      using True by (simp add: marked_of_def)
    let ?M = "marked_of ps loaded (fs w)"
    have sub: "set ?M \<subseteq> set ps" by (auto simp: marked_of_def)
    from Cons.IH [OF dist(1) r, of "c + 1"] obtain w' where
      res: "mark_loop ps loaded (c + 1) (w\<lparr>fs := ft\<rparr>) = (c + 1 + int (length ?M), w')"
      and a: "\<forall>q \<in> set ?M. map_of (fs w') q = None \<and> map_of (fs w') (with_unused q) = map_of ft q"
      and b: "\<forall>k. k \<notin> set ?M \<and> k \<notin> with_unused ` set ?M \<longrightarrow> map_of (fs w') k = map_of ft k"
      and c: "scene w' = scene w \<and> images w' = images w \<and> reports w' = reports w"
      by (auto simp: mr)
    have pM: "p \<notin> set ?M" using sub dist by auto
    have puM: "p \<notin> with_unused ` set ?M" using is_png_not_unused [OF png] by auto
    have uM: "with_unused p \<notin> set ?M"
    proof
      assume "with_unused p \<in> set ?M"
      with sub rest have "is_png (with_unused p)" by auto
      from is_png_not_unused [OF this, of p] show False by simp
    qed
    have uuM: "with_unused p \<notin> with_unused ` set ?M"
    proof
      assume "with_unused p \<in> with_unused ` set ?M"
      then obtain q where q: "q \<in> set ?M" "with_unused p = with_unused q" by auto
      with sub rest have "q \<noteq> []" by (auto simp: is_png_def)
      from with_unused_inj [OF pne this q(2)] q(1) pM show False by simp
    qed
    have pu: "p \<noteq> with_unused p" using with_unused_neq [of p] by simp
    have g1: "map_of (fs w') p = None" using b pM puM pu by (simp add: look)
    have g2: "map_of (fs w') (with_unused p) = map_of (fs w) p"
      using b uM uuM d pu by (simp add: look)
    have g3: "map_of (fs w') q = None \<and> map_of (fs w') (with_unused q) = map_of (fs w) q"
      if "q \<in> set ?M" for q
    proof -
      from that sub rest have qp: "is_png q" by auto
      have "q \<noteq> p" using that pM by auto
      moreover have "q \<noteq> with_unused p" using qp by (rule is_png_not_unused)
      ultimately show ?thesis using a that by (simp add: look)
    qed
    have g4: "map_of (fs w') k = map_of (fs w) k"
      if "k \<noteq> p" "k \<noteq> with_unused p" "k \<notin> set ?M" "k \<notin> with_unused ` set ?M" for k
      using b that by (simp add: look)
    show ?thesis
      unfolding l m using res g1 g2 g3 g4 c by auto
  qed
qed


lemma rglob_png_distinct: "distinct (rglob_png d ft)"
  by (simp add: rglob_png_def fs_paths_def)

lemma rglob_png_is_png: "p \<in> set (rglob_png d ft) \<Longrightarrow> is_png p"
  by (auto simp: rglob_png_def is_png_def split: if_splits)

lemma show_nat_digit: "n < 10 \<Longrightarrow> show_nat n = [digit n]"
  by simp

lemma mark_world_rglob:
  "rglob_png [''tex''] (fs mark_world) = [[''tex'', ''a.png''], [''tex'', ''b.png''], [''tex'', ''c.png'']]"
  by (simp add: rglob_png_def fs_paths_def mark_world_def is_dir_def endswith_def
      suffix_to_prefix strict_prefix_def)

lemma mark_world_loaded: "loaded_images_of mark_world = [[''tex'', ''c.png'']]"
  by (simp add: loaded_images_of_def mark_world_def resolve_def abspath_def Path_def parts_def normalize_def descend_def)

lemma mark_world_folder:
  "Path (ambientcg_custom_folder (scene mark_world)) = [''tex'']"
  by (simp add: mark_world_def Path_def parts_def normalize_def descend_def)

lemma mark_world_result:
  "mark_unused_textures mark_world =
     (FINISHED,
      mark_world
        \<lparr>fs := [([''tex''], Dir),
                 ([''tex'', ''a.png''], File (Picture 4 4)),
                 ([''tex'', ''a.png.unused''], Dir),
                 ([''tex'', ''c.png''], File (Picture 4 4)),
                 ([''tex'', ''b.png.unused''], File (Picture 4 4))],
         printed := [''Failed to mark /tex/a.png''],
         reports := [(''INFO'', ''Marked 1 unused textures'')]\<rparr>)"
  by (simp add: mark_unused_textures_def mark_world_folder mark_world_rglob mark_world_loaded
      Let_def)
    (simp add: mark_world_def example_world_def example_scene_def fs_exists_def
      pname_def endswith_def suffix_to_prefix resolve_def fs_rename_def with_unused_def
      report_def show_int_def show_nat_digit digit_def pstr_def)

text \<open>
  Claim C6, as stated: exactly the files of the folder that are not loaded are renamed.
  A rename that fails is caught and skipped: \<open>a.png\<close> is not loaded, but its suffixed
  name is a directory, so it stays where it is and is not counted; only \<open>b.png\<close> is
  renamed.
\<close>

theorem mark_unused_rename_failure:
  "[''tex'', ''a.png''] \<in> set (rglob_png (Path (ambientcg_custom_folder (scene mark_world)))
                                 (fs mark_world))
   \<and> resolve [''tex'', ''a.png''] \<notin> set (loaded_images_of mark_world)
   \<and> mark_unused_textures mark_world =
     (FINISHED,
      mark_world
        \<lparr>fs := [([''tex''], Dir),
                 ([''tex'', ''a.png''], File (Picture 4 4)),
                 ([''tex'', ''a.png.unused''], Dir),
                 ([''tex'', ''c.png''], File (Picture 4 4)),
                 ([''tex'', ''b.png.unused''], File (Picture 4 4))],
         printed := [''Failed to mark /tex/a.png''],
         reports := [(''INFO'', ''Marked 1 unused textures'')]\<rparr>)"
  by (simp add: mark_world_result mark_world_folder mark_world_rglob mark_world_loaded resolve_def)

text \<open>
  Claim C6, amended.  When the custom folder is configured and exists and the \<open>*.png\<close>
  entries below it are regular files, the operation finishes and renames exactly those
  of them whose resolved path is not loaded and whose rename succeeds (the suffixed name
  is not a directory): each is gone from its path and found under the name with
  \<open>.unused\<close> appended.  Every other \<open>*.png\<close> entry, the loaded ones among them, and
  every other path is as before, and the number reported is the number of files renamed.
\<close>

theorem mark_unused_textures_marks:
  assumes "ambientcg_use_custom_folder (scene w)" and "ambientcg_custom_folder (scene w) \<noteq> []"
    and "fs_exists (fs w) (Path (ambientcg_custom_folder (scene w)))"
    and "\<forall>p \<in> set (rglob_png (Path (ambientcg_custom_folder (scene w))) (fs w)).
           \<exists>d. map_of (fs w) p = Some (File d)"
  shows "let F = rglob_png (Path (ambientcg_custom_folder (scene w))) (fs w);
             M = marked_of F (loaded_images_of w) (fs w)
         in \<exists>w'. mark_unused_textures w = (FINISHED, w')
              \<and> (\<forall>p \<in> set M. map_of (fs w') p = None
                      \<and> map_of (fs w') (with_unused p) = map_of (fs w) p)
              \<and> (\<forall>p \<in> set F. p \<notin> set M \<longrightarrow> map_of (fs w') p = map_of (fs w) p)
              \<and> (\<forall>k. k \<notin> set M \<and> k \<notin> with_unused ` set M
                      \<longrightarrow> map_of (fs w') k = map_of (fs w) k)
              \<and> reports w' = reports w @
                   [(''INFO'', ''Marked '' @ show_int (int (length M)) @ '' unused textures'')]"
proof -
  define F where "F = rglob_png (Path (ambientcg_custom_folder (scene w))) (fs w)"
  define M where "M = marked_of F (loaded_images_of w) (fs w)"
  have pre: "\<forall>p \<in> set F. is_png p \<and> (\<exists>d. map_of (fs w) p = Some (File d))"
    using assms(4) rglob_png_is_png unfolding F_def by blast
  have dist: "distinct F" unfolding F_def by (rule rglob_png_distinct)
  from mark_loop_spec [OF dist pre, of "loaded_images_of w" 0] obtain w1 where
    l: "mark_loop F (loaded_images_of w) 0 w = (int (length M), w1)"
    and a: "\<forall>p \<in> set M. map_of (fs w1) p = None \<and> map_of (fs w1) (with_unused p) = map_of (fs w) p"
    and b: "\<forall>k. k \<notin> set M \<and> k \<notin> with_unused ` set M \<longrightarrow> map_of (fs w1) k = map_of (fs w) k"
    and c: "reports w1 = reports w"
    unfolding M_def by auto
  have r: "mark_unused_textures w =
      (FINISHED, report ''INFO'' (''Marked '' @ show_int (int (length M)) @ '' unused textures'') w1)"
    using assms(1-3) l by (simp add: mark_unused_textures_def Let_def F_def)
  have f: "map_of (fs w1) p = map_of (fs w) p" if "p \<in> set F" "p \<notin> set M" for p
  proof -
    from that pre have "is_png p" by auto
    then have "p \<notin> with_unused ` set M" using is_png_not_unused by auto
    with b that show ?thesis by simp
  qed
  show ?thesis
    unfolding Let_def F_def [symmetric] M_def [symmetric] r
    using a b c f by (simp add: report_def)
qed

theorem mark_unused_textures_marks_witness:
  "ambientcg_use_custom_folder (scene mark_world)
   \<and> (\<exists>w'. mark_unused_textures mark_world = (FINISHED, w')
          \<and> map_of (fs w') [''tex'', ''b.png''] = None
          \<and> map_of (fs w') [''tex'', ''b.png.unused''] = Some (File (Picture 4 4))
          \<and> map_of (fs w') [''tex'', ''c.png''] = Some (File (Picture 4 4))
          \<and> reports w' = [(''INFO'', ''Marked 1 unused textures'')])"
proof -
  have h: "ambientcg_use_custom_folder (scene mark_world)"
    "ambientcg_custom_folder (scene mark_world) \<noteq> []"
    by (simp_all add: mark_world_def)
  have e: "fs_exists (fs mark_world) (Path (ambientcg_custom_folder (scene mark_world)))"
    unfolding mark_world_folder by (simp add: fs_exists_def mark_world_def)
  have f: "\<forall>p \<in> set (rglob_png (Path (ambientcg_custom_folder (scene mark_world))) (fs mark_world)).
           \<exists>d. map_of (fs mark_world) p = Some (File d)"
    unfolding mark_world_folder mark_world_rglob by (simp add: mark_world_def)
  have m: "marked_of [[''tex'', ''a.png''], [''tex'', ''b.png''], [''tex'', ''c.png'']]
             [[''tex'', ''c.png'']] (fs mark_world) = [[''tex'', ''b.png'']]"
    by (simp add: marked_of_def resolve_def with_unused_def mark_world_def)
  have v: "map_of (fs mark_world) [''tex'', ''b.png''] = Some (File (Picture 4 4))"
    "map_of (fs mark_world) [''tex'', ''c.png''] = Some (File (Picture 4 4))"
    "reports mark_world = []"
    by (simp_all add: mark_world_def example_world_def)
  from mark_unused_textures_marks [OF h e f] obtain w' where
    "mark_unused_textures mark_world = (FINISHED, w')"
    "map_of (fs w') [''tex'', ''b.png''] = None"
    "map_of (fs w') (with_unused [''tex'', ''b.png'']) = Some (File (Picture 4 4))"
    "map_of (fs w') [''tex'', ''c.png''] = Some (File (Picture 4 4))"
    "reports w' = [(''INFO'', ''Marked '' @ show_int 1 @ '' unused textures'')]"
    unfolding Let_def mark_world_folder mark_world_rglob mark_world_loaded m
    using v by auto
  then show ?thesis using h(1)
    by (auto simp: with_unused_def show_int_def show_nat_digit digit_def)
qed

lemma mark_loop_frame:
  "mark_loop ps loaded c w = (n, w') \<Longrightarrow>
     image_io w' = image_io w \<and> blend_filepath w' = blend_filepath w"
proof (induction ps arbitrary: c w)
  case Nil
  then show ?case by simp
next
  case (Cons p ps)
  show ?case
  proof (cases "endswith (pname p) ''.unused'' \<or> resolve p \<in> set loaded")
    case True
    with Cons.prems have "mark_loop ps loaded c w = (n, w')" by (auto split: if_splits)
    from Cons.IH [OF this] show ?thesis .
  next
    case False
    show ?thesis
    proof (cases "fs_rename p (with_unused p) (fs w)")
      case (Inl e)
      with False Cons.prems have
        "mark_loop ps loaded c (w\<lparr>printed := printed w @ [''Failed to mark '' @ pstr p]\<rparr>) = (n, w')"
        by auto
      from Cons.IH [OF this] show ?thesis by simp
    next
      case (Inr ft)
      with False Cons.prems have "mark_loop ps loaded (c + 1) (w\<lparr>fs := ft\<rparr>) = (n, w')"
        by auto
      from Cons.IH [OF this] show ?thesis by simp
    qed
  qed
qed

lemma custom_world_folder:
  "Path (ambientcg_custom_folder (scene custom_world)) = [''tex'']"
  by (simp add: custom_world_def Path_def parts_def normalize_def descend_def)

lemma custom_world_rglob:
  "rglob_png [''tex''] (fs custom_world) = [[''tex'', ''Rock035_Color_1.00.png'']]"
  by (simp add: rglob_png_def fs_paths_def custom_world_def is_dir_def endswith_def
      suffix_to_prefix strict_prefix_def color_png_def)

lemma custom_world_loaded: "loaded_images_of custom_world = []"
  by (simp add: loaded_images_of_def custom_world_def example_world_def)

lemma custom_world_marked:
  "marked_of [[''tex'', ''Rock035_Color_1.00.png'']] [] (fs custom_world) =
     [[''tex'', ''Rock035_Color_1.00.png'']]"
  by (simp add: marked_of_def with_unused_def custom_world_def color_png_def)

lemma custom_world_result:
  "mark_unused_textures custom_world =
     (FINISHED,
      custom_world
        \<lparr>fs := [([''cache''], Dir), ([''cache'', ''Rock035_1K''], Dir),
                 (color_png, File (Picture 1024 1024)),
                 ([''tex''], Dir),
                 ([''tex'', ''Rock035_Color_1.00.png.unused''], File (Picture 1024 1024))],
         reports := [(''INFO'', ''Marked 1 unused textures'')]\<rparr>)"
  by (simp add: mark_unused_textures_def custom_world_folder custom_world_rglob
      custom_world_loaded Let_def)
    (simp add: custom_world_def example_world_def example_scene_def fs_exists_def
      pname_def endswith_def suffix_to_prefix resolve_def fs_rename_def with_unused_def
      report_def show_int_def show_nat_digit digit_def color_png_def)

lemma custom_output:
  "output_path_of color_png [''tex''] 1 ''Rock035'' = [''tex'', ''Rock035_Color_1.00.png'']"
  by (simp add: output_path_of_def texture_type_of_def stem_def pname_def Let_def fmt2f_def
       py_round_def digit_def pjoin_def Path_def parts_def normalize_def descend_def color_png_def)

text \<open>
  Claim C7.  When the mark-unused operation runs on a configured, existing folder whose
  \<open>*.png\<close> entries are regular files, every file it marks is gone from its path and
  found under the name with \<open>.unused\<close> appended.  Restoring the path afterwards
  succeeds, brings back what was at the path under its original name, leaves nothing at
  the suffixed name, changes no other path and does no image input or output.  Texture
  processing restores both of its paths before any other work: with the marked file as
  its source it does on the marked state what it does on the restored one, and with the
  marked file as its output (and no source to restore) it returns the path of the file,
  in the restored state and nothing else changed.
\<close>

theorem mark_restore_roundtrip:
  assumes "ambientcg_use_custom_folder (scene w)" and "ambientcg_custom_folder (scene w) \<noteq> []"
    and "fs_exists (fs w) (Path (ambientcg_custom_folder (scene w)))"
    and "\<forall>q \<in> set (rglob_png (Path (ambientcg_custom_folder (scene w))) (fs w)).
           \<exists>d. map_of (fs w) q = Some (File d)"
    and "p \<in> set (marked_of (rglob_png (Path (ambientcg_custom_folder (scene w))) (fs w))
                     (loaded_images_of w) (fs w))"
  shows "\<exists>wm w'. mark_unused_textures w = (FINISHED, wm)
           \<and> map_of (fs wm) p = None
           \<and> map_of (fs wm) (with_unused p) = map_of (fs w) p
           \<and> restore_unused_texture p wm = Inr (True, w')
           \<and> map_of (fs w') p = map_of (fs w) p
           \<and> map_of (fs w') (with_unused p) = None
           \<and> (\<forall>k. k \<noteq> p \<and> k \<noteq> with_unused p \<longrightarrow> map_of (fs w') k = map_of (fs wm) k)
           \<and> image_io w' = image_io w
           \<and> (\<forall>h output_folder m rel name.
                 process_texture h p output_folder m rel name wm =
                 process_texture h p output_folder m rel name w')
           \<and> (\<forall>h source_path output_folder m rel name.
                 output_path_of source_path output_folder m name = p
                 \<and> map_of (fs wm) (with_unused source_path) = None
                 \<longrightarrow> process_texture h source_path output_folder m rel name wm =
                       Inr (get_texture_path w p rel, w'))"
proof -
  define F where "F = rglob_png (Path (ambientcg_custom_folder (scene w))) (fs w)"
  define M where "M = marked_of F (loaded_images_of w) (fs w)"
  have pre: "\<forall>q \<in> set F. is_png q \<and> (\<exists>d. map_of (fs w) q = Some (File d))"
    using assms(4) rglob_png_is_png unfolding F_def by blast
  have dist: "distinct F" unfolding F_def by (rule rglob_png_distinct)
  from mark_loop_spec [OF dist pre, of "loaded_images_of w" 0] obtain w1 where
    l: "mark_loop F (loaded_images_of w) 0 w = (int (length M), w1)"
    and a: "\<forall>q \<in> set M. map_of (fs w1) q = None \<and> map_of (fs w1) (with_unused q) = map_of (fs w) q"
    unfolding M_def by auto
  note fr = mark_loop_frame [OF l]
  define wm where
    "wm = report ''INFO'' (''Marked '' @ show_int (int (length M)) @ '' unused textures'') w1"
  have r: "mark_unused_textures w = (FINISHED, wm)"
    using assms(1-3) l by (simp add: mark_unused_textures_def Let_def F_def wm_def)
  have fm: "fs wm = fs w1" "image_io wm = image_io w" "blend_filepath wm = blend_filepath w"
    using fr by (simp_all add: wm_def report_def)
  have pM: "p \<in> set M" using assms(5) by (simp add: M_def F_def)
  then have "p \<in> set F" by (auto simp: M_def marked_of_def)
  with pre obtain d where png: "is_png p" and d: "map_of (fs w) p = Some (File d)" by auto
  have pne: "p \<noteq> []" using png by (simp add: is_png_def)
  have m1: "map_of (fs wm) p = None" and m2: "map_of (fs wm) (with_unused p) = Some (File d)"
    using a pM d by (simp_all add: fm)
  define ft where "ft = AList.update p (File d) (AList.delete (with_unused p) (fs wm))"
  define w' where "w' = wm\<lparr>fs := ft\<rparr>"
  have rn: "fs_rename (with_unused p) p (fs wm) = Inr ft"
    using m1 m2 pne by (simp add: fs_rename_def ft_def)
  have res: "restore_unused_texture p wm = Inr (True, w')"
    using m2 rn by (simp add: restore_unused_texture_def fs_exists_def w'_def)
  have look: "map_of ft k = (if k = p then Some (File d)
                             else if k = with_unused p then None else map_of (fs wm) k)" for k
    by (simp add: ft_def update_conv' delete_conv')
  have pu: "with_unused p \<noteq> p" by (rule with_unused_neq)
  have r1: "map_of (fs w') p = map_of (fs w) p" by (simp add: w'_def look d)
  have r2: "map_of (fs w') (with_unused p) = None" using pu by (simp add: w'_def look)
  have r3: "\<forall>k. k \<noteq> p \<and> k \<noteq> with_unused p \<longrightarrow> map_of (fs w') k = map_of (fs wm) k"
    by (simp add: w'_def look)
  have io: "image_io w' = image_io w" by (simp add: w'_def fm)
  have again: "restore_unused_texture p w' = Inr (False, w')"
    by (rule restore_unused_texture_absent) (rule r2)
  have s: "process_texture h p output_folder m rel name wm =
           process_texture h p output_folder m rel name w'" for h output_folder m rel name
    using res again by (simp add: process_texture_def)
  have dst: "process_texture h source_path output_folder m rel name wm =
               Inr (get_texture_path w p rel, w')"
    if "output_path_of source_path output_folder m name = p"
      and "map_of (fs wm) (with_unused source_path) = None"
    for h source_path output_folder m rel name
  proof -
    have "restore_unused_texture source_path wm = Inr (False, wm)"
      using that(2) by (rule restore_unused_texture_absent)
    moreover have "fs_exists (fs w') p" using r1 d by (simp add: fs_exists_def)
    moreover have "get_texture_path w' p rel = get_texture_path w p rel"
      by (rule get_texture_path_cong) (simp add: w'_def fm)
    ultimately show ?thesis using res that(1) by (simp add: process_texture_def)
  qed
  show ?thesis
    using r m1 m2 d res r1 r2 r3 io s dst by (intro exI [of _ wm] exI [of _ w']) simp
qed

theorem mark_restore_roundtrip_witness:
  "[''tex'', ''Rock035_Color_1.00.png'']
     \<in> set (marked_of (rglob_png (Path (ambientcg_custom_folder (scene custom_world)))
                        (fs custom_world))
              (loaded_images_of custom_world) (fs custom_world))
   \<and> (\<exists>wm w'. mark_unused_textures custom_world = (FINISHED, wm)
         \<and> map_of (fs wm) [''tex'', ''Rock035_Color_1.00.png''] = None
         \<and> map_of (fs wm) [''tex'', ''Rock035_Color_1.00.png.unused'']
             = Some (File (Picture 1024 1024))
         \<and> process_texture example_host color_png [''tex''] 1 False ''Rock035'' wm =
             Inr (''/tex/Rock035_Color_1.00.png'', w')
         \<and> map_of (fs w') [''tex'', ''Rock035_Color_1.00.png''] = Some (File (Picture 1024 1024))
         \<and> map_of (fs w') [''tex'', ''Rock035_Color_1.00.png.unused''] = None
         \<and> map_of (fs w') color_png = Some (File (Picture 1024 1024))
         \<and> image_io w' = [])"
proof -
  let ?p = "[''tex'', ''Rock035_Color_1.00.png'']"
  have h: "ambientcg_use_custom_folder (scene custom_world)"
    "ambientcg_custom_folder (scene custom_world) \<noteq> []"
    by (simp_all add: custom_world_def)
  have e: "fs_exists (fs custom_world) (Path (ambientcg_custom_folder (scene custom_world)))"
    unfolding custom_world_folder by (simp add: fs_exists_def custom_world_def color_png_def)
  have f: "\<forall>q \<in> set (rglob_png (Path (ambientcg_custom_folder (scene custom_world)))
                     (fs custom_world)).
           \<exists>d. map_of (fs custom_world) q = Some (File d)"
    unfolding custom_world_folder custom_world_rglob
    by (simp add: custom_world_def color_png_def)
  have m: "?p \<in> set (marked_of (rglob_png (Path (ambientcg_custom_folder (scene custom_world)))
                        (fs custom_world))
              (loaded_images_of custom_world) (fs custom_world))"
    unfolding custom_world_folder custom_world_rglob custom_world_loaded custom_world_marked
    by simp
  have v: "map_of (fs custom_world) ?p = Some (File (Picture 1024 1024))"
    "image_io custom_world = []" "blend_filepath custom_world = []"
    by (simp_all add: custom_world_def example_world_def color_png_def)
  have gp: "get_texture_path custom_world ?p False = ''/tex/Rock035_Color_1.00.png''"
    by (simp add: get_texture_path_def pstr_def)
  from mark_restore_roundtrip [OF h e f m] obtain wm w' where
    r: "mark_unused_textures custom_world = (FINISHED, wm)"
    and a: "map_of (fs wm) ?p = None"
      "map_of (fs wm) (with_unused ?p) = map_of (fs custom_world) ?p"
      "map_of (fs w') ?p = map_of (fs custom_world) ?p"
      "map_of (fs w') (with_unused ?p) = None"
      "image_io w' = image_io custom_world"
    and fr: "\<forall>k. k \<noteq> ?p \<and> k \<noteq> with_unused ?p \<longrightarrow> map_of (fs w') k = map_of (fs wm) k"
    and d: "\<forall>h source_path output_folder m rel name.
                 output_path_of source_path output_folder m name = ?p
                 \<and> map_of (fs wm) (with_unused source_path) = None
                 \<longrightarrow> process_texture h source_path output_folder m rel name wm =
                       Inr (get_texture_path custom_world ?p rel, w')"
    by blast
  have "map_of (fs wm) (with_unused color_png) = None"
    using r by (auto simp: custom_world_result with_unused_def color_png_def)
  with d custom_output have
    "process_texture example_host color_png [''tex''] 1 False ''Rock035'' wm =
       Inr (get_texture_path custom_world ?p False, w')"
    by blast
  moreover have "map_of (fs wm) color_png = Some (File (Picture 1024 1024))"
    using r by (auto simp: custom_world_result color_png_def)
  with fr have "map_of (fs w') color_png = Some (File (Picture 1024 1024))"
    by (simp add: with_unused_def color_png_def)
  ultimately show ?thesis using r a v gp m
    by (auto simp: with_unused_def)
qed
section \<open>Building the material: proofs\<close>

lemma restore_unused_texture_frame:
  "restore_unused_texture p w = Inr (b, w') \<Longrightarrow>
     materials w' = materials w \<and> scene w' = scene w \<and> retrieved w' = retrieved w"
  by (auto simp: restore_unused_texture_def Let_def split: if_splits sum.splits)

lemma process_texture_frame:
  assumes "process_texture h source_path output_folder m rel name w = Inr (p, w1)"
  shows "materials w1 = materials w \<and> scene w1 = scene w \<and> retrieved w1 = retrieved w"
proof -
  define out where "out = output_path_of source_path output_folder m name"
  from process_texture_Inr [OF assms] obtain b1 wa b2 wb where
    ra: "restore_unused_texture source_path w = Inr (b1, wa)" and
    rb: "restore_unused_texture out wa = Inr (b2, wb)" and
    alt: "(fs_exists (fs wb) out \<and> w1 = wb \<and> p = get_texture_path wb out rel)
            \<or> (\<not> fs_exists (fs wb) out \<and> convert_texture h source_path out m rel wb = Inr (p, w1))"
    unfolding out_def by blast
  have a: "materials wb = materials w \<and> scene wb = scene w \<and> retrieved wb = retrieved w"
    using restore_unused_texture_frame [OF ra] restore_unused_texture_frame [OF rb]
    by simp
  from alt show ?thesis
  proof
    assume "fs_exists (fs wb) out \<and> w1 = wb \<and> p = get_texture_path wb out rel"
    with a show ?thesis by simp
  next
    assume "\<not> fs_exists (fs wb) out \<and> convert_texture h source_path out m rel wb = Inr (p, w1)"
    then have "convert_texture h source_path out m rel wb = Inr (p, w1)" by simp
    from convert_texture_Inr [OF this] a show ?thesis by auto
  qed
qed


lemma cur_material_set [simp]: "cur_material (set_cur_material m w) = m"
  by (simp add: cur_material_def set_cur_material_def)

lemma set_cur_material_frame [simp]:
  "scene (set_cur_material m w) = scene w" "fs (set_cur_material m w) = fs w"
  "retrieved (set_cur_material m w) = retrieved w"
  by (simp_all add: set_cur_material_def)

lemma images_load_frame:
  "images_load s w = Inr (img, w') \<Longrightarrow>
     materials w' = materials w \<and> scene w' = scene w \<and> fs w' = fs w \<and> retrieved w' = retrieved w"
  by (auto simp: images_load_def load_at_def Let_def
      split: option.splits node.splits filedata.splits)

lemma wire_channel_nodes:
  "map node_sig (nodes (wire_channel c t m)) =
     map node_sig (nodes m) @
       (case c of NormalGL \<Rightarrow> [(''ShaderNodeNormalMap'', - 300, - 300)]
        | Displacement \<Rightarrow> [(''ShaderNodeDisplacement'', - 300, - 600)]
        | _ \<Rightarrow> [])"
  by (cases c) (simp_all add: wire_channel_def links_new_def nodes_new_def plain_node_def
      node_sig_def Let_def)

lemma texture_step_nodes:
  assumes "texture_step h extract_path output_folder file w = Inr (u, w')"
  shows "scene w' = scene w
       \<and> map node_sig (nodes (cur_material w')) =
           map node_sig (nodes (cur_material w)) @ channel_nodes (scene w) file"
proof (cases "branch_of (scene w) file")
  case None
  with assms show ?thesis by (simp add: texture_step_def channel_nodes_def)
next
  case (Some c)
  from assms Some obtain texture_path w1 where
    pt: "process_texture h (extract_path @ [file]) output_folder
           (ambientcg_resize_multiplier (scene w)) (ambientcg_use_relative_paths (scene w))
           (ambientcg_material_name (scene w)) w = Inr (texture_path, w1)"
    by (auto simp: texture_step_def Let_def split: sum.splits prod.splits)
  note f1 = process_texture_frame [OF pt]
  define tex where "tex = plain_node ''ShaderNodeTexImage'' (channel_location c)"
  define w2 where "w2 = set_cur_material (nodes_new tex (cur_material w1)) w1"
  from assms Some pt obtain img w3 where
    il: "images_load texture_path w2 = Inr (img, w3)"
    by (auto simp: texture_step_def Let_def w2_def tex_def split: sum.splits prod.splits)
  note f3 = images_load_frame [OF il]
  define img' where "img' = img\<lparr>colorspace := channel_colorspace c\<rparr>"
  define w4 where "w4 = w3\<lparr>images := images w2 @ [img']\<rparr>"
  define m where "m = (cur_material w4)\<lparr>nodes := (nodes (cur_material w4))
      [length (nodes (cur_material w1)) :=
         tex\<lparr>node_image := Some img', interpolation := ambientcg_interpolation (scene w)\<rparr>]\<rparr>"
  have w': "w' = set_cur_material (wire_channel c (length (nodes (cur_material w1))) m) w4"
    using assms Some pt il
    by (simp add: texture_step_def Let_def w2_def tex_def img'_def w4_def m_def)
  have cm1: "cur_material w1 = cur_material w" using f1 by (simp add: cur_material_def)
  have cm4: "cur_material w4 = nodes_new tex (cur_material w1)"
    using f3 by (simp add: w4_def cur_material_def w2_def set_cur_material_def)
  have nm: "map node_sig (nodes m) =
      map node_sig (nodes (cur_material w)) @ [(''ShaderNodeTexImage'', channel_location c)]"
    by (simp add: m_def cm4 nodes_new_def cm1 node_sig_def tex_def plain_node_def)
  have sc: "scene w' = scene w" using f1 f3 by (simp add: w' w4_def w2_def)
  have "map node_sig (nodes (cur_material w')) =
      map node_sig (nodes (cur_material w)) @ channel_nodes (scene w) file"
    unfolding w' by (cases c) (simp_all add: wire_channel_nodes nm channel_nodes_def Some)
  with sc show ?thesis by simp
qed

lemma texture_loop_nodes:
  "texture_loop h extract_path output_folder files w = Inr (u, w') \<Longrightarrow>
     scene w' = scene w
     \<and> map node_sig (nodes (cur_material w')) =
         map node_sig (nodes (cur_material w)) @ concat (map (channel_nodes (scene w)) files)"
proof (induction files arbitrary: w)
  case Nil
  then show ?case by simp
next
  case (Cons f files)
  from Cons.prems obtain w1 where
    st: "texture_step h extract_path output_folder f w = Inr ((), w1)"
    and lp: "texture_loop h extract_path output_folder files w1 = Inr (u, w')"
    by (auto split: sum.splits prod.splits)
  from texture_step_nodes [OF st] Cons.IH [OF lp] show ?case by simp
qed

lemma new_material_nodes: "map node_sig (nodes (new_material name)) = base_nodes"
  by (simp add: new_material_def nodes_new_def links_new_def plain_node_def node_sig_def
      base_nodes_def Let_def)

lemma build_material_nodes:
  assumes "build_material h extract_path output_folder w3 = Inr (st, w')"
  shows "\<exists>files. listdir extract_path (fs w3) = Inr files
           \<and> st = FINISHED
           \<and> map node_sig (nodes (cur_material w')) =
               base_nodes @ concat (map (channel_nodes (scene w3)) files)"
proof -
  define w4 where "w4 = w3\<lparr>materials := materials w3 @ [new_material (ambientcg_material_name (scene w3))]\<rparr>"
  from assms obtain files where ls: "listdir extract_path (fs w3) = Inr files"
    by (auto simp: build_material_def Let_def split: sum.splits)
  from assms ls obtain u w5 where
    lp: "texture_loop h extract_path output_folder files w4 = Inr (u, w5)"
    by (auto simp: build_material_def Let_def w4_def split: sum.splits prod.splits)
  from texture_loop_nodes [OF lp]
  have n5: "map node_sig (nodes (cur_material w5)) =
      base_nodes @ concat (map (channel_nodes (scene w3)) files)"
    by (simp add: w4_def cur_material_def new_material_nodes)
  from assms ls lp have "st = FINISHED \<and> nodes (cur_material w') = nodes (cur_material w5)"
    by (auto simp: build_material_def Let_def w4_def report_def cur_material_def
        set_cur_material_def set_default_def)
  with ls n5 show ?thesis by auto
qed


lemma example_choose_folders:
  "choose_folders example_world =
     Inr (([''cache''], [''cache'', ''Rock035_1K''], [''cache'', ''Rock035_1K'']),
          example_world\<lparr>fs := [([''cache''], Dir)]\<rparr>)"
  by (simp add: choose_folders_def get_cache_dir_def mkdir_parents_def mkdir_def is_dir_def
      extract_path_of_def pjoin_def Path_def parts_def normalize_def descend_def prefixes_snoc [of "[]", simplified]
      example_world_def example_scene_def Let_def)

lemma example_ensure_extracted:
  "ensure_extracted example_host ''Rock035'' ''1K'' [''cache'']
     (example_world\<lparr>fs := [([''cache''], Dir)]\<rparr>) = Inr extracted_world"
  by (simp add: ensure_extracted_def urlretrieve_def write_file_def unlink_def
      extract_member_def member_path_def mkdir_parents_def mkdir_def is_dir_def fs_exists_def
      extract_path_of_def zip_path_of_def pjoin_def Path_def parts_def normalize_def descend_def endswith_def
      suffix_to_prefix example_archive_def extracted_world_def
      example_world_def example_host_def Let_def)


lemma example_listdir:
  "listdir [''cache'', ''Rock035_1K''] (fs extracted_world) =
     Inr [''Rock035_1K-PNG_Roughness.png'', ''Rock035_1K-PNG_Color.png'', ''Rock035.usdc'']"
  by (simp add: listdir_def fs_paths_def is_dir_def extracted_world_def)

lemma example_branches:
  "branch_of example_scene ''Rock035_1K-PNG_Roughness.png'' = Some Roughness"
  "branch_of example_scene ''Rock035_1K-PNG_Color.png'' = Some Color"
  "branch_of example_scene ''Rock035.usdc'' = None"
  by (simp_all add: branch_of_def endswith_def suffix_to_prefix example_scene_def)

lemma example_outputs:
  "output_path_of [''cache'', ''Rock035_1K'', ''Rock035_1K-PNG_Roughness.png'']
      [''cache'', ''Rock035_1K''] 1 ''Rock035''
      = [''cache'', ''Rock035_1K'', ''Rock035_Roughness_1.00.png'']"
  "output_path_of [''cache'', ''Rock035_1K'', ''Rock035_1K-PNG_Color.png'']
      [''cache'', ''Rock035_1K''] 1 ''Rock035''
      = [''cache'', ''Rock035_1K'', ''Rock035_Color_1.00.png'']"
  by (simp_all add: output_path_of_def texture_type_of_def stem_def pname_def Let_def fmt2f_def
       py_round_def digit_def pjoin_def Path_def parts_def normalize_def descend_def)

lemma example_paths:
  "Path ''/cache/Rock035_1K/Rock035_Roughness_1.00.png'' =
     [''cache'', ''Rock035_1K'', ''Rock035_Roughness_1.00.png'']"
  "Path ''/cache/Rock035_1K/Rock035_Color_1.00.png'' =
     [''cache'', ''Rock035_1K'', ''Rock035_Color_1.00.png'']"
  by (simp_all add: Path_def parts_def normalize_def descend_def)

lemma extracted_fields:
  "scene extracted_world = example_scene"
  "fs extracted_world =
     [([''cache''], Dir), ([''cache'', ''Rock035_1K''], Dir),
      ([''cache'', ''Rock035_1K'', ''Rock035_1K-PNG_Roughness.png''], File (Picture 1024 1024)),
      ([''cache'', ''Rock035_1K'', ''Rock035_1K-PNG_Color.png''], File (Picture 1024 1024)),
      ([''cache'', ''Rock035_1K'', ''Rock035.usdc''], File Bytes)]"
  "images extracted_world = []" "materials extracted_world = []"
  "image_io extracted_world = []" "blend_filepath extracted_world = []"
  "reports extracted_world = []"
  by (simp_all add: extracted_world_def example_world_def)

lemma example_scene_fields:
  "ambientcg_material_name example_scene = ''Rock035''"
  "ambientcg_resize_multiplier example_scene = 1"
  "\<not> ambientcg_use_relative_paths example_scene"
  "ambientcg_interpolation example_scene = ''Linear''"
  "ambientcg_use_metalness example_scene" "ambientcg_use_roughness example_scene"
  "\<not> ambientcg_use_backface_culling example_scene"
  by (simp_all add: example_scene_def)

lemma example_fround: "fround example_host x = x"
  by (simp add: example_host_def)

lemma example_build:
  "created_nodes (build_material example_host [''cache'', ''Rock035_1K''] [''cache'', ''Rock035_1K'']
      extracted_world) =
   Some (base_nodes @ [(''ShaderNodeTexImage'', - 600, 0), (''ShaderNodeTexImage'', - 600, 600)])"
  apply (simp add: build_material_def example_listdir [unfolded extracted_fields] Let_def extracted_fields)
  apply (simp add: texture_step_def process_texture_def convert_texture_def
      restore_unused_texture_def example_branches example_outputs example_paths
      extracted_fields example_scene_fields example_fround
      load_at_def images_load_def image_scale_def image_save_def images_remove_def write_file_def
      get_texture_path_def pstr_def abspath_def fs_exists_def is_dir_def with_unused_def
      float_0_001_def cur_material_def set_cur_material_def Let_def)
  apply (simp add: created_nodes_def report_def cur_material_def set_cur_material_def
      wire_channel_def links_new_def nodes_new_def plain_node_def new_material_def
      node_sig_def base_nodes_def Let_def)
  done


lemma choose_folders_scene:
  "choose_folders w = Inr (x, w2) \<Longrightarrow> scene w2 = scene w"
  by (auto simp: choose_folders_def get_cache_dir_def Let_def
      split: sum.splits prod.splits if_splits)

lemma ensure_extracted_scene:
  "ensure_extracted h name res cache w = Inr w3 \<Longrightarrow> scene w3 = scene w"
  by (auto simp: ensure_extracted_def urlretrieve_def report_def Let_def
      split: sum.splits prod.splits if_splits option.splits node.splits filedata.splits)

lemma fetch_and_create_Inr:
  assumes "fetch_and_create h w = Inr (FINISHED, w')"
  shows "\<exists>cache extract_path output_folder w2 w3.
           choose_folders w = Inr ((cache, extract_path, output_folder), w2)
         \<and> ensure_extracted h (ambientcg_material_name (scene w))
               (ambientcg_resolution (scene w)) cache w2 = Inr w3
         \<and> build_material h extract_path output_folder w3 = Inr (FINISHED, w')"
  using assms by (auto simp: fetch_and_create_def split: sum.splits prod.splits)

lemma example_fetch_and_create:
  "fetch_and_create example_host example_world =
     build_material example_host [''cache'', ''Rock035_1K''] [''cache'', ''Rock035_1K'']
       extracted_world"
proof -
  have "ambientcg_material_name (scene example_world) = ''Rock035''"
    "ambientcg_resolution (scene example_world) = ''1K''"
    by (simp_all add: example_world_def example_scene_def)
  then show ?thesis
    by (simp add: fetch_and_create_def example_choose_folders example_ensure_extracted)
qed

text \<open>
  Claim C4, as stated: after the four fixed nodes, the image texture nodes come in the
  order Color, Metalness, Roughness, NormalGL, Displacement, whatever the order of the
  files on disk.  The loop runs over \<open>os.listdir\<close> and creates the node of a file when
  it meets the file: the example archive lists the roughness map first, and the roughness
  node is created before the colour node.
\<close>

theorem nodes_follow_listing:
  "created_nodes (fetch_and_create example_host example_world) =
     Some (base_nodes @ [(''ShaderNodeTexImage'', channel_location Roughness),
                         (''ShaderNodeTexImage'', channel_location Color)])"
  by (simp add: example_fetch_and_create example_build)

text \<open>
  Claim C4, amended.  A finished run creates the output node, the principled shader, the
  texture coordinate node and the mapping node in this order, and then, for each entry of
  the extraction directory in the order \<open>os.listdir\<close> returns them, the image texture
  node of the enabled channel whose suffix the entry's name carries (for NormalGL and
  Displacement followed by the normal map or displacement node); other entries and
  disabled channels add nothing.
\<close>

theorem fetch_and_create_node_order:
  assumes "fetch_and_create h w = Inr (FINISHED, w')"
  shows "\<exists>cache extract_path output_folder w2 w3 files.
           choose_folders w = Inr ((cache, extract_path, output_folder), w2)
         \<and> ensure_extracted h (ambientcg_material_name (scene w))
               (ambientcg_resolution (scene w)) cache w2 = Inr w3
         \<and> listdir extract_path (fs w3) = Inr files
         \<and> map node_sig (nodes (cur_material w')) =
             base_nodes @ concat (map (channel_nodes (scene w)) files)"
proof -
  from fetch_and_create_Inr [OF assms] obtain cache extract_path output_folder w2 w3 where
    a: "choose_folders w = Inr ((cache, extract_path, output_folder), w2)"
    and b: "ensure_extracted h (ambientcg_material_name (scene w))
               (ambientcg_resolution (scene w)) cache w2 = Inr w3"
    and c: "build_material h extract_path output_folder w3 = Inr (FINISHED, w')"
    by blast
  have "scene w3 = scene w"
    using choose_folders_scene [OF a] ensure_extracted_scene [OF b] by simp
  with build_material_nodes [OF c] a b show ?thesis by auto
qed

theorem fetch_and_create_node_order_witness:
  "\<exists>w'. fetch_and_create example_host example_world = Inr (FINISHED, w')
      \<and> map node_sig (nodes (cur_material w')) =
          base_nodes @ concat (map (channel_nodes example_scene)
            [''Rock035_1K-PNG_Roughness.png'', ''Rock035_1K-PNG_Color.png'', ''Rock035.usdc''])"
proof -
  have "created_nodes (fetch_and_create example_host example_world) \<noteq> None"
    by (simp add: example_fetch_and_create example_build)
  then obtain w' where r: "fetch_and_create example_host example_world = Inr (FINISHED, w')"
    by (auto simp: created_nodes_def split: sum.splits prod.splits status.splits)
  have sc: "scene example_world = example_scene" by (simp add: example_world_def)
  from fetch_and_create_node_order [OF r] show ?thesis
    unfolding example_choose_folders sc
    using r example_ensure_extracted example_listdir
    by (auto simp: example_scene_def)
qed

section \<open>Paths: proofs\<close>

lemma split_on_no_sep_in: "c \<in> set (split_on x s) \<Longrightarrow> x \<notin> set c"
proof (induction s arbitrary: c)
  case Nil
  then show ?case by simp
next
  case (Cons a s)
  obtain y ys where y: "split_on x s = y # ys" by (cases "split_on x s") auto
  show ?case
  proof (cases "a = x")
    case True
    with Cons show ?thesis by auto
  next
    case False
    with Cons.prems y have "c = a # y \<or> c \<in> set ys" by auto
    then show ?thesis using Cons.IH [of y] Cons.IH [of c] y False by auto
  qed
qed

lemma parts_components:
  "c \<in> set (parts s) \<Longrightarrow> c \<noteq> [] \<and> c \<noteq> ''.'' \<and> CHR ''/'' \<notin> set c"
  by (auto simp: parts_def dest: split_on_no_sep_in)

lemma proper_butlast: "proper p \<Longrightarrow> proper (butlast p)"
  by (auto simp: proper_def dest: in_set_butlastD)

lemma descend_proper:
  assumes "proper p" and "\<forall>c \<in> set cs. c \<noteq> [] \<and> c \<noteq> ''.'' \<and> CHR ''/'' \<notin> set c"
  shows "proper (descend p cs)"
  using assms
proof (induction cs arbitrary: p)
  case Nil
  then show ?case by (simp add: descend_def)
next
  case (Cons c cs)
  have "proper (p @ [c])" if "c \<noteq> ''..''"
    using Cons.prems that unfolding proper_def by simp
  then have "proper (if c = ''..'' then butlast p else p @ [c])"
    using Cons.prems(1) by (simp add: proper_butlast)
  from Cons.IH [OF this] Cons.prems(2) show ?case by (simp add: descend_def)
qed

lemma Path_proper: "proper (Path s)"
proof -
  have "proper []" by (simp add: proper_def)
  moreover have "\<forall>c \<in> set (parts s). c \<noteq> [] \<and> c \<noteq> ''.'' \<and> CHR ''/'' \<notin> set c"
    using parts_components by blast
  ultimately show ?thesis unfolding Path_def normalize_def by (rule descend_proper)
qed

lemma pjoin_proper:
  assumes "proper p"
  shows "proper (pjoin p s)"
proof -
  have "\<forall>c \<in> set (parts s). c \<noteq> [] \<and> c \<noteq> ''.'' \<and> CHR ''/'' \<notin> set c"
    using parts_components by blast
  with assms have "proper (descend p (parts s))" by (rule descend_proper)
  then show ?thesis by (simp add: pjoin_def Path_proper)
qed

lemma descend_plain: "\<forall>c \<in> set cs. c \<noteq> ''..'' \<Longrightarrow> descend p cs = p @ cs"
  by (induction cs arbitrary: p) (auto simp: descend_def)

lemma split_on_Cons_sep: "split_on x (x # s) = [] # split_on x s"
  by simp

lemma split_on_sep:
  "x \<notin> set a \<Longrightarrow> split_on x (a @ x # b) = a # split_on x b"
  by (induction a) auto

lemma split_on_pstr:
  assumes "proper p" and "p \<noteq> []"
  shows "split_on CHR ''/'' (pstr p) = [] # p"
  using assms
proof (induction p)
  case Nil
  then show ?case by simp
next
  case (Cons c p)
  then have c: "CHR ''/'' \<notin> set c" and pp: "proper p" by (auto simp: proper_def)
  show ?case
  proof (cases "p = []")
    case True
    then show ?thesis using c by (simp add: pstr_def split_on_no_sep)
  next
    case False
    from Cons.IH [OF pp False] have "split_on CHR ''/'' (pstr p) = [] # p" .
    moreover obtain r where r: "pstr p = CHR ''/'' # r"
      using False by (cases p) (auto simp: pstr_def)
    ultimately have "split_on CHR ''/'' r = p" by simp
    moreover have "pstr (c # p) = CHR ''/'' # c @ CHR ''/'' # r"
      using r False by (simp add: pstr_def)
    ultimately show ?thesis using c by (simp add: split_on_sep)
  qed
qed

lemma parts_pstr: "proper p \<Longrightarrow> parts (pstr p) = p"
proof (cases "p = []")
  case True
  then show ?thesis by (simp add: parts_def pstr_def)
next
  case False
  assume p: "proper p"
  have "filter (\<lambda>c. c \<noteq> [] \<and> c \<noteq> ''.'') p = p"
    using p by (auto simp: proper_def intro: filter_True)
  then show ?thesis by (simp add: parts_def split_on_pstr [OF p False])
qed

lemma Path_pstr: "proper p \<Longrightarrow> Path (pstr p) = p"
  by (simp add: Path_def normalize_def parts_pstr descend_plain proper_def)


lemma split_on_append_sep: "split_on x (a @ x # b) = split_on x a @ split_on x b"
proof (induction a)
  case Nil
  then show ?case by simp
next
  case (Cons c a)
  obtain y ys where y: "split_on x a = y # ys" by (cases "split_on x a") auto
  show ?case using Cons y by auto
qed

lemma parts_append_sep: "parts (a @ CHR ''/'' # b) = parts a @ parts b"
  by (simp add: parts_def split_on_append_sep)

lemma parts_trailing_sep: "parts (a @ ''/'') = parts a"
  using parts_append_sep [of a "[]"] by (simp add: parts_def)

lemma descend_append: "descend p (xs @ ys) = descend (descend p xs) ys"
  by (simp add: descend_def)

lemma descend_up: "descend p (replicate k ''..'') = take (length p - k) p"
proof (induction k arbitrary: p)
  case 0
  then show ?case by (simp add: descend_def)
next
  case (Suc k)
  have "descend p (replicate (Suc k) ''..'') = descend (butlast p) (replicate k ''..'')"
    by (simp add: descend_def)
  also have "\<dots> = take (length (butlast p) - k) (butlast p)" by (rule Suc.IH)
  also have "\<dots> = take (length p - Suc k) p"
    by (simp add: butlast_conv_take min_def)
  finally show ?case .
qed

lemma split_on_join_slash:
  "xs \<noteq> [] \<Longrightarrow> \<forall>c \<in> set xs. CHR ''/'' \<notin> set c \<Longrightarrow> split_on CHR ''/'' (join_slash xs) = xs"
proof (induction xs rule: join_slash.induct)
  case 1
  then show ?case by simp
next
  case (2 c)
  then show ?case by (simp add: split_on_no_sep)
next
  case (3 c d cs)
  then show ?case by (simp add: split_on_sep)
qed

lemma hd_join_slash: "xs \<noteq> [] \<Longrightarrow> hd xs \<noteq> [] \<Longrightarrow> hd (join_slash xs) = hd (hd xs)"
  by (induction xs rule: join_slash.induct) auto

lemma join_slash_not_Nil: "xs \<noteq> [] \<Longrightarrow> hd xs \<noteq> [] \<Longrightarrow> join_slash xs \<noteq> []"
  by (induction xs rule: join_slash.induct) auto

lemma relpath_roundtrip:
  assumes p: "proper p" and r_def: "r = os_relpath (pstr p) d"
  shows "descend (Path d) (parts r) = p" and "r \<noteq> []" and "hd r \<noteq> CHR ''/''"
proof -
  define sl where "sl = Path d"
  define i where "i = length (longest_common_prefix sl p)"
  define rel where "rel = replicate (length sl - i) ''..'' @ drop i p"
  have "r = (if replicate (length (Path d) - length (longest_common_prefix (Path d) p)) ''..''
                  @ drop (length (longest_common_prefix (Path d) p)) p = [] then ''.''
             else join_slash
                (replicate (length (Path d) - length (longest_common_prefix (Path d) p)) ''..''
                  @ drop (length (longest_common_prefix (Path d) p)) p))"
    unfolding r_def os_relpath_def Let_def Path_pstr [OF p] ..
  then have r: "r = (if rel = [] then ''.'' else join_slash rel)"
    unfolding rel_def i_def sl_def .
  have dp: "\<forall>c \<in> set (drop i p). c \<noteq> [] \<and> c \<noteq> ''.'' \<and> c \<noteq> ''..'' \<and> CHR ''/'' \<notin> set c"
    using p by (auto simp: proper_def dest: in_set_dropD)
  have rc: "\<forall>c \<in> set rel. c \<noteq> [] \<and> c \<noteq> ''.'' \<and> CHR ''/'' \<notin> set c"
  proof
    fix c
    assume "c \<in> set rel"
    then have "c = ''..'' \<or> c \<in> set (drop i p)"
      unfolding rel_def by (auto split: if_splits)
    then show "c \<noteq> [] \<and> c \<noteq> ''.'' \<and> CHR ''/'' \<notin> set c"
    proof
      assume "c = ''..''"
      then show ?thesis by simp
    next
      assume "c \<in> set (drop i p)"
      with dp show ?thesis by blast
    qed
  qed
  have pr: "parts r = rel"
  proof (cases "rel = []")
    case True
    then show ?thesis by (simp add: r parts_def)
  next
    case False
    have "split_on CHR ''/'' (join_slash rel) = rel"
      using False rc by (simp add: split_on_join_slash)
    moreover have "filter (\<lambda>c. c \<noteq> [] \<and> c \<noteq> ''.'') rel = rel"
      using rc by (auto intro: filter_True)
    ultimately show ?thesis using False by (simp add: r parts_def)
  qed
  have l1: "prefix (longest_common_prefix sl p) sl" by (rule longest_common_prefix_prefix1)
  have l2: "prefix (longest_common_prefix sl p) p" by (rule longest_common_prefix_prefix2)
  have tk: "prefix xs ys \<Longrightarrow> take (length xs) ys = xs" for xs ys :: "string list"
    by (auto simp: prefix_def)
  have t1: "take i sl = longest_common_prefix sl p"
    unfolding i_def using l1 by (rule tk)
  have t2: "take i p = longest_common_prefix sl p"
    unfolding i_def using l2 by (rule tk)
  have le: "i \<le> length sl" using l1 unfolding i_def by (rule prefix_length_le)
  have "descend sl rel = descend (descend sl (replicate (length sl - i) ''..'')) (drop i p)"
    unfolding rel_def by (rule descend_append)
  also have "descend sl (replicate (length sl - i) ''..'') = take i sl"
    using le by (simp add: descend_up)
  also have "descend (take i sl) (drop i p) = take i sl @ drop i p"
    by (rule descend_plain) (use dp in blast)
  also have "\<dots> = p" unfolding t1 t2 [symmetric] by simp
  finally show "descend (Path d) (parts r) = p" unfolding pr sl_def .
  have hr: "rel \<noteq> [] \<Longrightarrow> hd rel \<noteq> [] \<and> hd (hd rel) \<noteq> CHR ''/''"
  proof -
    assume ne: "rel \<noteq> []"
    then have "hd rel \<in> set rel" by simp
    with rc have "hd rel \<noteq> [] \<and> CHR ''/'' \<notin> set (hd rel)" by blast
    then show ?thesis by (cases "hd rel") auto
  qed
  show "r \<noteq> []" using hr by (auto simp: r join_slash_not_Nil)
  show "hd r \<noteq> CHR ''/''" using hr by (auto simp: r hd_join_slash)
qed

lemma pstr_not_double_slash:
  assumes "proper p"
  shows "\<not> prefix ''//'' (pstr p)"
proof (cases p)
  case Nil
  then show ?thesis by (simp add: pstr_def)
next
  case (Cons c cs)
  with assms have "c \<noteq> []" "CHR ''/'' \<notin> set c" by (auto simp: proper_def)
  then show ?thesis using Cons by (cases c) (auto simp: pstr_def)
qed

lemma abspath_roundtrip:
  assumes p: "proper p"
  shows "Path (abspath w (get_texture_path w p rel)) = p"
proof (cases "rel \<and> blend_filepath w \<noteq> []")
  case False
  then have "get_texture_path w p rel = pstr p" by (auto simp: get_texture_path_def)
  then show ?thesis
    using pstr_not_double_slash [OF p] by (simp add: abspath_def Path_pstr [OF p])
next
  case True
  define d where "d = dirname (blend_filepath w)"
  define r where "r = os_relpath (pstr p) d"
  note rt = relpath_roundtrip [OF p r_def]
  have g: "get_texture_path w p rel = ''//'' @ r"
    using True pstr_not_double_slash [OF p]
    by (simp add: get_texture_path_def relpath_def r_def d_def)
  have a: "abspath w (''//'' @ r) =
        (if d = [] \<or> last d = CHR ''/'' then d @ r else d @ ''/'' @ r)"
    using rt(2,3) by (simp add: abspath_def Let_def d_def)
  have "parts (abspath w (''//'' @ r)) = parts d @ parts r"
    unfolding a
  proof (cases "d = []")
    case True
    then show "parts (if d = [] \<or> last d = CHR ''/'' then d @ r else d @ ''/'' @ r)
                 = parts d @ parts r"
      by (simp add: parts_def)
  next
    case False
    show "parts (if d = [] \<or> last d = CHR ''/'' then d @ r else d @ ''/'' @ r)
                 = parts d @ parts r"
    proof (cases "last d = CHR ''/''")
      case True
      with False have d: "d = butlast d @ ''/''" by (metis append_butlast_last_id)
      have "parts (d @ r) = parts ((butlast d @ ''/'') @ r)" by (simp only: d [symmetric])
      also have "\<dots> = parts (butlast d @ CHR ''/'' # r)" by simp
      also have "\<dots> = parts (butlast d) @ parts r" by (rule parts_append_sep)
      also have "parts (butlast d) = parts (butlast d @ ''/'')" by (simp only: parts_trailing_sep)
      also have "\<dots> = parts d" by (simp only: d [symmetric])
      finally show ?thesis using True by simp
    next
      case nl: False
      then show ?thesis using False parts_append_sep [of d r] by simp
    qed
  qed
  then have "Path (abspath w (''//'' @ r)) = descend (Path d) (parts r)"
    by (simp add: Path_def normalize_def descend_append)
  then show ?thesis unfolding g using rt(1) by simp
qed

section \<open>Downloading and extracting: proofs\<close>

lemma resolutions_no_slash: "res \<in> set resolutions \<Longrightarrow> CHR ''/'' \<notin> set res"
  by (auto simp: resolutions_def)

lemma parts_tagged:
  assumes "CHR ''/'' \<notin> set t"
  shows "parts (name @ ''_'' @ t) =
           filter (\<lambda>c. c \<noteq> [] \<and> c \<noteq> ''.'') (butlast (split_on CHR ''/'' name))
             @ [last (split_on CHR ''/'' name) @ ''_'' @ t]"
proof -
  define sp where "sp = split_on CHR ''/'' name"
  have "CHR ''/'' \<notin> set (''_'' @ t)" using assms by simp
  then have e: "split_on CHR ''/'' (name @ ''_'' @ t) = butlast sp @ [last sp @ ''_'' @ t]"
    unfolding sp_def by (rule split_on_append)
  have "last sp @ ''_'' @ t \<noteq> ''.''"
    by (cases "last sp"; cases t) auto
  then show ?thesis
    unfolding parts_def e sp_def [symmetric] by simp
qed

lemma cache_paths:
  assumes "CHR ''/'' \<notin> set res"
  shows "\<exists>B l. extract_path_of cache name res = B @ [l]
             \<and> zip_path_of cache name res = B @ [l @ ''.zip'']"
proof -
  define I where "I = filter (\<lambda>c. c \<noteq> [] \<and> c \<noteq> ''.'') (butlast (split_on CHR ''/'' name))"
  define l where "l = last (split_on CHR ''/'' name) @ ''_'' @ res"
  have a: "parts (name @ ''_'' @ res) = I @ [l]"
    unfolding I_def l_def by (rule parts_tagged) (rule assms)
  have "CHR ''/'' \<notin> set (res @ ''.zip'')" using assms by simp
  from parts_tagged [OF this, of name]
  have b: "parts (name @ ''_'' @ res @ ''.zip'') = I @ [l @ ''.zip'']"
    unfolding I_def l_def by simp
  have n1: "l \<noteq> ''..''"
  proof
    assume e: "l = ''..''"
    have "CHR ''_'' \<in> set l" by (simp add: l_def)
    then show False unfolding e by simp
  qed
  have n2: "l @ ''.zip'' \<noteq> ''..''"
  proof
    assume "l @ ''.zip'' = ''..''"
    then have "last (l @ ''.zip'') = last ''..''" by (rule arg_cong)
    then show False by simp
  qed
  have d1: "descend q (parts (name @ ''_'' @ res)) = descend q I @ [l]" for q
    unfolding a using n1 by (rule descend_snoc)
  have d2: "descend q (parts (name @ ''_'' @ res @ ''.zip'')) = descend q I @ [l @ ''.zip'']" for q
    unfolding b using n2 by (rule descend_snoc)
  define ab where "ab \<longleftrightarrow> name \<noteq> [] \<and> hd name = CHR ''/''"
  define B where "B = (if ab then descend [] I else descend cache I)"
  have c1: "(name @ ''_'' @ res \<noteq> [] \<and> hd (name @ ''_'' @ res) = CHR ''/'') = ab"
    unfolding ab_def by (cases name) simp_all
  have c2: "(name @ ''_'' @ res @ ''.zip'' \<noteq> [] \<and> hd (name @ ''_'' @ res @ ''.zip'') = CHR ''/'')
              = ab"
    unfolding ab_def by (cases name) simp_all
  have "extract_path_of cache name res = (if ab then descend [] I @ [l] else descend cache I @ [l])"
    by (simp only: extract_path_of_def pjoin_def Path_def normalize_def c1 d1)
  then have e: "extract_path_of cache name res = B @ [l]"
    unfolding B_def by (simp only: if_distrib [of "\<lambda>x. x @ [l]"])
  have "zip_path_of cache name res =
          (if ab then descend [] I @ [l @ ''.zip''] else descend cache I @ [l @ ''.zip''])"
    by (simp only: zip_path_of_def pjoin_def Path_def normalize_def c2 d2)
  then have z: "zip_path_of cache name res = B @ [l @ ''.zip'']"
    unfolding B_def by (simp only: if_distrib [of "\<lambda>x. x @ [l @ ''.zip'']"])
  from e z show ?thesis by blast
qed

lemma fs_rename_keeps_absent:
  assumes "fs_rename a b ft = Inr ft'" and "map_of ft k = None" and "\<not> prefix b k"
  shows "map_of ft' k = None"
  using fs_rename_lookup [OF assms(1), of k] assms(2,3)
  by (auto split: option.splits node.splits if_splits)

lemma fs_rename_keeps_dir:
  assumes "fs_rename a b ft = Inr ft'" and "map_of ft k = Some Dir" and "\<not> prefix a k"
  shows "map_of ft' k = Some Dir"
proof (cases "k = b")
  case True
  have "map_of ft a = Some Dir"
    using assms(1,2) True
    by (auto simp: fs_rename_def split: if_splits option.splits node.splits)
  then show ?thesis using fs_rename_dst [OF assms(1)] True by simp
next
  case False
  have "map_of ft k \<noteq> None" using assms(2) by simp
  have nb: "\<not> prefix b k" if "map_of ft a = Some Dir" "a \<noteq> b"
  proof
    assume "prefix b k"
    with False have "strict_prefix b k" by (auto simp: strict_prefix_def)
    moreover have "k \<in> fst ` set ft" using assms(2) by (metis map_of_eq_None_iff option.distinct(1))
    ultimately have "has_children ft b" by (auto simp: has_children_iff)
    with that assms(1) show False
      by (auto simp: fs_rename_def split: if_splits option.splits node.splits)
  qed
  have ka: "k \<noteq> a" using assms(3) by auto
  have sa: "map_of ft a \<noteq> None"
    using assms(1) by (auto simp: fs_rename_def split: if_splits option.splits)
  show ?thesis
    using fs_rename_lookup [OF assms(1), of k] assms(2,3) False ka nb sa
    by (auto split: option.splits node.splits if_splits)
qed

lemma restore_keeps_absent:
  assumes "restore_unused_texture x w = Inr (b, w')" and "map_of (fs w) k = None"
    and "\<not> prefix x k"
  shows "map_of (fs w') k = None"
  using restore_unused_texture_cases [OF assms(1)] assms(2,3)
    fs_rename_keeps_absent [of "with_unused x" x "fs w" _ k]
  by auto

lemma restore_keeps_dir:
  assumes "restore_unused_texture x w = Inr (b, w')" and "is_dir (fs w) k"
    and "\<not> prefix (with_unused x) k"
  shows "is_dir (fs w') k"
  using restore_unused_texture_cases [OF assms(1)] assms(2,3)
    fs_rename_keeps_dir [of "with_unused x" x "fs w" _ k]
  by (auto simp: is_dir_def)

lemma fs_rename_absent:
  assumes "fs_rename a b ft = Inr ft'" and "map_of ft k = None" and "k \<noteq> b"
    and "strict_prefix b k \<Longrightarrow> has_children ft b"
  shows "map_of ft' k = None"
proof (cases "map_of ft a")
  case None
  with assms(1) show ?thesis by (simp add: fs_rename_def split: if_splits)
next
  case (Some n)
  show ?thesis
  proof (cases n)
    case (File d)
    then show ?thesis
      using fs_rename_lookup [OF assms(1), of k] Some assms(2,3) by simp
  next
    case Dir
    show ?thesis
    proof (cases "a = b")
      case True
      then show ?thesis
        using fs_rename_lookup [OF assms(1), of k] Some Dir assms(2) by simp
    next
      case False
      with assms(1) Some Dir have "\<not> has_children ft b"
        by (auto simp: fs_rename_def split: if_splits option.splits node.splits)
      with assms(3,4) have "\<not> prefix b k" by (auto simp: strict_prefix_def)
      with assms(1,2) show ?thesis by (rule fs_rename_keeps_absent)
    qed
  qed
qed

lemma fs_rename_dir_cases:
  assumes "fs_rename a b ft = Inr ft'" and "map_of ft k = Some Dir"
  shows "map_of ft' k = Some Dir \<or> map_of ft' b = Some Dir"
proof (cases "map_of ft a")
  case None
  with assms(1) show ?thesis by (simp add: fs_rename_def split: if_splits)
next
  case (Some n)
  show ?thesis
  proof (cases n)
    case (File d)
    have "k \<noteq> b" using assms Some File by (auto simp: fs_rename_def split: if_splits)
    moreover have "k \<noteq> a" using assms(2) Some File by auto
    ultimately show ?thesis
      using fs_rename_lookup [OF assms(1), of k] Some File assms(2) by simp
  next
    case Dir
    then show ?thesis using fs_rename_dst [OF assms(1)] Some by simp
  qed
qed


lemma abspath_cong: "blend_filepath w' = blend_filepath w \<Longrightarrow> abspath w' s = abspath w s"
  by (simp add: abspath_def)

lemma output_path_proper:
  "proper output_folder \<Longrightarrow> proper (output_path_of source_path output_folder m name)"
  unfolding output_path_of_def Let_def by (rule pjoin_proper)

lemma process_texture_kept:
  assumes pt: "process_texture h (ep @ [f]) output_folder m rel name w = Inr (p, w1)"
    and k: "cache_clean zp ep w"
    and ez: "ep = B @ [l]" "zp = B @ [l @ ''.zip'']"
  shows "map_of (fs w1) zp = None
       \<and> (is_dir (fs w1) ep
          \<or> map_of (fs w1) (output_path_of (ep @ [f]) output_folder m name) = Some Dir)"
proof -
  define src where "src = ep @ [f]"
  define out where "out = output_path_of src output_folder m name"
  from process_texture_Inr [OF pt] obtain b1 wa b2 wb where
    ra: "restore_unused_texture src w = Inr (b1, wa)" and
    rb: "restore_unused_texture out wa = Inr (b2, wb)" and
    alt: "(fs_exists (fs wb) out \<and> w1 = wb \<and> p = get_texture_path wb out rel)
            \<or> (\<not> fs_exists (fs wb) out \<and> convert_texture h src out m rel wb = Inr (p, w1))"
    unfolding out_def src_def by blast
  obtain xs l' where o: "out = xs @ [l' @ ''.png'']"
    unfolding out_def using output_path_last by blast
  have n1: "\<not> prefix src zp"
  proof
    assume "prefix src zp"
    then have "length src \<le> length zp" by (rule prefix_length_le)
    then show False by (simp add: src_def ez)
  qed
  have n2: "\<not> prefix (with_unused src) ep"
  proof
    assume "prefix (with_unused src) ep"
    then have "length (with_unused src) \<le> length ep" by (rule prefix_length_le)
    then show False by (simp add: src_def with_unused_def)
  qed
  have ka: "cache_clean zp ep wa"
    using k restore_keeps_absent [OF ra _ n1] restore_keeps_dir [OF ra _ n2]
    by (simp add: cache_clean_def)
  then have za: "map_of (fs wa) zp = None" and da: "map_of (fs wa) ep = Some Dir"
    by (simp_all add: cache_clean_def is_dir_def ez)
  have zo: "zp \<noteq> out"
  proof
    assume "zp = out"
    then have "l @ ''.zip'' = l' @ ''.png''" by (simp add: ez o)
    then have "last (l @ ''.zip'') = last (l' @ ''.png'')" by (rule arg_cong)
    then show False by simp
  qed
  have hc: "has_children (fs wa) out" if "strict_prefix out zp"
  proof -
    from that have "prefix out B" by (auto simp: ez strict_prefix_def)
    then have "length out \<le> length B" by (rule prefix_length_le)
    with \<open>prefix out B\<close> have "strict_prefix out ep"
      by (auto simp: ez strict_prefix_def prefix_def)
    moreover have "ep \<in> fst ` set (fs wa)"
      using da by (metis map_of_eq_None_iff option.distinct(1))
    ultimately show ?thesis by (auto simp: has_children_iff)
  qed
  have zb: "map_of (fs wb) zp = None"
    and db: "map_of (fs wb) ep = Some Dir \<or> map_of (fs wb) out = Some Dir"
  proof -
    from restore_unused_texture_cases [OF rb]
    have "wb = wa \<or> (\<exists>ft. fs_rename (with_unused out) out (fs wa) = Inr ft \<and> wb = wa\<lparr>fs := ft\<rparr>)"
      by blast
    then have "map_of (fs wb) zp = None
         \<and> (map_of (fs wb) ep = Some Dir \<or> map_of (fs wb) out = Some Dir)"
    proof
      assume "wb = wa"
      with za da show ?thesis by simp
    next
      assume "\<exists>ft. fs_rename (with_unused out) out (fs wa) = Inr ft \<and> wb = wa\<lparr>fs := ft\<rparr>"
      then obtain ft where rn: "fs_rename (with_unused out) out (fs wa) = Inr ft"
        and wb: "wb = wa\<lparr>fs := ft\<rparr>" by blast
      from fs_rename_absent [OF rn za zo hc] fs_rename_dir_cases [OF rn da]
      show ?thesis by (simp add: wb)
    qed
    then show "map_of (fs wb) zp = None"
      "map_of (fs wb) ep = Some Dir \<or> map_of (fs wb) out = Some Dir" by simp_all
  qed
  from alt have "map_of (fs w1) zp = None
      \<and> (map_of (fs w1) ep = Some Dir \<or> map_of (fs w1) out = Some Dir)"
  proof
    assume "fs_exists (fs wb) out \<and> w1 = wb \<and> p = get_texture_path wb out rel"
    with zb db show ?thesis by simp
  next
    assume a: "\<not> fs_exists (fs wb) out \<and> convert_texture h src out m rel wb = Inr (p, w1)"
    then have no: "map_of (fs wb) out = None" by (simp add: fs_exists_def)
    from a have "convert_texture h src out m rel wb = Inr (p, w1)" by simp
    from convert_texture_Inr [OF this] obtain x y ft ev where
      c: "w1 = wb\<lparr>fs := ft, image_io := image_io wb @ Loaded src x y # ev\<rparr>"
        "\<forall>k. k \<noteq> out \<longrightarrow> map_of ft k = map_of (fs wb) k"
      by blast
    from db no have d: "map_of (fs wb) ep = Some Dir" by simp
    with no have "ep \<noteq> out" by auto
    then show ?thesis using c zo zb d by simp
  qed
  then show ?thesis by (simp add: is_dir_def out_def src_def)
qed

lemma texture_step_kept:
  assumes st: "texture_step h ep output_folder f w = Inr (u, w')"
    and k: "cache_clean zp ep w"
    and ez: "ep = B @ [l]" "zp = B @ [l @ ''.zip'']"
    and po: "proper output_folder"
  shows "cache_clean zp ep w'"
proof (cases "branch_of (scene w) f")
  case None
  with st k show ?thesis by (simp add: texture_step_def)
next
  case (Some c)
  define m where "m = ambientcg_resize_multiplier (scene w)"
  define rel where "rel = ambientcg_use_relative_paths (scene w)"
  define name where "name = ambientcg_material_name (scene w)"
  define out where "out = output_path_of (ep @ [f]) output_folder m name"
  from st Some obtain texture_path w1 where
    pt: "process_texture h (ep @ [f]) output_folder m rel name w = Inr (texture_path, w1)"
    by (auto simp: texture_step_def Let_def m_def rel_def name_def split: sum.splits prod.splits)
  from process_texture_kept [OF pt k ez] have z1: "map_of (fs w1) zp = None"
    and d1: "is_dir (fs w1) ep \<or> map_of (fs w1) out = Some Dir"
    by (simp_all add: out_def)
  note post = process_texture_post [OF pt, folded out_def]
  define w2 where "w2 = set_cur_material
      (nodes_new (plain_node ''ShaderNodeTexImage'' (channel_location c)) (cur_material w1)) w1"
  from st Some pt obtain img w3 where
    il: "images_load texture_path w2 = Inr (img, w3)"
    by (auto simp: texture_step_def Let_def w2_def m_def rel_def name_def
        split: sum.splits prod.splits)
  have f2: "fs w2 = fs w1" "blend_filepath w2 = blend_filepath w"
    using post(4) by (simp_all add: w2_def set_cur_material_def)
  have "proper out" unfolding out_def using po by (rule output_path_proper)
  then have "Path (abspath w (get_texture_path w out rel)) = out" by (rule abspath_roundtrip)
  then have "Path (abspath w2 texture_path) = out"
    using abspath_cong [OF f2(2)] post(3) by simp
  with il have "\<exists>x y. map_of (fs w1) out = Some (File (Picture x y))"
    by (auto simp: images_load_def load_at_def f2(1)
        split: option.splits node.splits filedata.splits)
  with d1 have d: "is_dir (fs w1) ep" by auto
  have "fs w' = fs w3"
    using st Some pt il
    by (auto simp: texture_step_def Let_def w2_def m_def rel_def name_def set_cur_material_def)
  also have "\<dots> = fs w1" using images_load_frame [OF il] by (simp add: f2)
  finally show ?thesis using z1 d by (simp add: cache_clean_def)
qed

lemma texture_loop_kept:
  assumes "texture_loop h ep output_folder files w = Inr (u, w')"
    and "cache_clean zp ep w"
    and ez: "ep = B @ [l]" "zp = B @ [l @ ''.zip'']"
    and po: "proper output_folder"
  shows "cache_clean zp ep w'"
  using assms(1,2)
proof (induction files arbitrary: w)
  case Nil
  then show ?case by simp
next
  case (Cons f files)
  from Cons.prems(1) obtain w1 where
    st: "texture_step h ep output_folder f w = Inr ((), w1)"
    and lp: "texture_loop h ep output_folder files w1 = Inr (u, w')"
    by (auto split: sum.splits prod.splits)
  from Cons.IH [OF lp texture_step_kept [OF st Cons.prems(2) ez po]] show ?case .
qed

lemma ensure_extracted_download:
  assumes "ensure_extracted h name res cache w = Inr w3" and "retrieved w3 \<noteq> retrieved w"
  shows "retrieved w3 = retrieved w @ [archive_url name res]
       \<and> map_of (fs w3) (zip_path_of cache name res) = None
       \<and> \<not> fs_exists (fs w) (extract_path_of cache name res)"
  using assms
  by (auto simp: ensure_extracted_def urlretrieve_def unlink_def report_def Let_def delete_conv'
      split: sum.splits prod.splits if_splits option.splits node.splits filedata.splits)

lemma choose_folders_Inr:
  assumes "choose_folders w = Inr ((cache, ep, outf), w2)"
  shows "ep = extract_path_of cache (ambientcg_material_name (scene w))
                (ambientcg_resolution (scene w))
       \<and> retrieved w2 = retrieved w \<and> proper outf"
proof -
  have "proper (Path (cache_dir w))" "proper (Path (ambientcg_custom_folder (scene w)))"
    by (rule Path_proper)+
  moreover from this(1) have "proper (extract_path_of (Path (cache_dir w)) n r)" for n r
    unfolding extract_path_of_def by (rule pjoin_proper)
  ultimately show ?thesis
    using assms
    by (auto simp: choose_folders_def get_cache_dir_def Let_def
        split: sum.splits prod.splits if_splits)
qed

lemma texture_step_retrieved:
  assumes "texture_step h ep output_folder f w = Inr (u, w')"
  shows "retrieved w' = retrieved w"
proof (cases "branch_of (scene w) f")
  case None
  with assms show ?thesis by (simp add: texture_step_def)
next
  case (Some c)
  from assms Some obtain texture_path w1 where
    pt: "process_texture h (ep @ [f]) output_folder
           (ambientcg_resize_multiplier (scene w)) (ambientcg_use_relative_paths (scene w))
           (ambientcg_material_name (scene w)) w = Inr (texture_path, w1)"
    by (auto simp: texture_step_def Let_def split: sum.splits prod.splits)
  define w2 where "w2 = set_cur_material
      (nodes_new (plain_node ''ShaderNodeTexImage'' (channel_location c)) (cur_material w1)) w1"
  from assms Some pt obtain img w3 where
    il: "images_load texture_path w2 = Inr (img, w3)"
    by (auto simp: texture_step_def Let_def w2_def split: sum.splits prod.splits)
  have "retrieved w' = retrieved w3"
    using assms Some pt il by (auto simp: texture_step_def Let_def w2_def)
  also have "\<dots> = retrieved w1" using images_load_frame [OF il] by (simp add: w2_def)
  finally show ?thesis using process_texture_frame [OF pt] by simp
qed

lemma texture_loop_retrieved:
  "texture_loop h ep output_folder files w = Inr (u, w') \<Longrightarrow> retrieved w' = retrieved w"
proof (induction files arbitrary: w)
  case Nil
  then show ?case by simp
next
  case (Cons f files)
  from Cons.prems obtain w1 where
    st: "texture_step h ep output_folder f w = Inr ((), w1)"
    and lp: "texture_loop h ep output_folder files w1 = Inr (u, w')"
    by (auto split: sum.splits prod.splits)
  from Cons.IH [OF lp] texture_step_retrieved [OF st] show ?case by simp
qed

lemma build_material_Inr:
  assumes "build_material h ep output_folder w3 = Inr (st, w')"
  shows "\<exists>files u w5. is_dir (fs w3) ep
           \<and> texture_loop h ep output_folder files
                (w3\<lparr>materials := materials w3 @ [new_material (ambientcg_material_name (scene w3))]\<rparr>)
               = Inr (u, w5)
           \<and> fs w' = fs w5 \<and> retrieved w' = retrieved w5"
proof -
  define w4 where "w4 = w3\<lparr>materials := materials w3 @ [new_material (ambientcg_material_name (scene w3))]\<rparr>"
  from assms obtain files where ls: "listdir ep (fs w3) = Inr files"
    by (auto simp: build_material_def Let_def split: sum.splits)
  then have d: "is_dir (fs w3) ep" by (auto simp: listdir_def split: if_splits)
  from assms ls obtain u w5 where
    lp: "texture_loop h ep output_folder files w4 = Inr (u, w5)"
    by (auto simp: build_material_def Let_def w4_def split: sum.splits prod.splits)
  from assms ls lp have "fs w' = fs w5 \<and> retrieved w' = retrieved w5"
    by (auto simp: build_material_def Let_def w4_def report_def set_cur_material_def)
  with d lp show ?thesis unfolding w4_def by blast
qed


lemma mkdir_keeps_file:
  "mkdir p ft = Inr ft' \<Longrightarrow> map_of ft k = Some (File d) \<Longrightarrow> map_of ft' k = Some (File d)"
  by (auto simp: mkdir_def update_conv' split: if_splits)

lemma mkdir_chain_keeps_file:
  "mkdir_chain ps ft = Inr ft' \<Longrightarrow> map_of ft k = Some (File d)
     \<Longrightarrow> map_of ft' k = Some (File d)"
proof (induction ps arbitrary: ft)
  case Nil
  then show ?case by simp
next
  case (Cons p ps)
  from Cons.prems(1) obtain ft1 where m: "mkdir p ft = Inr ft1"
    and c: "mkdir_chain ps ft1 = Inr ft'"
    by (auto split: sum.splits)
  from Cons.IH [OF c mkdir_keeps_file [OF m Cons.prems(2)]] show ?case .
qed

lemma extract_member_keeps_file:
  assumes "extract_member target m ft = Inr ft'" and "\<exists>d. map_of ft k = Some (File d)"
  shows "\<exists>d. map_of ft' k = Some (File d)"
proof -
  from assms(2) obtain d where d: "map_of ft k = Some (File d)" by blast
  show ?thesis
  proof (cases "endswith (fst m) ''/''")
    case True
    with assms(1) have "mkdir_chain (prefixes (member_path target (fst m))) ft = Inr ft'"
      by (simp add: extract_member_def mkdir_parents_def Let_def)
    from mkdir_chain_keeps_file [OF this d] show ?thesis by blast
  next
    case False
    with assms(1) obtain ft1 where
      a: "mkdir_chain (prefixes (butlast (member_path target (fst m)))) ft = Inr ft1"
      and b: "write_file (member_path target (fst m)) (snd m) ft1 = Inr ft'"
      by (auto simp: extract_member_def mkdir_parents_def Let_def split: sum.splits)
    from mkdir_chain_keeps_file [OF a d] have "map_of ft1 k = Some (File d)" .
    with b show ?thesis
      by (auto simp: write_file_def update_conv' split: if_splits)
  qed
qed

lemma extractall_keeps_file:
  "extractall target ms ft = Inr ft' \<Longrightarrow> \<exists>d. map_of ft k = Some (File d)
     \<Longrightarrow> \<exists>d. map_of ft' k = Some (File d)"
proof (induction ms arbitrary: ft)
  case Nil
  then show ?case by simp
next
  case (Cons m ms)
  from Cons.prems(1) obtain ft1 where e: "extract_member target m ft = Inr ft1"
    and r: "extractall target ms ft1 = Inr ft'"
    by (auto split: sum.splits)
  from Cons.IH [OF r extract_member_keeps_file [OF e Cons.prems(2)]] show ?case .
qed

lemma ensure_extracted_deletes:
  assumes "\<not> fs_exists (fs w) (extract_path_of cache name res)"
    and "urlretrieve h (archive_url name res) (zip_path_of cache name res) w = Inr (u, w1)"
    and "map_of (fs w1) (zip_path_of cache name res) = Some (File (Archive members))"
    and "extractall (extract_path_of cache name res) members (fs w1) = Inr fs2"
  shows "ensure_extracted h name res cache w =
           Inr (w1\<lparr>fs := AList.delete (zip_path_of cache name res) fs2\<rparr>)"
proof -
  from extractall_keeps_file [OF assms(4), of "zip_path_of cache name res"] assms(3)
  obtain d where "map_of fs2 (zip_path_of cache name res) = Some (File d)" by blast
  then have "unlink (zip_path_of cache name res) fs2 =
               Inr (AList.delete (zip_path_of cache name res) fs2)"
    by (simp add: unlink_def)
  with assms show ?thesis by (simp add: ensure_extracted_def Let_def)
qed

lemma example_zip_path:
  "zip_path_of [''cache''] ''Rock035'' ''1K'' = [''cache'', ''Rock035_1K.zip'']"
  "extract_path_of [''cache''] ''Rock035'' ''1K'' = [''cache'', ''Rock035_1K'']"
  by (simp_all add: zip_path_of_def extract_path_of_def pjoin_def Path_def parts_def
      normalize_def descend_def)

lemma example_download:
  "urlretrieve example_host (archive_url ''Rock035'' ''1K'') [''cache'', ''Rock035_1K.zip'']
     (example_world\<lparr>fs := [([''cache''], Dir)]\<rparr>) =
   Inr ((), example_world\<lparr>fs := [([''cache''], Dir),
                                     ([''cache'', ''Rock035_1K.zip''], File example_archive)],
                              retrieved := [archive_url ''Rock035'' ''1K'']\<rparr>)"
  by (simp add: urlretrieve_def write_file_def is_dir_def example_host_def example_world_def
      Let_def)

lemma example_extractall:
  "extractall [''cache'', ''Rock035_1K'']
     [(''Rock035_1K-PNG_Roughness.png'', Picture 1024 1024),
      (''Rock035_1K-PNG_Color.png'', Picture 1024 1024),
      (''Rock035.usdc'', Bytes)]
     [([''cache''], Dir), ([''cache'', ''Rock035_1K.zip''], File example_archive)] =
   Inr [([''cache''], Dir), ([''cache'', ''Rock035_1K.zip''], File example_archive),
        ([''cache'', ''Rock035_1K''], Dir),
        ([''cache'', ''Rock035_1K'', ''Rock035_1K-PNG_Roughness.png''], File (Picture 1024 1024)),
        ([''cache'', ''Rock035_1K'', ''Rock035_1K-PNG_Color.png''], File (Picture 1024 1024)),
        ([''cache'', ''Rock035_1K'', ''Rock035.usdc''], File Bytes)]"
  by (simp add: extract_member_def member_path_def mkdir_parents_def mkdir_def write_file_def
      is_dir_def endswith_def suffix_to_prefix Let_def)

text \<open>
  Claim C10.  The resolution is one of the items of its enum property.  When the
  extraction directory does not exist, the download succeeds, the file downloaded is an
  archive and its extraction succeeds, then the download step succeeds too and has
  deleted the archive: the files are those the extraction left, without the archive.
  A finished run of fetch-and-create that retrieved something found no extraction
  directory and retrieved exactly the archive of the material and resolution; once its
  download step is over, and still when the run ends, there is no file at the archive's
  path and the extraction path is a directory.
\<close>

theorem archive_deleted_after_extraction:
  assumes "ambientcg_resolution (scene w) \<in> set resolutions"
  shows "let name = ambientcg_material_name (scene w);
             res = ambientcg_resolution (scene w)
         in (\<forall>cache w2 u w1 members fs2.
               \<not> fs_exists (fs w2) (extract_path_of cache name res)
               \<and> urlretrieve h (archive_url name res) (zip_path_of cache name res) w2
                   = Inr (u, w1)
               \<and> map_of (fs w1) (zip_path_of cache name res) = Some (File (Archive members))
               \<and> extractall (extract_path_of cache name res) members (fs w1) = Inr fs2
               \<longrightarrow> ensure_extracted h name res cache w2 =
                     Inr (w1\<lparr>fs := AList.delete (zip_path_of cache name res) fs2\<rparr>)
                 \<and> map_of (AList.delete (zip_path_of cache name res) fs2)
                     (zip_path_of cache name res) = None)
          \<and> (fetch_and_create h w = Inr (FINISHED, w') \<and> retrieved w' \<noteq> retrieved w
               \<longrightarrow> (\<exists>cache output_folder w2 w3.
                      choose_folders w =
                        Inr ((cache, extract_path_of cache name res, output_folder), w2)
                    \<and> \<not> fs_exists (fs w2) (extract_path_of cache name res)
                    \<and> ensure_extracted h name res cache w2 = Inr w3
                    \<and> retrieved w' = retrieved w @ [archive_url name res]
                    \<and> map_of (fs w3) (zip_path_of cache name res) = None
                    \<and> is_dir (fs w3) (extract_path_of cache name res)
                    \<and> map_of (fs w') (zip_path_of cache name res) = None
                    \<and> is_dir (fs w') (extract_path_of cache name res)))"
proof -
  define name where "name = ambientcg_material_name (scene w)"
  define res where "res = ambientcg_resolution (scene w)"
  have step: "ensure_extracted h name res cache w2 =
                Inr (w1\<lparr>fs := AList.delete (zip_path_of cache name res) fs2\<rparr>)
            \<and> map_of (AList.delete (zip_path_of cache name res) fs2)
                     (zip_path_of cache name res) = None"
    if "\<not> fs_exists (fs w2) (extract_path_of cache name res)
               \<and> urlretrieve h (archive_url name res) (zip_path_of cache name res) w2
                   = Inr (u, w1)
               \<and> map_of (fs w1) (zip_path_of cache name res) = Some (File (Archive members))
               \<and> extractall (extract_path_of cache name res) members (fs w1) = Inr fs2"
    for cache w2 u w1 members fs2
    using that ensure_extracted_deletes [of w2 cache name res h u w1 members fs2]
    by (simp add: delete_conv')
  have run: "\<exists>cache output_folder w2 w3.
                      choose_folders w =
                        Inr ((cache, extract_path_of cache name res, output_folder), w2)
                    \<and> \<not> fs_exists (fs w2) (extract_path_of cache name res)
                    \<and> ensure_extracted h name res cache w2 = Inr w3
                    \<and> retrieved w' = retrieved w @ [archive_url name res]
                    \<and> map_of (fs w3) (zip_path_of cache name res) = None
                    \<and> is_dir (fs w3) (extract_path_of cache name res)
                    \<and> map_of (fs w') (zip_path_of cache name res) = None
                    \<and> is_dir (fs w') (extract_path_of cache name res)"
    if fin: "fetch_and_create h w = Inr (FINISHED, w')" and dl: "retrieved w' \<noteq> retrieved w"
  proof -
    from fetch_and_create_Inr [OF fin] obtain cache ep output_folder w2 w3 where
      a: "choose_folders w = Inr ((cache, ep, output_folder), w2)"
      and b: "ensure_extracted h name res cache w2 = Inr w3"
      and c: "build_material h ep output_folder w3 = Inr (FINISHED, w')"
      unfolding name_def res_def by blast
    define zp where "zp = zip_path_of cache name res"
    from choose_folders_Inr [OF a] have ep: "ep = extract_path_of cache name res"
      and r2: "retrieved w2 = retrieved w" and po: "proper output_folder"
      by (simp_all add: name_def res_def)
    from build_material_Inr [OF c] obtain files u w5 where
      d: "is_dir (fs w3) ep"
      and lp: "texture_loop h ep output_folder files
                  (w3\<lparr>materials := materials w3 @ [new_material (ambientcg_material_name (scene w3))]\<rparr>)
                 = Inr (u, w5)"
      and e: "fs w' = fs w5" "retrieved w' = retrieved w5"
      by blast
    have r5: "retrieved w5 = retrieved w3" using texture_loop_retrieved [OF lp] by simp
    with e dl r2 have "retrieved w3 \<noteq> retrieved w2" by simp
    from ensure_extracted_download [OF b this] have
      r3: "retrieved w3 = retrieved w @ [archive_url name res]"
      and z3: "map_of (fs w3) zp = None"
      and n2: "\<not> fs_exists (fs w2) ep"
      by (simp_all add: r2 zp_def ep)
    have "CHR ''/'' \<notin> set res"
      unfolding res_def using assms by (rule resolutions_no_slash)
    from cache_paths [OF this, of cache name] obtain B l where
      ez: "ep = B @ [l]" "zp = B @ [l @ ''.zip'']"
      unfolding ep zp_def by blast
    have "cache_clean zp ep (w3\<lparr>materials := materials w3 @ [new_material (ambientcg_material_name (scene w3))]\<rparr>)"
      using z3 d by (simp add: cache_clean_def)
    from texture_loop_kept [OF lp this ez po]
    have fin': "map_of (fs w') zp = None \<and> is_dir (fs w') ep"
      by (simp add: cache_clean_def e)
    have rw: "retrieved w' = retrieved w @ [archive_url name res]"
      using e r5 r3 by simp
    show ?thesis
      apply (rule exI [of _ cache], rule exI [of _ output_folder], rule exI [of _ w2],
          rule exI [of _ w3])
      unfolding ep [symmetric] zp_def [symmetric]
      using a n2 b rw z3 d fin' by blast
  qed
  show ?thesis
    unfolding Let_def name_def [symmetric] res_def [symmetric]
    using step run by blast
qed

theorem archive_deleted_after_extraction_witness:
  "ambientcg_resolution (scene example_world) \<in> set resolutions
   \<and> (\<exists>w1 fs2.
         urlretrieve example_host (archive_url ''Rock035'' ''1K'') [''cache'', ''Rock035_1K.zip'']
           (example_world\<lparr>fs := [([''cache''], Dir)]\<rparr>) = Inr ((), w1)
       \<and> map_of (fs w1) [''cache'', ''Rock035_1K.zip''] = Some (File example_archive)
       \<and> extractall [''cache'', ''Rock035_1K'']
            [(''Rock035_1K-PNG_Roughness.png'', Picture 1024 1024),
             (''Rock035_1K-PNG_Color.png'', Picture 1024 1024),
             (''Rock035.usdc'', Bytes)] (fs w1) = Inr fs2
       \<and> ensure_extracted example_host ''Rock035'' ''1K'' [''cache'']
            (example_world\<lparr>fs := [([''cache''], Dir)]\<rparr>) =
           Inr (w1\<lparr>fs := AList.delete [''cache'', ''Rock035_1K.zip''] fs2\<rparr>)
       \<and> map_of (AList.delete [''cache'', ''Rock035_1K.zip''] fs2)
            [''cache'', ''Rock035_1K.zip''] = None)
   \<and> (\<exists>w'. fetch_and_create example_host example_world = Inr (FINISHED, w')
          \<and> retrieved w' = [archive_url ''Rock035'' ''1K'']
          \<and> map_of (fs w') [''cache'', ''Rock035_1K.zip''] = None
          \<and> is_dir (fs w') [''cache'', ''Rock035_1K''])"
proof -
  have n: "ambientcg_material_name (scene example_world) = ''Rock035''"
    "ambientcg_resolution (scene example_world) = ''1K''"
    by (simp_all add: example_world_def example_scene_def)
  have res: "ambientcg_resolution (scene example_world) \<in> set resolutions"
    by (simp add: n resolutions_def)
  define w1 where
    "w1 = example_world\<lparr>fs := [([''cache''], Dir),
                                 ([''cache'', ''Rock035_1K.zip''], File example_archive)],
                          retrieved := [archive_url ''Rock035'' ''1K'']\<rparr>"
  define fs2 where
    "fs2 = [([''cache''], Dir), ([''cache'', ''Rock035_1K.zip''], File example_archive),
        ([''cache'', ''Rock035_1K''], Dir),
        ([''cache'', ''Rock035_1K'', ''Rock035_1K-PNG_Roughness.png''], File (Picture 1024 1024)),
        ([''cache'', ''Rock035_1K'', ''Rock035_1K-PNG_Color.png''], File (Picture 1024 1024)),
        ([''cache'', ''Rock035_1K'', ''Rock035.usdc''], File Bytes)]"
  let ?ms = "[(''Rock035_1K-PNG_Roughness.png'', Picture 1024 1024),
             (''Rock035_1K-PNG_Color.png'', Picture 1024 1024),
             (''Rock035.usdc'', Bytes)]"
  have p1: "\<not> fs_exists (fs (example_world\<lparr>fs := [([''cache''], Dir)]\<rparr>)) [''cache'', ''Rock035_1K'']"
    by (simp add: fs_exists_def)
  have p2: "urlretrieve example_host (archive_url ''Rock035'' ''1K'') [''cache'', ''Rock035_1K.zip'']
           (example_world\<lparr>fs := [([''cache''], Dir)]\<rparr>) = Inr ((), w1)"
    unfolding w1_def by (rule example_download)
  have p3: "map_of (fs w1) [''cache'', ''Rock035_1K.zip''] = Some (File (Archive ?ms))"
    by (simp add: w1_def example_archive_def)
  have p4: "extractall [''cache'', ''Rock035_1K''] ?ms (fs w1) = Inr fs2"
    using example_extractall by (simp add: w1_def fs2_def)
  obtain w' where r: "fetch_and_create example_host example_world = Inr (FINISHED, w')"
  proof -
    have "created_nodes (fetch_and_create example_host example_world) \<noteq> None"
      by (simp add: example_fetch_and_create example_build)
    then show ?thesis
      by (auto simp: created_nodes_def split: sum.splits prod.splits status.splits intro: that)
  qed
  then have "build_material example_host [''cache'', ''Rock035_1K''] [''cache'', ''Rock035_1K'']
       extracted_world = Inr (FINISHED, w')"
    by (simp add: example_fetch_and_create)
  from build_material_Inr [OF this] obtain files u w5 where
    lp: "texture_loop example_host [''cache'', ''Rock035_1K''] [''cache'', ''Rock035_1K''] files
       (extracted_world\<lparr>materials := materials extracted_world @
           [new_material (ambientcg_material_name (scene extracted_world))]\<rparr>) = Inr (u, w5)"
    and rw: "retrieved w' = retrieved w5"
    by blast
  from texture_loop_retrieved [OF lp] rw
  have rt: "retrieved w' = [archive_url ''Rock035'' ''1K'']"
    by (simp add: extracted_world_def)
  then have dl: "retrieved w' \<noteq> retrieved example_world"
    by (simp add: example_world_def)
  note t = archive_deleted_after_extraction [OF res, of example_host w', unfolded Let_def n]
  from t p1 p2 p3 p4 have
    s: "ensure_extracted example_host ''Rock035'' ''1K'' [''cache'']
            (example_world\<lparr>fs := [([''cache''], Dir)]\<rparr>) =
           Inr (w1\<lparr>fs := AList.delete [''cache'', ''Rock035_1K.zip''] fs2\<rparr>)
       \<and> map_of (AList.delete [''cache'', ''Rock035_1K.zip''] fs2)
            [''cache'', ''Rock035_1K.zip''] = None"
    unfolding example_zip_path [symmetric] by blast
  from t r dl have
    "map_of (fs w') [''cache'', ''Rock035_1K.zip''] = None \<and> is_dir (fs w') [''cache'', ''Rock035_1K'']"
    unfolding example_choose_folders by (auto simp: example_zip_path)
  with r rt s res p2 p3 p4 show ?thesis
    unfolding example_archive_def by blast
qed
end
